(* ===== verification/Straw_Prelude.thy ===== *)
theory Straw_Prelude
  imports Main "HOL-Library.Word" "HOL-Library.Multiset" "HOL-Library.Monad_Syntax"
    "HOL-Library.Char_ord" "HOL-Library.List_Lexorder" "HOL-Library.Code_Target_Nat"
begin

text \<open>
  Shared vocabulary of the development: the Go types the components use (byte strings,
  fixed-width unsigned integers, instants), the parts of Go's \<open>strings\<close> package that the
  sources call, and the generic facts on lists, words and insertion sort that the component
  proofs draw on.  Go strings are byte sequences, so both \<open>string\<close> and \<open>[]byte\<close> are
  \<^typ>\<open>char list\<close>; Go's string order is the lexicographic order on bytes.
\<close>

section \<open>Types\<close>

type_synonym bytes = "char list"
type_synonym uint32 = "32 word"
type_synonym uint64 = "64 word"
type_synonym instant = int

named_theorems straw_defs \<open>definitions of small guards that proofs unfold together\<close>

section \<open>Byte strings\<close>

definition has_prefix :: "string \<Rightarrow> string \<Rightarrow> bool" where
  "has_prefix s p \<longleftrightarrow> length p \<le> length s \<and> take (length p) s = p"

definition has_suffix :: "string \<Rightarrow> string \<Rightarrow> bool" where
  "has_suffix s p \<longleftrightarrow> length p \<le> length s \<and> drop (length s - length p) s = p"

definition trim_suffix :: "string \<Rightarrow> string \<Rightarrow> string" where
  "trim_suffix s p = (if has_suffix s p then take (length s - length p) s else s)"

definition trim_prefix :: "string \<Rightarrow> string \<Rightarrow> string" where
  "trim_prefix s p = (if has_prefix s p then drop (length p) s else s)"

definition is_upper :: "char \<Rightarrow> bool" where
  "is_upper c \<longleftrightarrow> CHR ''A'' \<le> c \<and> c \<le> CHR ''Z''"

definition is_lower :: "char \<Rightarrow> bool" where
  "is_lower c \<longleftrightarrow> CHR ''a'' \<le> c \<and> c \<le> CHR ''z''"

definition is_digit :: "char \<Rightarrow> bool" where
  "is_digit c \<longleftrightarrow> CHR ''0'' \<le> c \<and> c \<le> CHR ''9''"

definition lower_char :: "char \<Rightarrow> char" where
  "lower_char c = (if is_upper c then char_of (of_char c + 32 :: nat) else c)"

definition to_lower :: "string \<Rightarrow> string" where
  "to_lower s = map lower_char s"

text \<open>
  \<open>strings.TrimSpace\<close> strips the UTF-8 encodings of the Unicode white-space characters;
  \<open>strings.ToLower\<close> is modelled on ASCII letters, which is where the sources use it.
\<close>

definition space_seqs :: "string list" where
  "space_seqs = [[CHR 0x20], [CHR 0x09], [CHR 0x0A], [CHR 0x0B], [CHR 0x0C], [CHR 0x0D],
     [CHR 0xC2, CHR 0x85], [CHR 0xC2, CHR 0xA0], [CHR 0xE1, CHR 0x9A, CHR 0x80],
     [CHR 0xE2, CHR 0x80, CHR 0xA8], [CHR 0xE2, CHR 0x80, CHR 0xA9], [CHR 0xE2, CHR 0x80, CHR 0xAF],
     [CHR 0xE2, CHR 0x81, CHR 0x9F], [CHR 0xE3, CHR 0x80, CHR 0x80]]
     @ map (\<lambda>n. [CHR 0xE2, CHR 0x80, char_of (0x80 + n :: nat)]) [0..<11]"

fun trim_left_fuel :: "nat \<Rightarrow> string \<Rightarrow> string" where
  "trim_left_fuel 0 s = s"
| "trim_left_fuel (Suc k) s =
     (case find (has_prefix s) space_seqs of
        Some p \<Rightarrow> trim_left_fuel k (drop (length p) s)
      | None \<Rightarrow> s)"

fun trim_right_fuel :: "nat \<Rightarrow> string \<Rightarrow> string" where
  "trim_right_fuel 0 s = s"
| "trim_right_fuel (Suc k) s =
     (case find (has_suffix s) space_seqs of
        Some p \<Rightarrow> trim_right_fuel k (take (length s - length p) s)
      | None \<Rightarrow> s)"

definition trim_space :: "string \<Rightarrow> string" where
  "trim_space s = (let l = trim_left_fuel (length s) s in trim_right_fuel (length l) l)"

fun split_on :: "char \<Rightarrow> string \<Rightarrow> string list" where
  "split_on c [] = [[]]"
| "split_on c (x # xs) = (if x = c then [] # split_on c xs
     else case split_on c xs of [] \<Rightarrow> [[x]] | (w # ws) \<Rightarrow> (x # w) # ws)"

fun join :: "char \<Rightarrow> string list \<Rightarrow> string" where
  "join c [] = []"
| "join c [w] = w"
| "join c (w # v # ws) = w @ c # join c (v # ws)"

definition is_hex :: "char \<Rightarrow> bool" where
  "is_hex c \<longleftrightarrow> is_digit c \<or> (CHR ''a'' \<le> c \<and> c \<le> CHR ''f'') \<or> (CHR ''A'' \<le> c \<and> c \<le> CHR ''F'')"

definition hex_digit :: "nat \<Rightarrow> char" where
  "hex_digit d = char_of (if d < 10 then 48 + d else 87 + d)"

definition hex_encode :: "bytes \<Rightarrow> string" where
  "hex_encode bs = concat (map (\<lambda>b. [hex_digit (of_char b div 16), hex_digit (of_char b mod 16)]) bs)"

lemma has_suffix_iff: "has_suffix s p \<longleftrightarrow> (\<exists>q. s = q @ p)"
proof
  assume "has_suffix s p"
  then have "s = take (length s - length p) s @ p"
    by (metis append_take_drop_id has_suffix_def)
  then show "\<exists>q. s = q @ p" ..
qed (auto simp: has_suffix_def)

lemma has_prefix_iff: "has_prefix s p \<longleftrightarrow> (\<exists>q. s = p @ q)"
proof
  assume "has_prefix s p"
  then have "s = p @ drop (length p) s"
    by (metis append_take_drop_id has_prefix_def)
  then show "\<exists>q. s = p @ q" ..
qed (auto simp: has_prefix_def)

lemma has_suffix_refl [simp]: "has_suffix s s"
  by (simp add: has_suffix_def)

lemma has_suffix_trans: "has_suffix a b \<Longrightarrow> has_suffix b c \<Longrightarrow> has_suffix a c"
  by (auto simp: has_suffix_iff)

lemma split_on_no: "c \<notin> set s \<Longrightarrow> split_on c s = [s]"
  by (induction s) auto

lemma split_on_nonempty [simp]: "split_on c s \<noteq> []"
  by (induction s) (auto split: list.splits)

lemma split_on_append: "c \<notin> set w \<Longrightarrow> split_on c (w @ c # s) = w # split_on c s"
  by (induction w) (auto split: list.splits)

lemma split_on_join: "ws \<noteq> [] \<Longrightarrow> \<forall>w \<in> set ws. c \<notin> set w \<Longrightarrow> split_on c (join c ws) = ws"
  by (induction c ws rule: join.induct) (auto simp: split_on_no split_on_append)

lemma space_seqs_nonempty: "p \<in> set space_seqs \<Longrightarrow> p \<noteq> []"
  by (auto simp: space_seqs_def)

lemma trim_left_done:
  "length s \<le> k \<Longrightarrow> p \<in> set space_seqs \<Longrightarrow> \<not> has_prefix (trim_left_fuel k s) p"
proof (induction k s rule: trim_left_fuel.induct)
  case (1 s)
  then show ?case using space_seqs_nonempty[of p] by (simp add: has_prefix_def)
next
  case (2 k s)
  show ?case
  proof (cases "find (has_prefix s) space_seqs")
    case None
    then have "\<not> has_prefix s p" using 2 by (auto simp: find_None_iff)
    then show ?thesis using None by simp
  next
    case (Some q)
    then have "q \<in> set space_seqs" "has_prefix s q" by (auto simp: find_Some_iff)
    then have "0 < length q" using space_seqs_nonempty[of q] by simp
    then have "length s - length q \<le> k" using 2(2) by linarith
    then show ?thesis using 2 Some by simp
  qed
qed

lemma trim_right_done:
  "length s \<le> k \<Longrightarrow> p \<in> set space_seqs \<Longrightarrow> \<not> has_suffix (trim_right_fuel k s) p"
proof (induction k s rule: trim_right_fuel.induct)
  case (1 s)
  then show ?case using space_seqs_nonempty[of p] by (simp add: has_suffix_def)
next
  case (2 k s)
  show ?case
  proof (cases "find (has_suffix s) space_seqs")
    case None
    then have "\<not> has_suffix s p" using 2 by (auto simp: find_None_iff)
    then show ?thesis using None by simp
  next
    case (Some q)
    then have "q \<in> set space_seqs" "has_suffix s q" by (auto simp: find_Some_iff)
    then have "0 < length q" using space_seqs_nonempty[of q] by simp
    then have "length s - length q \<le> k" using 2(2) by linarith
    then show ?thesis using 2 Some by simp
  qed
qed

lemma trim_right_prefix: "\<exists>r. s = trim_right_fuel k s @ r"
proof (induction k s rule: trim_right_fuel.induct)
  case (2 k s)
  then show ?case
    by (cases "find (has_suffix s) space_seqs") (auto, metis append_assoc append_take_drop_id)
qed simp

lemma trim_left_stable:
  "\<forall>p \<in> set space_seqs. \<not> has_prefix s p \<Longrightarrow> trim_left_fuel k s = s"
  by (cases k) (auto simp: find_None_iff[THEN iffD2] split: option.split)

lemma trim_right_stable:
  "\<forall>p \<in> set space_seqs. \<not> has_suffix s p \<Longrightarrow> trim_right_fuel k s = s"
  by (cases k) (auto simp: find_None_iff[THEN iffD2] split: option.split)

lemma trim_space_idem [simp]: "trim_space (trim_space s) = trim_space s"
proof -
  let ?l = "trim_left_fuel (length s) s"
  have l: "\<forall>p \<in> set space_seqs. \<not> has_prefix ?l p" by (simp add: trim_left_done)
  obtain r where r: "?l = trim_right_fuel (length ?l) ?l @ r" using trim_right_prefix by blast
  have "\<forall>p \<in> set space_seqs. \<not> has_prefix (trim_space s) p"
    using l r by (auto simp: trim_space_def Let_def has_prefix_iff)
  moreover have "\<forall>p \<in> set space_seqs. \<not> has_suffix (trim_space s) p"
    by (simp add: trim_space_def Let_def trim_right_done)
  ultimately show ?thesis
    by (metis trim_left_stable trim_right_stable trim_space_def)
qed

section \<open>Decimal numerals\<close>

text \<open>\<open>strconv.Itoa\<close> and the digit loop of the decimal parsers.\<close>

definition digit_char :: "nat \<Rightarrow> char" where
  "digit_char d = char_of (48 + d)"

definition digit_val :: "char \<Rightarrow> nat" where
  "digit_val c = of_char c - 48"

fun dec :: "nat \<Rightarrow> string" where
  "dec n = (if n < 10 then [digit_char n] else dec (n div 10) @ [digit_char (n mod 10)])"

declare dec.simps [simp del]

definition undec :: "string \<Rightarrow> nat" where
  "undec s = foldl (\<lambda>a c. a * 10 + digit_val c) 0 s"

lemma less_10_cases: "(n::nat) < 10 \<Longrightarrow> n = 0 \<or> n = 1 \<or> n = 2 \<or> n = 3 \<or> n = 4 \<or> n = 5 \<or> n = 6 \<or> n = 7 \<or> n = 8 \<or> n = 9"
  by arith

lemma digit_char_val [simp]: "d < 10 \<Longrightarrow> digit_val (digit_char d) = d"
  by (simp add: digit_val_def digit_char_def)

lemma is_digit_iff: "is_digit c \<longleftrightarrow> 48 \<le> (of_char c :: nat) \<and> (of_char c :: nat) \<le> 57"
  by (simp add: is_digit_def less_eq_char_def)

lemma is_digit_digit_char [simp]: "d < 10 \<Longrightarrow> is_digit (digit_char d)"
  by (simp add: is_digit_iff digit_char_def)

lemma undec_snoc: "undec (s @ [c]) = undec s * 10 + digit_val c"
  by (simp add: undec_def)

lemma undec_dec [simp]: "undec (dec n) = n"
proof (induction n rule: dec.induct)
  case (1 n)
  then show ?case
    by (cases "n < 10") (simp_all add: dec.simps[of n] undec_snoc undec_def)
qed

lemma digits_dec: "list_all is_digit (dec n)"
proof (induction n rule: dec.induct)
  case (1 n)
  then show ?case by (cases "n < 10") (simp_all add: dec.simps[of n])
qed

lemma dec_nonempty [simp]: "dec n \<noteq> []"
  by (simp add: dec.simps[of n])

lemma dec_no_leading_zero: "hd (dec n) = CHR ''0'' \<Longrightarrow> n = 0"
proof (induction n rule: dec.induct)
  case (1 n)
  show ?case
  proof (cases "n < 10")
    case True
    then have "digit_char n = CHR ''0''" using 1 by (simp add: dec.simps[of n])
    then have "digit_val (digit_char n) = 0" by (simp add: digit_val_def)
    with True show ?thesis by simp
  next
    case False
    then have "hd (dec (n div 10)) = CHR ''0''" using 1 by (simp add: dec.simps[of n])
    then show ?thesis using 1(1) False by simp
  qed
qed

lemma dec_inj: "dec m = dec n \<longleftrightarrow> m = n"
  by (metis undec_dec)

section \<open>Fixed-width counters\<close>

lemma unat_of_nat_64: "n < 2 ^ 64 \<Longrightarrow> unat (of_nat n :: uint64) = n"
  by (simp add: unat_of_nat)

lemma unat_add_64: "unat a + unat b < 2 ^ 64 \<Longrightarrow> unat (a + b :: uint64) = unat a + unat b"
  using unat_add_lem[of a b] by simp

lemma unat_suc_64: "unat a + 1 < 2 ^ 64 \<Longrightarrow> unat (a + 1 :: uint64) = unat a + 1"
  using unat_add_lem[of a 1] by simp

lemma unat_lt_64: "unat (w :: uint64) < 2 ^ 64"
  using unsigned_less[of w] by simp

lemma unat_sub_le_64: "n < 2 ^ 64 \<Longrightarrow> of_nat n \<le> (c :: uint64) \<Longrightarrow> unat (c - of_nat n) + n = unat c"
  by (simp add: unat_sub unat_of_nat_64 word_le_nat_alt)

section \<open>Insertion sort by a strict comparison\<close>

text \<open>
  The routing code sorts with hand-written insertion sorts: \<open>for j > 0 && less(a[j], a[j-1])\<close>
  swap.  Every new element moves left past the elements it is strictly smaller than.
\<close>

fun insert_by :: "('a \<Rightarrow> 'a \<Rightarrow> bool) \<Rightarrow> 'a \<Rightarrow> 'a list \<Rightarrow> 'a list" where
  "insert_by lt x [] = [x]"
| "insert_by lt x (y # ys) = (if lt x y then x # y # ys else y # insert_by lt x ys)"

definition sort_by :: "('a \<Rightarrow> 'a \<Rightarrow> bool) \<Rightarrow> 'a list \<Rightarrow> 'a list" where
  "sort_by lt xs = foldl (\<lambda>acc x. insert_by lt x acc) [] xs"

lemma mset_insert_by [simp]: "mset (insert_by lt x xs) = add_mset x (mset xs)"
  by (induction xs) auto

lemma mset_sort_by [simp]: "mset (sort_by lt xs) = mset xs"
proof -
  have "mset (foldl (\<lambda>acc x. insert_by lt x acc) acc xs) = mset acc + mset xs" for acc
    by (induction xs arbitrary: acc) auto
  from this[of "[]"] show ?thesis by (simp add: sort_by_def)
qed

lemma set_sort_by [simp]: "set (sort_by lt xs) = set xs"
  by (metis mset_sort_by set_mset_mset)

lemma set_insert_by [simp]: "set (insert_by lt x xs) = insert x (set xs)"
  by (metis mset_insert_by set_mset_add_mset_insert set_mset_mset)

lemma length_sort_by [simp]: "length (sort_by lt xs) = length xs"
  by (metis mset_sort_by size_mset)

lemma sort_by_Nil_iff [simp]: "sort_by lt xs = [] \<longleftrightarrow> xs = []"
  by (metis length_0_conv length_sort_by)

lemma sorted_insert_by:
  assumes "sorted_wrt (\<lambda>a b. f a \<le> f b) xs" and "\<And>a b. lt a b \<longleftrightarrow> f a < (f b :: 'k :: linorder)"
  shows "sorted_wrt (\<lambda>a b. f a \<le> f b) (insert_by lt x xs)"
  using assms(1) by (induction xs) (auto simp: assms(2))

lemma sorted_sort_by:
  assumes "\<And>a b. lt a b \<longleftrightarrow> f a < (f b :: 'k :: linorder)"
  shows "sorted_wrt (\<lambda>a b. f a \<le> f b) (sort_by lt xs)"
proof -
  have "sorted_wrt (\<lambda>a b. f a \<le> f b) acc \<Longrightarrow>
      sorted_wrt (\<lambda>a b. f a \<le> f b) (foldl (\<lambda>acc x. insert_by lt x acc) acc xs)" for acc
  proof (induction xs arbitrary: acc)
    case (Cons x xs)
    have "sorted_wrt (\<lambda>a b. f a \<le> f b) (insert_by lt x acc)"
      using Cons.prems assms by (rule sorted_insert_by)
    then show ?case using Cons.IH by simp
  qed simp
  from this[of "[]"] show ?thesis by (simp add: sort_by_def)
qed

text \<open>Stability: elements with equal keys keep the order of the input.\<close>

lemma filter_insert_by:
  assumes "\<And>a b. lt a b \<longleftrightarrow> f a < (f b :: 'k :: linorder)"
    and "sorted_wrt (\<lambda>a b. f a \<le> f b) xs"
  shows "filter (\<lambda>y. f y = k) (insert_by lt x xs) = filter (\<lambda>y. f y = k) xs @ (if f x = k then [x] else [])"
  using assms(2)
proof (induction xs)
  case (Cons y ys)
  show ?case
  proof (cases "f x < f y")
    case True
    then have "\<forall>z \<in> set (y # ys). f x < f z" using Cons.prems by fastforce
    then have "f x = k \<Longrightarrow> filter (\<lambda>z. f z = k) (y # ys) = []" by (auto simp: filter_empty_conv)
    then show ?thesis using True by (auto simp: assms(1))
  next
    case False
    then show ?thesis using Cons by (auto simp: assms(1))
  qed
qed simp

lemma stable_sort_by:
  assumes "\<And>a b. lt a b \<longleftrightarrow> f a < (f b :: 'k :: linorder)"
  shows "filter (\<lambda>y. f y = k) (sort_by lt xs) = filter (\<lambda>y. f y = k) xs"
proof -
  have "sorted_wrt (\<lambda>a b. f a \<le> f b) acc \<Longrightarrow>
      filter (\<lambda>y. f y = k) (foldl (\<lambda>acc x. insert_by lt x acc) acc xs)
        = filter (\<lambda>y. f y = k) acc @ filter (\<lambda>y. f y = k) xs" for acc
  proof (induction xs arbitrary: acc)
    case (Cons x xs)
    have "sorted_wrt (\<lambda>a b. f a \<le> f b) (insert_by lt x acc)"
      using Cons.prems assms by (rule sorted_insert_by)
    then show ?case using Cons.IH filter_insert_by[of lt f acc k x, OF assms Cons.prems] by simp
  qed simp
  from this[of "[]"] show ?thesis by (simp add: sort_by_def)
qed

end
