(* ===== verification/Straw_Errors.thy ===== *)
theory Straw_Errors
  imports Straw_Prelude
begin

text \<open>
  The canonical error registry (\<open>internal/control/errors.go\<close>), the translation of pipeline and
  validation errors to HTTP (\<open>handler.go\<close>, \<open>request.go\<close>, \<open>protocol_error.go\<close>) and the set of
  codes an executor may report (\<open>lifecycle.go\<close>).  Control casts the wire enumeration of an
  \<open>ErrorFrame\<close> to its own \<open>ErrorCode\<close> by number, so both are the one type \<open>ErrorCode\<close> here;
  \<open>OtherCode\<close> carries the numbers outside the registry, 0 (\<open>UNSPECIFIED\<close>) among them.
\<close>

section \<open>Error codes\<close>

datatype ErrorCode =
    AuthFailure | InvalidRequest | DestinationDenied | HeaderInjectionFailed
  | UnsupportedIngressMode | RouteNoMatch | RouteUnavailable | StickySessionUnavailable
  | ExecutorCapacityExhausted | AssignmentTimeout | WorkerDisconnected | TransportUnavailable
  | ProtocolError | TimeoutExceeded | UnsupportedFingerprint | UpstreamDNSFailure
  | UpstreamTLSFailure | UpstreamConnectionRefused | UpstreamConnectTimeout | UpstreamReset
  | UpstreamProxyFailure | StreamUploadAborted | StreamDownloadAborted | BodyRefUnavailable
  | BodyTooLarge | ControlInternalError | ExecutorInternalError | Cancelled
  | OtherCode int

fun error_code_number :: "ErrorCode \<Rightarrow> int" where
  "error_code_number AuthFailure = 1"
| "error_code_number InvalidRequest = 6"
| "error_code_number DestinationDenied = 7"
| "error_code_number HeaderInjectionFailed = 8"
| "error_code_number UnsupportedIngressMode = 10"
| "error_code_number RouteNoMatch = 100"
| "error_code_number RouteUnavailable = 101"
| "error_code_number StickySessionUnavailable = 102"
| "error_code_number ExecutorCapacityExhausted = 103"
| "error_code_number AssignmentTimeout = 200"
| "error_code_number WorkerDisconnected = 201"
| "error_code_number TransportUnavailable = 202"
| "error_code_number ProtocolError = 203"
| "error_code_number TimeoutExceeded = 204"
| "error_code_number UnsupportedFingerprint = 205"
| "error_code_number UpstreamDNSFailure = 300"
| "error_code_number UpstreamTLSFailure = 301"
| "error_code_number UpstreamConnectionRefused = 302"
| "error_code_number UpstreamConnectTimeout = 303"
| "error_code_number UpstreamReset = 304"
| "error_code_number UpstreamProxyFailure = 305"
| "error_code_number StreamUploadAborted = 400"
| "error_code_number StreamDownloadAborted = 401"
| "error_code_number BodyRefUnavailable = 402"
| "error_code_number BodyTooLarge = 403"
| "error_code_number ControlInternalError = 500"
| "error_code_number ExecutorInternalError = 501"
| "error_code_number Cancelled = 502"
| "error_code_number (OtherCode n) = n"

record ErrorEntry =
  ee_Category :: string
  ee_Code :: string
  ee_Message :: string
  ee_Retryable :: bool
  ee_HTTPStatus :: int

definition entry :: "string \<Rightarrow> string \<Rightarrow> string \<Rightarrow> bool \<Rightarrow> int \<Rightarrow> ErrorEntry" where
  "entry cat code msg retryable status =
     \<lparr>ee_Category = cat, ee_Code = code, ee_Message = msg, ee_Retryable = retryable,
      ee_HTTPStatus = status\<rparr>"

definition ErrorRegistry :: "(ErrorCode \<times> ErrorEntry) list" where
  "ErrorRegistry = [
    (AuthFailure, entry ''client'' ''auth_failure'' ''Invalid deployment token'' False 401),
    (InvalidRequest, entry ''client'' ''invalid_request''
       ''Malformed request or missing business fields'' False 400),
    (DestinationDenied, entry ''client'' ''destination_denied'' ''Deny rule matched'' False 403),
    (HeaderInjectionFailed, entry ''client'' ''header_injection_failed''
       ''Resolved injection invalid'' False 400),
    (UnsupportedIngressMode, entry ''client'' ''unsupported_ingress_mode''
       ''Unsupported mode for endpoint or route'' False 400),
    (RouteNoMatch, entry ''routing'' ''route_no_match'' ''No rule matched'' False 404),
    (RouteUnavailable, entry ''routing'' ''route_unavailable''
       ''Rule matched but no eligible executor'' True 503),
    (StickySessionUnavailable, entry ''routing'' ''sticky_session_unavailable''
       ''Sticky target unavailable and fallback not allowed'' False 503),
    (ExecutorCapacityExhausted, entry ''routing'' ''executor_capacity_exhausted''
       ''All eligible executors at capacity'' True 503),
    (AssignmentTimeout, entry ''transport'' ''assignment_timeout''
       ''No AssignAck before timeout'' True 504),
    (WorkerDisconnected, entry ''transport'' ''worker_disconnected''
       ''Worker lost mid-request'' True 502),
    (TransportUnavailable, entry ''transport'' ''transport_unavailable''
       ''NATS unavailable'' True 504),
    (ProtocolError, entry ''transport'' ''protocol_error'' ''Invalid frame or sequence'' False 502),
    (TimeoutExceeded, entry ''transport'' ''timeout_exceeded''
       ''Request deadline exceeded'' False 504),
    (UnsupportedFingerprint, entry ''transport'' ''unsupported_fingerprint''
       ''Executor cannot apply requested preset'' False 400),
    (UpstreamDNSFailure, entry ''egress'' ''upstream_dns_failure''
       ''DNS resolution failed for target host'' True 502),
    (UpstreamTLSFailure, entry ''egress'' ''upstream_tls_failure''
       ''TLS handshake or certificate failure'' True 502),
    (UpstreamConnectionRefused, entry ''egress'' ''upstream_connection_refused''
       ''Connection refused'' True 502),
    (UpstreamConnectTimeout, entry ''egress'' ''upstream_connect_timeout''
       ''Could not connect before timeout'' True 504),
    (UpstreamReset, entry ''egress'' ''upstream_reset''
       ''Upstream closed or reset before complete response'' True 502),
    (UpstreamProxyFailure, entry ''egress'' ''upstream_proxy_failure''
       ''Configured upstream proxy failed'' True 502),
    (StreamUploadAborted, entry ''streaming'' ''stream_upload_aborted''
       ''Upload interrupted'' False 502),
    (StreamDownloadAborted, entry ''streaming'' ''stream_download_aborted''
       ''Download interrupted'' False 502),
    (BodyRefUnavailable, entry ''streaming'' ''body_ref_unavailable''
       ''Receipt body is unavailable or not eligible'' False 409),
    (BodyTooLarge, entry ''streaming'' ''body_too_large''
       ''Request or response exceeds configured limit'' False 413),
    (ControlInternalError, entry ''control'' ''control_internal_error''
       ''Unexpected internal failure'' False 500),
    (ExecutorInternalError, entry ''egress'' ''executor_internal_error''
       ''Unexpected executor failure'' False 502),
    (Cancelled, entry ''client'' ''cancelled'' ''Request cancelled'' False 499)]"

text \<open>
  \<open>ErrorCodeFromName\<close> ranges over a Go map, whose iteration order is unspecified: the order is
  an argument of the model.
\<close>

fun error_code_from_name :: "(ErrorCode \<times> ErrorEntry) list \<Rightarrow> string \<Rightarrow> ErrorCode" where
  "error_code_from_name [] name = OtherCode 0"
| "error_code_from_name ((code, e) # rest) name =
     (if ee_Code e = name then code else error_code_from_name rest name)"

section \<open>Responses\<close>

record ErrorResponse =
  rs_Category :: string
  rs_Code :: string
  rs_Message :: string
  rs_Retryable :: bool
  rs_RequestID :: string
  rs_TimeoutType :: string
  rs_RetryAfterMs :: int
  rs_UpstreamStatus :: "uint32 option"
  rs_Details :: "(string \<times> string) list"

record PipelineError =
  pe_Code :: ErrorCode
  pe_Message :: string
  pe_TimeoutType :: string
  pe_RetryAfterMs :: int
  pe_UpstreamStatus :: "uint32 option"
  pe_Details :: "(string \<times> string) list"

definition pipeline_error :: "ErrorCode \<Rightarrow> PipelineError" where
  "pipeline_error c = \<lparr>pe_Code = c, pe_Message = [], pe_TimeoutType = [], pe_RetryAfterMs = 0,
     pe_UpstreamStatus = None, pe_Details = []\<rparr>"

definition ErrorResponseFromCode :: "ErrorCode \<Rightarrow> string \<Rightarrow> (string \<times> string) list \<Rightarrow> ErrorResponse" where
  "ErrorResponseFromCode code requestID extraDetails =
     (let e = (case map_of ErrorRegistry code of
                 Some e \<Rightarrow> e
               | None \<Rightarrow> entry ''control'' ''control_internal_error'' ''Unknown error code'' False 500)
      in \<lparr>rs_Category = ee_Category e, rs_Code = ee_Code e, rs_Message = ee_Message e,
          rs_Retryable = ee_Retryable e, rs_RequestID = requestID, rs_TimeoutType = [],
          rs_RetryAfterMs = 0, rs_UpstreamStatus = None,
          rs_Details = (if extraDetails \<noteq> [] then extraDetails else [])\<rparr>)"

definition ErrorResponseFromCodeWithRetry ::
    "ErrorCode \<Rightarrow> string \<Rightarrow> (string \<times> string) list \<Rightarrow> int \<Rightarrow> ErrorResponse" where
  "ErrorResponseFromCodeWithRetry code requestID extraDetails retryMs =
     (let resp = ErrorResponseFromCode code requestID extraDetails
      in if retryMs > 0 then resp\<lparr>rs_RetryAfterMs := retryMs\<rparr> else resp)"

definition pipelineErrorResponse :: "string \<Rightarrow> PipelineError option \<Rightarrow> ErrorResponse" where
  "pipelineErrorResponse requestID perr =
     (let err = (case perr of None \<Rightarrow> pipeline_error ControlInternalError | Some e \<Rightarrow> e);
          r0 = ErrorResponseFromCodeWithRetry (pe_Code err) requestID (pe_Details err) (pe_RetryAfterMs err);
          r1 = (if pe_Message err \<noteq> [] then r0\<lparr>rs_Message := pe_Message err\<rparr> else r0);
          r2 = (if pe_TimeoutType err \<noteq> [] then r1\<lparr>rs_TimeoutType := pe_TimeoutType err\<rparr> else r1)
      in case pe_UpstreamStatus err of
           Some st \<Rightarrow> r2\<lparr>rs_UpstreamStatus := Some st\<rparr>
         | None \<Rightarrow> r2)"

definition pipelineHTTPError :: "string \<Rightarrow> PipelineError option \<Rightarrow> int \<times> ErrorResponse" where
  "pipelineHTTPError requestID perr =
     (let response = pipelineErrorResponse requestID perr;
          err = (case perr of None \<Rightarrow> pipeline_error ControlInternalError | Some e \<Rightarrow> e);
          status = (case map_of ErrorRegistry (pe_Code err) of Some e \<Rightarrow> ee_HTTPStatus e | None \<Rightarrow> 500)
      in (status, response))"

section \<open>Validation errors\<close>

record ValidationError =
  ve_Code :: string
  ve_Message :: string
  ve_Details :: "(string \<times> string) list"

definition HTTPStatus :: "ValidationError \<Rightarrow> int" where
  "HTTPStatus e =
     (if ve_Code e = ''invalid_request'' then 400
      else if ve_Code e = ''body_too_large'' then 413
      else if ve_Code e = ''unsupported_ingress_mode'' then 400
      else if ve_Code e = ''auth_failure'' then 401
      else if ve_Code e = ''insufficient_permissions'' then 403
      else if ve_Code e = ''destination_denied'' then 403
      else 400)"

definition validationPipelineError ::
    "(ErrorCode \<times> ErrorEntry) list \<Rightarrow> ValidationError \<Rightarrow> PipelineError" where
  "validationPipelineError registry verr =
     (let code = error_code_from_name registry (ve_Code verr);
          code' = (if error_code_number code = 0 then InvalidRequest else code)
      in (pipeline_error code')\<lparr>pe_Message := ve_Message verr, pe_Details := ve_Details verr\<rparr>)"

section \<open>Codes an executor may send\<close>

definition executorEmittableCodes :: "ErrorCode list" where
  "executorEmittableCodes = [DestinationDenied, TimeoutExceeded, UnsupportedFingerprint,
     UpstreamDNSFailure, UpstreamTLSFailure, UpstreamConnectionRefused, UpstreamConnectTimeout,
     UpstreamReset, UpstreamProxyFailure, StreamUploadAborted, StreamDownloadAborted,
     BodyRefUnavailable, BodyTooLarge, ExecutorInternalError]"

definition ValidateExecutorError :: "ErrorCode \<Rightarrow> ErrorCode \<times> bool" where
  "ValidateExecutorError code =
     (if code \<in> set executorEmittableCodes then (code, False) else (ExecutorInternalError, True))"

section \<open>Errors of the routing and assignment stages\<close>

datatype AssignAckCode = ACK_ACCEPTED | ACK_REJECTED_CAPACITY | ACK_REJECTED_OTHER nat

definition assignRejectError :: "AssignAckCode \<Rightarrow> PipelineError" where
  "assignRejectError code =
     (if code = ACK_REJECTED_CAPACITY then pipeline_error ExecutorCapacityExhausted
      else pipeline_error RouteUnavailable)"

definition canFallbackBeforeRequestStart :: "ErrorCode \<Rightarrow> bool" where
  "canFallbackBeforeRequestStart code \<longleftrightarrow>
     code = AssignmentTimeout \<or> code = ExecutorCapacityExhausted \<or> code = RouteUnavailable"

definition retryAfterMs :: "uint64 \<Rightarrow> int" where
  "retryAfterMs v = (if uint v > 2 ^ 63 - 1 then 2 ^ 63 - 1 else uint v)"

section \<open>Lemmas\<close>

lemma ErrorRegistry_names_distinct: "distinct (map (ee_Code \<circ> snd) ErrorRegistry)"
  by (simp add: ErrorRegistry_def entry_def)

lemma ErrorRegistry_keys_distinct: "distinct (map fst ErrorRegistry)"
  by (simp add: ErrorRegistry_def)

lemma error_code_from_name_in:
  assumes "distinct (map (ee_Code \<circ> snd) ks)" and "(c, e) \<in> set ks"
  shows "error_code_from_name ks (ee_Code e) = c"
  using assms by (induction ks) (force split: prod.splits)+

lemma error_code_from_name_out:
  "name \<notin> (ee_Code \<circ> snd) ` set ks \<Longrightarrow> error_code_from_name ks name = OtherCode 0"
  by (induction ks name rule: error_code_from_name.induct) auto

lemma error_code_from_name_cases:
  "(\<exists>e. (error_code_from_name ks name, e) \<in> set ks \<and> ee_Code e = name)
   \<or> (error_code_from_name ks name = OtherCode 0 \<and> name \<notin> (ee_Code \<circ> snd) ` set ks)"
  by (induction ks name rule: error_code_from_name.induct) auto

lemma error_code_from_name_perm:
  assumes "mset ks = mset ErrorRegistry"
  shows "error_code_from_name ks name = error_code_from_name ErrorRegistry name"
proof -
  have set: "set ks = set ErrorRegistry" using assms by (metis set_mset_mset)
  have "distinct (map (ee_Code \<circ> snd) ks)"
    using ErrorRegistry_names_distinct assms
    by (metis mset_map distinct_count_atmost_1 set_mset_mset set)
  then show ?thesis
    using error_code_from_name_cases[of ErrorRegistry name] error_code_from_name_in[of ks]
      error_code_from_name_out[of name ks] by (auto simp: set)
qed

lemma registry_lookup: "(c, e) \<in> set ErrorRegistry \<Longrightarrow> map_of ErrorRegistry c = Some e"
  by (rule map_of_is_SomeI[OF ErrorRegistry_keys_distinct])

lemma executorEmittable_in_registry:
  "c \<in> set executorEmittableCodes \<Longrightarrow> map_of ErrorRegistry c \<noteq> None"
  unfolding executorEmittableCodes_def ErrorRegistry_def by auto

lemma retryAfterMs_range: "0 \<le> retryAfterMs v \<and> retryAfterMs v < 2 ^ 63"
  by (auto simp: retryAfterMs_def)

lemma registry_numbers_pos: "(c, e) \<in> set ErrorRegistry \<Longrightarrow> error_code_number c \<noteq> 0"
  by (auto simp: ErrorRegistry_def)

lemma response_of_registry:
  "(c, e) \<in> set ErrorRegistry \<Longrightarrow> fst (pipelineHTTPError rid (Some ((pipeline_error c)\<lparr>pe_Message := m, pe_Details := d\<rparr>))) = ee_HTTPStatus e
    \<and> rs_Code (snd (pipelineHTTPError rid (Some ((pipeline_error c)\<lparr>pe_Message := m, pe_Details := d\<rparr>)))) = ee_Code e"
  by (simp add: pipelineHTTPError_def pipelineErrorResponse_def ErrorResponseFromCodeWithRetry_def
      ErrorResponseFromCode_def registry_lookup Let_def pipeline_error_def)



end
