(* ===== verification/Net_IP.thy ===== *)
theory Net_IP
  imports Straw_Prelude
begin

unbundle bit_operations_syntax

text \<open>
  Go's \<open>net/netip\<close> as far as the destination policies use it: addresses with an optional IPv6 zone,
  prefixes, the address-class predicates, and the textual forms.  The predicates see through
  IPv4-mapped IPv6 addresses, as they do since Go 1.22.  Also \<open>net.IP.To4\<close>, through which resolver
  answers become addresses.
\<close>

section \<open>Addresses\<close>

datatype Addr = V4 "32 word" | V6 "128 word" string

definition bit_len :: "Addr \<Rightarrow> nat" where
  "bit_len a = (case a of V4 _ \<Rightarrow> 32 | V6 _ _ \<Rightarrow> 128)"

definition has_zone :: "Addr \<Rightarrow> bool" where
  "has_zone a = (case a of V4 _ \<Rightarrow> False | V6 _ z \<Rightarrow> z \<noteq> [])"

definition Is4In6 :: "Addr \<Rightarrow> bool" where
  "Is4In6 a = (case a of V4 _ \<Rightarrow> False | V6 w _ \<Rightarrow> drop_bit 32 w = 0xffff)"

definition Unmap :: "Addr \<Rightarrow> Addr" where
  "Unmap a = (case a of V4 w \<Rightarrow> V4 w | V6 w z \<Rightarrow> if Is4In6 a then V4 (ucast w) else V6 w z)"

definition IsLoopback :: "Addr \<Rightarrow> bool" where
  "IsLoopback a = (case Unmap a of V4 w \<Rightarrow> drop_bit 24 w = 127 | V6 w _ \<Rightarrow> w = 1)"

definition IsLinkLocalUnicast :: "Addr \<Rightarrow> bool" where
  "IsLinkLocalUnicast a =
     (case Unmap a of V4 w \<Rightarrow> drop_bit 16 w = 0xa9fe | V6 w _ \<Rightarrow> drop_bit 118 w = 0x3fa)"

definition IsMulticast :: "Addr \<Rightarrow> bool" where
  "IsMulticast a = (case Unmap a of V4 w \<Rightarrow> drop_bit 28 w = 0xe | V6 w _ \<Rightarrow> drop_bit 120 w = 0xff)"

definition IsPrivate :: "Addr \<Rightarrow> bool" where
  "IsPrivate a = (case Unmap a of
     V4 w \<Rightarrow> drop_bit 24 w = 10 \<or> drop_bit 20 w = 0xac1 \<or> drop_bit 16 w = 0xc0a8
   | V6 w _ \<Rightarrow> drop_bit 121 w = 0x7e)"

section \<open>Prefixes\<close>

datatype Prefix = Prefix (prefix_addr: Addr) (prefix_bits: nat)

definition prefix_contains :: "Prefix \<Rightarrow> Addr \<Rightarrow> bool" where
  "prefix_contains p ip =
     (if has_zone ip then False
      else case (prefix_addr p, ip) of
        (V4 w, V4 x) \<Rightarrow> drop_bit (32 - prefix_bits p) (x XOR w) = 0
      | (V6 w _, V6 x _) \<Rightarrow> drop_bit (128 - prefix_bits p) (x XOR w) = 0
      | _ \<Rightarrow> False)"

definition prefix_masked :: "Prefix \<Rightarrow> Prefix" where
  "prefix_masked p = (case prefix_addr p of
     V4 w \<Rightarrow> Prefix (V4 (push_bit (32 - prefix_bits p) (drop_bit (32 - prefix_bits p) w))) (prefix_bits p)
   | V6 w z \<Rightarrow> Prefix (V6 (push_bit (128 - prefix_bits p) (drop_bit (128 - prefix_bits p) w)) []) (prefix_bits p))"

section \<open>Text\<close>

definition v4_of_bytes :: "nat \<Rightarrow> nat \<Rightarrow> nat \<Rightarrow> nat \<Rightarrow> 32 word" where
  "v4_of_bytes a b c d = of_nat (((a * 256 + b) * 256 + c) * 256 + d)"

definition ip4 :: "nat \<Rightarrow> nat \<Rightarrow> nat \<Rightarrow> nat \<Rightarrow> Addr" where
  "ip4 a b c d = V4 (v4_of_bytes a b c d)"

definition ipv4_octet :: "string \<Rightarrow> nat option" where
  "ipv4_octet s =
     (if s = [] \<or> \<not> list_all is_digit s then None
      else if length s > 1 \<and> hd s = CHR ''0'' then None
      else if undec s > 255 then None
      else Some (undec s))"

definition parse_ipv4 :: "string \<Rightarrow> (nat \<times> nat \<times> nat \<times> nat) option" where
  "parse_ipv4 s = (case split_on CHR ''.'' s of
     [a, b, c, d] \<Rightarrow>
       do { a' \<leftarrow> ipv4_octet a; b' \<leftarrow> ipv4_octet b; c' \<leftarrow> ipv4_octet c; d' \<leftarrow> ipv4_octet d;
            Some (a', b', c', d') }
   | _ \<Rightarrow> None)"

definition hex_val :: "char \<Rightarrow> nat" where
  "hex_val c = (if is_digit c then of_char c - 48
     else if CHR ''a'' \<le> c then of_char c - 87 else of_char c - 55)"

definition unhex :: "string \<Rightarrow> nat" where
  "unhex s = foldl (\<lambda>a c. a * 16 + hex_val c) 0 s"

text \<open>The group loop of \<open>parseIPv6\<close>; the first argument counts the groups still possible.\<close>

fun parse6_groups :: "nat \<Rightarrow> string \<Rightarrow> nat list \<Rightarrow> nat option \<Rightarrow> (nat list \<times> nat option \<times> string) option" where
  "parse6_groups 0 s gs e = Some (gs, e, s)"
| "parse6_groups (Suc k) s gs e =
     (let ds = takeWhile is_hex s; rest = dropWhile is_hex s; gs' = gs @ [unhex ds] in
      if ds = [] \<or> length ds > 4 then None
      else case rest of
        [] \<Rightarrow> Some (gs', e, [])
      | c # r \<Rightarrow>
          if c = CHR ''.'' then
            (if (e = None \<and> length gs \<noteq> 6) \<or> length gs > 6 then None
             else map_option (\<lambda>(a, b, x, y). (gs @ [a * 256 + b, x * 256 + y], e, [])) (parse_ipv4 s))
          else if c \<noteq> CHR '':'' \<or> r = [] then None
          else if hd r = CHR '':'' then
            (if e \<noteq> None then None
             else if tl r = [] then Some (gs', Some (length gs'), [])
             else parse6_groups k (tl r) gs' (Some (length gs')))
          else parse6_groups k r gs' e)"

definition v6_of_groups :: "nat list \<Rightarrow> 128 word" where
  "v6_of_groups gs = foldl (\<lambda>a g. a * 65536 + of_nat g) 0 gs"

definition parse_ipv6 :: "string \<Rightarrow> Addr option" where
  "parse_ipv6 input =
     (let s = takeWhile (\<lambda>c. c \<noteq> CHR ''%'') input; tail = dropWhile (\<lambda>c. c \<noteq> CHR ''%'') input;
          zone = tl tail
      in if tail \<noteq> [] \<and> zone = [] then None
         else if s = ''::'' then Some (V6 0 zone)
         else
           (case (if take 2 s = ''::'' then parse6_groups 8 (drop 2 s) [] (Some 0)
                  else parse6_groups 8 s [] None) of
              None \<Rightarrow> None
            | Some (gs, e, rest) \<Rightarrow>
                if rest \<noteq> [] then None
                else if length gs < 8 then
                  (case e of
                     None \<Rightarrow> None
                   | Some p \<Rightarrow> Some (V6 (v6_of_groups (take p gs @ replicate (8 - length gs) 0 @ drop p gs)) zone))
                else if e \<noteq> None then None
                else Some (V6 (v6_of_groups gs) zone)))"

definition ParseAddr :: "string \<Rightarrow> Addr option" where
  "ParseAddr s = (case dropWhile (\<lambda>c. c \<noteq> CHR ''.'' \<and> c \<noteq> CHR '':'' \<and> c \<noteq> CHR ''%'') s of
     [] \<Rightarrow> None
   | c # _ \<Rightarrow> if c = CHR ''.'' then map_option (\<lambda>(a, b, x, y). ip4 a b x y) (parse_ipv4 s)
              else if c = CHR '':'' then parse_ipv6 s else None)"

definition octets :: "32 word \<Rightarrow> nat list" where
  "octets w = map (\<lambda>i. unat (drop_bit (8 * (3 - i)) w) mod 256) [0..<4]"

definition hextets :: "128 word \<Rightarrow> nat list" where
  "hextets w = map (\<lambda>i. unat (drop_bit (16 * (7 - i)) w) mod 65536) [0..<8]"

fun hex :: "nat \<Rightarrow> string" where
  "hex n = (if n < 16 then [hex_digit n] else hex (n div 16) @ [hex_digit (n mod 16)])"

declare hex.simps [simp del]

definition v4_string :: "32 word \<Rightarrow> string" where
  "v4_string w = join CHR ''.'' (map dec (octets w))"

text \<open>Longest run of at least two zero groups, leftmost on ties, as \<open>appendTo6\<close> looks for it.\<close>

definition zero_run :: "nat list \<Rightarrow> nat \<times> nat" where
  "zero_run gs = foldl (\<lambda>(s, e) i.
      let j = i + length (takeWhile (\<lambda>g. g = 0) (drop i gs))
      in if j - i \<ge> 2 \<and> j - i > e - s then (i, j) else (s, e)) (255, 255) [0..<8]"

definition v6_string :: "128 word \<Rightarrow> string" where
  "v6_string w = (let gs = hextets w; (s, e) = zero_run gs in
     if s = 255 then join CHR '':'' (map hex gs)
     else join CHR '':'' (map hex (take s gs)) @ ''::'' @ join CHR '':'' (map hex (drop e gs)))"

definition addr_string :: "Addr \<Rightarrow> string" where
  "addr_string a = (case a of
     V4 w \<Rightarrow> v4_string w
   | V6 w z \<Rightarrow> (if Is4In6 a then ''::ffff:'' @ v4_string (ucast w) else v6_string w)
               @ (if z = [] then [] else CHR ''%'' # z))"

definition prefix_string :: "Prefix \<Rightarrow> string" where
  "prefix_string p = addr_string (prefix_addr p) @ CHR ''/'' # dec (prefix_bits p)"

definition ParsePrefix :: "string \<Rightarrow> Prefix option" where
  "ParsePrefix s =
     (let r = dropWhile (\<lambda>c. c \<noteq> CHR ''/'') (rev s); bs = rev (takeWhile (\<lambda>c. c \<noteq> CHR ''/'') (rev s)) in
      if r = [] then None
      else case ParseAddr (rev (tl r)) of
        None \<Rightarrow> None
      | Some ip \<Rightarrow>
          if has_zone ip then None
          else if length bs > 1 \<and> \<not> (CHR ''1'' \<le> hd bs \<and> hd bs \<le> CHR ''9'') then None
          else if bs = [] \<or> \<not> list_all is_digit bs then None
          else if undec bs > bit_len ip then None
          else Some (Prefix ip (undec bs)))"

section \<open>Resolver answers\<close>

text \<open>A \<open>net.IP\<close> is a byte slice of 4 or 16 bytes; \<open>To4\<close> also accepts IPv4-mapped 16-byte forms.\<close>

definition be_nat :: "bytes \<Rightarrow> nat" where
  "be_nat bs = foldl (\<lambda>a c. a * 256 + of_char c) 0 bs"

definition To4 :: "bytes \<Rightarrow> bytes option" where
  "To4 ip = (if length ip = 4 then Some ip
     else if length ip = 16 \<and> take 10 ip = replicate 10 CHR 0x00 \<and> drop 10 (take 12 ip) = [CHR 0xFF, CHR 0xFF]
     then Some (drop 12 ip) else None)"

definition AddrFromSlice :: "bytes \<Rightarrow> Addr option" where
  "AddrFromSlice ip = (if length ip = 4 then Some (V4 (of_nat (be_nat ip)))
     else if length ip = 16 then Some (V6 (of_nat (be_nat ip)) []) else None)"

lemma unat_drop_bit: "unat (drop_bit k w) = unat (w :: 'a :: len word) div 2 ^ k"
proof -
  have "unat (drop_bit k w) = drop_bit k (unat w)"
    by (subst unsigned_drop_bit_eq, subst take_bit_nat_eq_self) simp_all
  then show ?thesis by (simp add: drop_bit_eq_div)
qed

lemma recombine_octets:
  fixes n :: nat
  assumes "n < 4294967296"
  shows "((n div 16777216 mod 256 * 256 + n div 65536 mod 256) * 256 + n div 256 mod 256) * 256 + n mod 256 = n"
proof -
  have e: "n div 65536 div 256 = n div 16777216" "n div 256 div 256 = n div 65536"
    using div_mult2_eq[of n 65536 256] div_mult2_eq[of n 256 256] by simp_all
  have "n div 16777216 < 256" using assms by (intro less_mult_imp_div_less) simp
  then have "n div 16777216 mod 256 * 256 + n div 65536 mod 256 = n div 65536"
    using div_mult_mod_eq[of "n div 65536" 256] e by simp
  moreover have "n div 65536 * 256 + n div 256 mod 256 = n div 256"
    using div_mult_mod_eq[of "n div 256" 256] e by simp
  moreover have "n div 256 * 256 + n mod 256 = n" by (rule div_mult_mod_eq)
  ultimately show ?thesis by simp
qed

lemma dec_no_char: "\<not> is_digit c \<Longrightarrow> c \<notin> set (dec n)"
  using digits_dec[of n] by (auto simp: list_all_iff)

lemma ipv4_octet_dec: "n < 256 \<Longrightarrow> ipv4_octet (dec n) = Some n"
proof -
  assume n: "n < 256"
  have "length (dec n) > 1 \<Longrightarrow> hd (dec n) \<noteq> CHR ''0''"
    using dec_no_leading_zero[of n] by (cases "n = 0") (auto simp: dec.simps[of 0])
  with n show ?thesis by (auto simp: ipv4_octet_def digits_dec)
qed

lemma v4_of_octets:
  obtains a b c d where "octets w = [a, b, c, d]" "a < 256" "b < 256" "c < 256" "d < 256" "v4_of_bytes a b c d = w"
proof -
  let ?n = "unat w"
  have lt: "?n < 4294967296" using unsigned_less[of w] by simp
  have oc: "octets w = [?n div 16777216 mod 256, ?n div 65536 mod 256, ?n div 256 mod 256, ?n mod 256]"
    by (simp add: octets_def unat_drop_bit upt_conv_Cons)
  have "v4_of_bytes (?n div 16777216 mod 256) (?n div 65536 mod 256) (?n div 256 mod 256) (?n mod 256) = w"
    unfolding v4_of_bytes_def recombine_octets[OF lt] by simp
  with oc show ?thesis by (intro that) simp_all
qed

lemma parse_ipv4_string:
  obtains a b c d where "parse_ipv4 (v4_string w) = Some (a, b, c, d)" "v4_of_bytes a b c d = w"
proof -
  obtain a b c d where o: "octets w = [a, b, c, d]" "a < 256" "b < 256" "c < 256" "d < 256" "v4_of_bytes a b c d = w"
    by (rule v4_of_octets)
  have nd: "\<not> is_digit CHR ''.''" by (simp add: is_digit_def less_eq_char_def)
  have "split_on CHR ''.'' (v4_string w) = map dec [a, b, c, d]"
    unfolding v4_string_def o(1) by (rule split_on_join) (auto simp: dec_no_char[OF nd])
  then have "parse_ipv4 (v4_string w) = Some (a, b, c, d)"
    using o by (simp add: parse_ipv4_def ipv4_octet_dec)
  then show ?thesis using o(6) by (rule that)
qed

lemma dropWhile_digits: "list_all is_digit s \<Longrightarrow> dropWhile (\<lambda>c. c \<noteq> CHR ''.'' \<and> c \<noteq> CHR '':'' \<and> c \<noteq> CHR ''%'') (s @ t)
    = dropWhile (\<lambda>c. c \<noteq> CHR ''.'' \<and> c \<noteq> CHR '':'' \<and> c \<noteq> CHR ''%'') t"
  by (induction s) (auto simp: is_digit_def less_eq_char_def)

lemma v4_string_shape:
  obtains r where "v4_string w = dec (unat w div 16777216 mod 256) @ CHR ''.'' # r"
    and "CHR ''/'' \<notin> set (v4_string w)"
proof -
  have nd: "\<not> is_digit CHR ''/''" by (simp add: is_digit_def less_eq_char_def)
  show ?thesis
    by (rule that) (auto simp: v4_string_def octets_def unat_drop_bit upt_conv_Cons dec_no_char[OF nd])
qed

lemma ParseAddr_v4_string [simp]: "ParseAddr (v4_string w) = Some (V4 w)"
proof -
  obtain r where r: "v4_string w = dec (unat w div 16777216 mod 256) @ CHR ''.'' # r"
    by (rule v4_string_shape)
  obtain a b c d where p: "parse_ipv4 (v4_string w) = Some (a, b, c, d)" "v4_of_bytes a b c d = w"
    by (rule parse_ipv4_string)
  have "dropWhile (\<lambda>c. c \<noteq> CHR ''.'' \<and> c \<noteq> CHR '':'' \<and> c \<noteq> CHR ''%'') (v4_string w) = CHR ''.'' # r"
    unfolding r by (simp add: dropWhile_digits digits_dec)
  then show ?thesis using p by (simp add: ParseAddr_def ip4_def)
qed

lemma digit_nonzero:
  assumes "is_digit c" and "c \<noteq> CHR ''0''"
  shows "CHR ''1'' \<le> c \<and> c \<le> CHR ''9''"
proof -
  have "(of_char c :: nat) \<noteq> of_char (CHR ''0'')" using assms(2) by (simp only: of_char_eq_iff not_False_eq_True)
  then show ?thesis using assms(1) by (auto simp: is_digit_iff less_eq_char_def)
qed

lemma ParsePrefix_v4_string:
  assumes "n \<le> 32"
  shows "ParsePrefix (prefix_string (Prefix (V4 w) n)) = Some (Prefix (V4 w) n)"
proof -
  have nd: "CHR ''/'' \<notin> set (dec n)" by (rule dec_no_char) (simp add: is_digit_def less_eq_char_def)
  have rev: "rev (prefix_string (Prefix (V4 w) n)) = rev (dec n) @ CHR ''/'' # rev (v4_string w)"
    by (simp add: prefix_string_def addr_string_def)
  have d: "dropWhile (\<lambda>c. c \<noteq> CHR ''/'') (rev (prefix_string (Prefix (V4 w) n))) = CHR ''/'' # rev (v4_string w)"
    and t: "takeWhile (\<lambda>c. c \<noteq> CHR ''/'') (rev (prefix_string (Prefix (V4 w) n))) = rev (dec n)"
    unfolding rev using nd by (subst dropWhile_append2 takeWhile_append2, auto)+
  have z: "length (dec n) > 1 \<Longrightarrow> hd (dec n) \<noteq> CHR ''0''"
    using dec_no_leading_zero[of n] by (cases "n = 0") (auto simp: dec.simps[of 0])
  have h: "is_digit (hd (dec n))" using digits_dec[of n] by (cases "dec n") auto
  then have "length (dec n) > 1 \<Longrightarrow> CHR ''1'' \<le> hd (dec n) \<and> hd (dec n) \<le> CHR ''9''"
    using z digit_nonzero by blast
  then show ?thesis unfolding ParsePrefix_def Let_def d t
    using assms digits_dec[of n] by (auto simp: has_zone_def bit_len_def)
qed

lemma word_xor_eq_0 [simp]: "x XOR w = (0 :: 'a :: len word) \<longleftrightarrow> x = w"
  by (metis xor.assoc xor.right_neutral xor.left_neutral xor_self_eq)

lemma prefix_contains_full4 [simp]: "prefix_contains (Prefix (V4 w) 32) a \<longleftrightarrow> a = V4 w"
  by (cases a) (auto simp: prefix_contains_def has_zone_def)

lemma prefix_contains_base: "\<not> has_zone (prefix_addr p) \<Longrightarrow> prefix_contains p (prefix_addr p)"
  by (cases "prefix_addr p") (auto simp: prefix_contains_def has_zone_def)

end
