(* ===== verification/Go_Encoding.thy ===== *)
theory Go_Encoding
  imports Straw_Prelude
begin

text \<open>
  The encodings of Go's standard library that the sources rely on: \<open>base64.StdEncoding\<close> (carriage
  returns and newlines are skipped when decoding, padding is required, unused bits of the last
  quantum are ignored) and \<open>utf8.ValidString\<close>.
\<close>

section \<open>Base64\<close>

definition b64_char :: "nat \<Rightarrow> char" where
  "b64_char v = (if v < 26 then char_of (65 + v) else if v < 52 then char_of (71 + v)
     else if v < 62 then char_of (v - 4) else if v = 62 then CHR ''+'' else CHR ''/'')"

definition b64_val :: "char \<Rightarrow> nat option" where
  "b64_val c = (if is_upper c then Some (of_char c - 65) else if is_lower c then Some (of_char c - 71)
     else if is_digit c then Some (of_char c + 4) else if c = CHR ''+'' then Some 62
     else if c = CHR ''/'' then Some 63 else None)"

fun b64_encode :: "bytes \<Rightarrow> string" where
  "b64_encode [] = []"
| "b64_encode [a] = (let n = of_char a * 65536 in
     [b64_char (n div 262144), b64_char (n div 4096 mod 64), CHR ''='', CHR ''=''])"
| "b64_encode [a, b] = (let n = of_char a * 65536 + of_char b * 256 in
     [b64_char (n div 262144), b64_char (n div 4096 mod 64), b64_char (n div 64 mod 64), CHR ''=''])"
| "b64_encode (a # b # c # rest) = (let n = of_char a * 65536 + of_char b * 256 + of_char c in
     [b64_char (n div 262144), b64_char (n div 4096 mod 64), b64_char (n div 64 mod 64), b64_char (n mod 64)]
     @ b64_encode rest)"

fun b64_quanta :: "string \<Rightarrow> bytes option" where
  "b64_quanta [] = Some []"
| "b64_quanta (a # b # c # d # rest) =
     (case (b64_val a, b64_val b) of
        (Some w, Some x) \<Rightarrow>
          if c = CHR ''='' then
            (if d = CHR ''='' \<and> rest = [] then Some [char_of ((w * 262144 + x * 4096) div 65536)] else None)
          else (case b64_val c of
            None \<Rightarrow> None
          | Some y \<Rightarrow>
              if d = CHR ''='' then
                (if rest = [] then
                   (let n = w * 262144 + x * 4096 + y * 64 in Some [char_of (n div 65536), char_of (n div 256)])
                 else None)
              else (case b64_val d of
                None \<Rightarrow> None
              | Some z \<Rightarrow>
                  (let n = w * 262144 + x * 4096 + y * 64 + z in
                   map_option (\<lambda>bs. [char_of (n div 65536), char_of (n div 256), char_of n] @ bs) (b64_quanta rest))))
      | _ \<Rightarrow> None)"
| "b64_quanta _ = None"

definition b64_decode :: "string \<Rightarrow> bytes option" where
  "b64_decode s = b64_quanta (filter (\<lambda>c. c \<noteq> CHR 0x0A \<and> c \<noteq> CHR 0x0D) s)"

section \<open>UTF-8\<close>

definition cont_byte :: "char \<Rightarrow> bool" where
  "cont_byte c \<longleftrightarrow> CHR 0x80 \<le> c \<and> c \<le> CHR 0xBF"

fun utf8_valid :: "string \<Rightarrow> bool" where
  "utf8_valid [] = True"
| "utf8_valid (a # rest) =
     (if a < CHR 0x80 then utf8_valid rest
      else case rest of
        [] \<Rightarrow> False
      | b # r1 \<Rightarrow>
          if CHR 0xC2 \<le> a \<and> a \<le> CHR 0xDF then cont_byte b \<and> utf8_valid r1
          else case r1 of
            [] \<Rightarrow> False
          | c # r2 \<Rightarrow>
              if CHR 0xE0 \<le> a \<and> a \<le> CHR 0xEF then
                cont_byte b \<and> cont_byte c \<and> (a = CHR 0xE0 \<longrightarrow> CHR 0xA0 \<le> b)
                \<and> (a = CHR 0xED \<longrightarrow> b \<le> CHR 0x9F) \<and> utf8_valid r2
              else case r2 of
                [] \<Rightarrow> False
              | d # r3 \<Rightarrow>
                  CHR 0xF0 \<le> a \<and> a \<le> CHR 0xF4 \<and> cont_byte b \<and> cont_byte c \<and> cont_byte d
                  \<and> (a = CHR 0xF0 \<longrightarrow> CHR 0x90 \<le> b) \<and> (a = CHR 0xF4 \<longrightarrow> b \<le> CHR 0x8F) \<and> utf8_valid r3)"

section \<open>Lemmas\<close>

lemma b64_val_char: "v < 64 \<Longrightarrow> b64_val (b64_char v) = Some v"
proof -
  have "list_all (\<lambda>v. b64_val (b64_char v) = Some v) [0..<64]" by code_simp
  then show "v < 64 \<Longrightarrow> ?thesis" by (simp add: list_all_iff)
qed

lemma b64_char_plain: "v < 64 \<Longrightarrow> b64_char v \<noteq> CHR ''='' \<and> b64_char v \<noteq> CHR 0x0A \<and> b64_char v \<noteq> CHR 0x0D"
proof -
  have "list_all (\<lambda>v. b64_char v \<noteq> CHR ''='' \<and> b64_char v \<noteq> CHR 0x0A \<and> b64_char v \<noteq> CHR 0x0D) [0..<64]" by code_simp
  then show "v < 64 \<Longrightarrow> ?thesis" by (simp add: list_all_iff)
qed

lemma of_char_lt: "(of_char c :: nat) < 256"
  by (metis of_char_mod_256 mod_less_divisor zero_less_numeral)

lemma sextets_recombine:
  fixes n :: nat
  assumes "n < 16777216"
  shows "n div 262144 * 262144 + n div 4096 mod 64 * 4096 + n div 64 mod 64 * 64 + n mod 64 = n"
    and "n div 262144 < 64"
proof -
  have e: "n div 4096 div 64 = n div 262144" "n div 64 div 64 = n div 4096"
    using div_mult2_eq[of n 4096 64] div_mult2_eq[of n 64 64] by simp_all
  have "n div 262144 * 64 + n div 4096 mod 64 = n div 4096"
    using div_mult_mod_eq[of "n div 4096" 64] e by simp
  moreover have "n div 4096 * 64 + n div 64 mod 64 = n div 64"
    using div_mult_mod_eq[of "n div 64" 64] e by simp
  moreover have "n div 64 * 64 + n mod 64 = n" by (rule div_mult_mod_eq)
  ultimately show "n div 262144 * 262144 + n div 4096 mod 64 * 4096 + n div 64 mod 64 * 64 + n mod 64 = n" by linarith
  show "n div 262144 < 64" using assms by (intro less_mult_imp_div_less) simp
qed

lemma char_of_cong: "n mod 256 = of_char c \<Longrightarrow> char_of (n :: nat) = c"
  by (metis char_of_mod_256 char_of_char)

lemma b64_bytes:
  fixes a b c :: char
  defines "n \<equiv> of_char a * 65536 + of_char b * 256 + of_char c :: nat"
  shows "n < 16777216" and "char_of (n div 65536) = a" and "char_of (n div 256) = b" and "char_of n = c"
proof -
  have lt: "(of_char a :: nat) < 256" "(of_char b :: nat) < 256" "(of_char c :: nat) < 256"
    by (rule of_char_lt)+
  then show "n < 16777216" unfolding n_def by linarith
  have "n div 256 = of_char a * 256 + of_char b" using lt unfolding n_def by (simp add: div_add1_eq)
  moreover from this have "n div 65536 = of_char a" using lt div_mult2_eq[of n 256 256] by simp
  moreover have "n mod 256 = of_char c" unfolding n_def using lt by (simp add: mod_add_left_eq[symmetric])
  ultimately show "char_of (n div 65536) = a" "char_of (n div 256) = b" "char_of n = c"
    using lt by (auto intro!: char_of_cong)
qed

lemma b64_encode_plain: "c \<in> set (b64_encode bs) \<Longrightarrow> c \<noteq> CHR 0x0A \<and> c \<noteq> CHR 0x0D"
proof (induction bs rule: b64_encode.induct)
  case (2 a)
  then show ?case using b64_bytes(1)[of a "CHR 0x00" "CHR 0x00"] sextets_recombine(2)[of "of_char a * 65536"]
    by (auto simp: Let_def b64_char_plain)
next
  case (3 a b)
  then show ?case using b64_bytes(1)[of a b "CHR 0x00"] sextets_recombine(2)[of "of_char a * 65536 + of_char b * 256"]
    by (auto simp: Let_def b64_char_plain)
next
  case (4 a b d rest)
  then show ?case using b64_bytes(1)[of a b d] sextets_recombine(2)[of "of_char a * 65536 + of_char b * 256 + of_char d"]
    by (auto simp: Let_def b64_char_plain)
qed simp

lemma b64_quanta1:
  "w < 64 \<Longrightarrow> x < 64 \<Longrightarrow> b64_quanta [b64_char w, b64_char x, CHR ''='', CHR ''='']
     = Some [char_of ((w * 262144 + x * 4096) div 65536)]"
  by (simp add: b64_val_char)

lemma b64_quanta2:
  "w < 64 \<Longrightarrow> x < 64 \<Longrightarrow> y < 64 \<Longrightarrow> n = w * 262144 + x * 4096 + y * 64 \<Longrightarrow>
     b64_quanta [b64_char w, b64_char x, b64_char y, CHR ''=''] = Some [char_of (n div 65536), char_of (n div 256)]"
  by (simp add: b64_val_char b64_char_plain Let_def)

lemma b64_quanta3:
  "w < 64 \<Longrightarrow> x < 64 \<Longrightarrow> y < 64 \<Longrightarrow> z < 64 \<Longrightarrow> n = w * 262144 + x * 4096 + y * 64 + z \<Longrightarrow>
     b64_quanta (b64_char w # b64_char x # b64_char y # b64_char z # rest) =
       map_option (\<lambda>bs. [char_of (n div 65536), char_of (n div 256), char_of n] @ bs) (b64_quanta rest)"
  by (simp add: b64_val_char b64_char_plain Let_def) (cases "b64_quanta rest"; simp)

lemma b64_quanta_encode: "b64_quanta (b64_encode bs) = Some bs"
proof (induction bs rule: b64_encode.induct)
  case (2 a)
  define n where "n = (of_char a * 65536 :: nat)"
  have n: "n < 16777216" "char_of (n div 65536) = a"
    using b64_bytes(1,2)[of a "CHR 0x00" "CHR 0x00"] by (simp_all add: n_def)
  have "n = 64 * (64 * (of_char a * 16))" by (simp add: n_def)
  then have z: "n div 64 mod 64 = 0" "n mod 64 = 0"
    by (simp_all only: nonzero_mult_div_cancel_left mod_mult_self1_is_0 zero_neq_numeral not_False_eq_True)
  then have "n div 262144 * 262144 + n div 4096 mod 64 * 4096 = n" using sextets_recombine(1)[OF n(1)] by simp
  then show ?case using n b64_quanta1[of "n div 262144" "n div 4096 mod 64"] sextets_recombine(2)[OF n(1)]
    unfolding b64_encode.simps Let_def n_def[symmetric] by simp
next
  case (3 a b)
  define n where "n = (of_char a * 65536 + of_char b * 256 :: nat)"
  have n: "n < 16777216" "char_of (n div 65536) = a" "char_of (n div 256) = b"
    using b64_bytes(1,2,3)[of a b "CHR 0x00"] by (simp_all add: n_def)
  have "n = 64 * (of_char a * 1024 + of_char b * 4)" by (simp add: n_def)
  then have z: "n mod 64 = 0" by (simp only: mod_mult_self1_is_0)
  then have "n div 262144 * 262144 + n div 4096 mod 64 * 4096 + n div 64 mod 64 * 64 = n"
    using sextets_recombine(1)[OF n(1)] by simp
  then show ?case
    using n b64_quanta2[of "n div 262144" "n div 4096 mod 64" "n div 64 mod 64" n] sextets_recombine(2)[OF n(1)]
    unfolding b64_encode.simps Let_def n_def[symmetric] by simp
next
  case (4 a b c rest)
  define n where "n = (of_char a * 65536 + of_char b * 256 + of_char c :: nat)"
  have n: "n < 16777216" "char_of (n div 65536) = a" "char_of (n div 256) = b" "char_of n = c"
    using b64_bytes[of a b c] by (simp_all add: n_def)
  have q: "b64_quanta (b64_char (n div 262144) # b64_char (n div 4096 mod 64) # b64_char (n div 64 mod 64) #
      b64_char (n mod 64) # b64_encode rest) = map_option (\<lambda>bs. [a, b, c] @ bs) (b64_quanta (b64_encode rest))"
    using b64_quanta3[of "n div 262144" "n div 4096 mod 64" "n div 64 mod 64" "n mod 64" n "b64_encode rest"]
      sextets_recombine[OF n(1)] n by (simp del: b64_quanta.simps)
  show ?case using q 4 unfolding b64_encode.simps Let_def n_def[symmetric] by (simp del: b64_quanta.simps)
qed simp

lemma b64_decode_encode: "b64_decode (b64_encode bs) = Some bs"
proof -
  have "filter (\<lambda>c. c \<noteq> CHR 0x0A \<and> c \<noteq> CHR 0x0D) (b64_encode bs) = b64_encode bs"
    using b64_encode_plain by (simp add: filter_id_conv)
  then show ?thesis by (simp only: b64_decode_def b64_quanta_encode)
qed

end
