(* ===== verification/Config_Types.thy ===== *)
theory Config_Types
  imports Straw_Prelude
begin

text \<open>
  The runtime configuration of a deployment (\<open>internal/config/snapshot.go\<close>).  Go's empty string
  and empty slice are the empty list; an optional struct pointer is an \<open>option\<close>.  \<open>Clone\<close> is a
  deep copy, the identity on these values.
\<close>

record MatchConditions =
  mc_Tags :: "string list"
  mc_Country :: string
  mc_Region :: string
  mc_IPType :: string
  mc_IngressType :: string
  mc_TargetHost :: string

record RoutingRule =
  rr_ID :: string
  rr_Priority :: int
  rr_Enabled :: bool
  rr_Match :: MatchConditions
  rr_TargetPoolID :: string
  rr_StickySessionTTLSeconds :: uint32
  rr_AllowStickyFallback :: bool

record ExecutorPoolUpstreamProxy =
  up_ID :: string
  up_TrustedRemoteResolution :: bool

record ExecutorPool =
  ep_ID :: string
  ep_ExecutorType :: string
  ep_Tags :: "string list"
  ep_Enabled :: bool
  ep_AllowDegradedWorkers :: bool
  ep_AllowedIPTypes :: "string list"
  ep_AllowedCountries :: "string list"
  ep_AllowedRegions :: "string list"
  ep_UpstreamProxy :: "ExecutorPoolUpstreamProxy option"

record DenyRule =
  dr_ID :: string
  dr_RuleType :: string
  dr_Action :: string
  dr_Enabled :: bool
  dr_Reason :: string
  dr_RawPattern :: string
  dr_NormalizedHost :: string
  dr_NormalizedCIDR :: string
  dr_NormalizedIP :: string
  dr_NormalizedName :: string

record InjectionOperation =
  io_Op :: string
  io_HeaderName :: string
  io_ValueBase64 :: string

record InjectionPolicy =
  ip_ID :: string
  ip_Enabled :: bool
  ip_Operations :: "InjectionOperation list"

record FingerprintProfile =
  fp_Name :: string
  fp_ScopeType :: string
  fp_SupportedByWorker :: bool
  fp_Enabled :: bool
  fp_ExecutorType :: string
  fp_ProfileRef :: string
  fp_ContractRevision :: string

record WorkerSetting =
  ws_WorkerID :: string
  ws_Enabled :: bool
  ws_Draining :: bool

record Snapshot =
  sn_ConfigVersion :: uint64
  sn_DefaultTimeoutMs :: uint64
  sn_MaxTimeoutMs :: uint64
  sn_RoutingRules :: "RoutingRule list"
  sn_ExecutorPools :: "ExecutorPool list"
  sn_DenyRules :: "DenyRule list"
  sn_InjectionPolicies :: "InjectionPolicy list"
  sn_FingerprintProfiles :: "FingerprintProfile list"
  sn_WorkerSettings :: "WorkerSetting list"

definition NewSnapshot :: "uint64 \<Rightarrow> Snapshot" where
  "NewSnapshot version = \<lparr>sn_ConfigVersion = version, sn_DefaultTimeoutMs = 60000,
     sn_MaxTimeoutMs = 300000, sn_RoutingRules = [], sn_ExecutorPools = [], sn_DenyRules = [],
     sn_InjectionPolicies = [], sn_FingerprintProfiles = [], sn_WorkerSettings = []\<rparr>"

end
