(* ===== verification/Dest_Policy.thy ===== *)
theory Dest_Policy
  imports Straw_Errors Net_IP Go_Encoding Config_Types
begin

text \<open>
  Control's destination policy (\<open>internal/control/destination_policy.go\<close>): compiling the deny
  rules of a snapshot into the lists Egress enforces, the pre-dispatch checks of the target host,
  the fingerprint profile and the header injections.  \<open>idna\<close> stands for \<open>idnaLookup.ToASCII\<close> of
  \<open>golang.org/x/net/idna\<close>.
\<close>

section \<open>Constants\<close>

definition denyRuleCIDRTypes :: "string list" where
  "denyRuleCIDRTypes = [''cidr'', ''ip'', ''metadata_ip'', ''private_range'']"

definition denyRuleHostTypes :: "string list" where
  "denyRuleHostTypes = [''host'', ''host_suffix'']"

definition alwaysDeniedInjectionHeaders :: "string list" where
  "alwaysDeniedInjectionHeaders =
     [''host'', ''content-length'', ''transfer-encoding'', ''connection'', ''proxy-authorization'']"

definition defaultDeniedPrefixes :: "Prefix list" where
  "defaultDeniedPrefixes = [
     Prefix (ip4 0 0 0 0) 8, Prefix (ip4 100 64 0 0) 10, Prefix (ip4 192 0 0 0) 24,
     Prefix (ip4 192 0 2 0) 24, Prefix (ip4 192 88 99 0) 24, Prefix (ip4 198 18 0 0) 15,
     Prefix (ip4 198 51 100 0) 24, Prefix (ip4 203 0 113 0) 24, Prefix (ip4 240 0 0 0) 4,
     Prefix (ip4 255 255 255 255) 32, Prefix (V6 0 []) 128,
     Prefix (V6 0x0064ff9b000000000000000000000000 []) 96,
     Prefix (V6 0x01000000000000000000000000000000 []) 64,
     Prefix (V6 0x00000000000000000000ffff00000000 []) 96]"

definition metadataIPs :: "Addr list" where
  "metadataIPs = [ip4 169 254 169 254, ip4 169 254 169 253, ip4 169 254 170 2,
     ip4 100 100 100 200, ip4 100 100 100 201]"

section \<open>Compiling deny rules\<close>

definition denyRuleValue :: "DenyRule \<Rightarrow> string" where
  "denyRuleValue r =
     (if dr_RuleType r \<in> set denyRuleCIDRTypes then
        (if dr_RuleType r = ''ip'' then dr_NormalizedIP r else dr_NormalizedCIDR r)
      else if dr_RuleType r = ''cname_suffix'' then dr_NormalizedName r
      else dr_NormalizedHost r)"

definition compileCIDRDenyRule :: "DenyRule \<Rightarrow> string list \<times> string list \<Rightarrow> string list \<times> string list" where
  "compileCIDRDenyRule r acc = (case acc of (denied, allowed) \<Rightarrow>
     (let value = denyRuleValue r in
      if value = [] then (denied, allowed)
      else case (if dr_RuleType r = ''ip'' then
                   map_option (\<lambda>a. prefix_string (Prefix a (bit_len a))) (ParseAddr value)
                 else Some value) of
        None \<Rightarrow> (denied, allowed)
      | Some v \<Rightarrow> if dr_Action r = ''allow_override'' then (denied, allowed @ [v]) else (denied @ [v], allowed)))"

definition subtractOverrides :: "string list \<Rightarrow> string list \<Rightarrow> string list" where
  "subtractOverrides denied allowed =
     (if allowed = [] then denied else filter (\<lambda>v. v \<notin> set allowed) denied)"

record compiled_rules =
  cr_deniedCidrs :: "string list"
  cr_allowedCidrs :: "string list"
  cr_deniedHost :: "string list"
  cr_allowedHost :: "string list"
  cr_deniedCname :: "string list"
  cr_allowedCname :: "string list"

definition compile_step :: "compiled_rules \<Rightarrow> DenyRule \<Rightarrow> compiled_rules" where
  "compile_step c r =
     (if \<not> dr_Enabled r then c
      else if dr_RuleType r \<in> set denyRuleCIDRTypes then
        (case compileCIDRDenyRule r (cr_deniedCidrs c, cr_allowedCidrs c) of
           (d, a) \<Rightarrow> c\<lparr>cr_deniedCidrs := d, cr_allowedCidrs := a\<rparr>)
      else if dr_RuleType r \<in> set denyRuleHostTypes then
        (if dr_Action r = ''allow_override'' then c\<lparr>cr_allowedHost := cr_allowedHost c @ [dr_NormalizedHost r]\<rparr>
         else c\<lparr>cr_deniedHost := cr_deniedHost c @ [dr_NormalizedHost r]\<rparr>)
      else if dr_RuleType r = ''cname_suffix'' then
        (if dr_Action r = ''allow_override'' then c\<lparr>cr_allowedCname := cr_allowedCname c @ [dr_NormalizedName r]\<rparr>
         else c\<lparr>cr_deniedCname := cr_deniedCname c @ [dr_NormalizedName r]\<rparr>)
      else c)"

definition compile_init :: compiled_rules where
  "compile_init = \<lparr>cr_deniedCidrs = [], cr_allowedCidrs = [], cr_deniedHost = [], cr_allowedHost = [],
     cr_deniedCname = [], cr_allowedCname = []\<rparr>"

text \<open>Denied CIDRs, allowed CIDRs, denied host suffixes, denied CNAME suffixes, each sorted.\<close>

definition compileDenyRules :: "DenyRule list \<Rightarrow> string list \<times> string list \<times> string list \<times> string list" where
  "compileDenyRules rules =
     (let c = foldl compile_step compile_init rules in
      (sort (cr_deniedCidrs c), sort (cr_allowedCidrs c),
       sort (subtractOverrides (cr_deniedHost c) (cr_allowedHost c)),
       sort (subtractOverrides (cr_deniedCname c) (cr_allowedCname c))))"

section \<open>Checks before dispatch\<close>

definition verr :: "string \<Rightarrow> string \<Rightarrow> ValidationError" where
  "verr code msg = \<lparr>ve_Code = code, ve_Message = msg, ve_Details = []\<rparr>"

definition destinationDeniedError :: ValidationError where
  "destinationDeniedError = verr ''destination_denied'' ''Deny rule matched''"

definition hostMatchesSuffix :: "string \<Rightarrow> string \<Rightarrow> bool" where
  "hostMatchesSuffix host suffix =
     (if suffix = [] then False else if host = suffix then True else has_suffix host (CHR ''.'' # suffix))"

definition hostMatchesDenyRule :: "string \<Rightarrow> DenyRule \<Rightarrow> bool" where
  "hostMatchesDenyRule host r =
     (if dr_RuleType r = ''host_suffix'' then hostMatchesSuffix host (dr_NormalizedHost r)
      else host = dr_NormalizedHost r)"

fun host_deny_loop :: "string \<Rightarrow> DenyRule list \<Rightarrow> bool \<Rightarrow> bool \<Rightarrow> bool \<times> bool" where
  "host_deny_loop host [] denied allowed = (denied, allowed)"
| "host_deny_loop host (r # rs) denied allowed =
     (if \<not> dr_Enabled r \<or> dr_RuleType r \<notin> set denyRuleHostTypes \<or> \<not> hostMatchesDenyRule host r
      then host_deny_loop host rs denied allowed
      else if dr_Action r = ''allow_override'' then host_deny_loop host rs denied True
      else host_deny_loop host rs True allowed)"

definition evaluateHostDeny :: "string \<Rightarrow> DenyRule list \<Rightarrow> ValidationError option" where
  "evaluateHostDeny host rules =
     (case host_deny_loop host rules False False of (denied, allowed) \<Rightarrow>
        if denied \<and> \<not> allowed then Some destinationDeniedError else None)"

definition parseCIDRs :: "string list \<Rightarrow> Prefix list" where
  "parseCIDRs raw = List.map_filter ParsePrefix raw"

definition prefixesContainAddr :: "Prefix list \<Rightarrow> Addr \<Rightarrow> bool" where
  "prefixesContainAddr ps a \<longleftrightarrow> list_ex (\<lambda>p. prefix_contains p a) ps"

definition evaluateLiteralIPDeny :: "Addr \<Rightarrow> string list \<Rightarrow> string list \<Rightarrow> ValidationError option" where
  "evaluateLiteralIPDeny a deniedCidrs allowedCidrs =
     (if Is4In6 a then Some destinationDeniedError
      else if prefixesContainAddr (parseCIDRs allowedCidrs) a then None
      else if prefixesContainAddr (parseCIDRs deniedCidrs) a then Some destinationDeniedError
      else if a \<in> set metadataIPs then Some destinationDeniedError
      else if IsLoopback a \<or> IsLinkLocalUnicast a \<or> IsMulticast a \<or> IsPrivate a then Some destinationDeniedError
      else if prefixesContainAddr defaultDeniedPrefixes a then Some destinationDeniedError
      else None)"

definition allowedPrefixesContain :: "string list \<Rightarrow> (Addr \<Rightarrow> bool) \<Rightarrow> bool" where
  "allowedPrefixesContain prefixes match =
     list_ex (\<lambda>raw. case ParsePrefix raw of None \<Rightarrow> False | Some p \<Rightarrow> match (prefix_addr p)) prefixes"

definition isMetadataAddr :: "Addr \<Rightarrow> bool" where
  "isMetadataAddr a \<longleftrightarrow> a \<in> set metadataIPs"

datatype ResolutionMode = DIRECT_LOCAL | UPSTREAM_PROXY_REMOTE | RESOLUTION_OTHER

definition resolveDestinationMode :: "bool \<Rightarrow> bool \<Rightarrow> ValidationError + ResolutionMode" where
  "resolveDestinationMode upstreamProxyEnabled upstreamProxyTrusted =
     (if \<not> upstreamProxyEnabled then Inr DIRECT_LOCAL
      else if \<not> upstreamProxyTrusted then Inl destinationDeniedError
      else Inr UPSTREAM_PROXY_REMOTE)"

definition resolveFingerprintProfile :: "FingerprintProfile list \<Rightarrow> string \<Rightarrow> ValidationError + string" where
  "resolveFingerprintProfile profiles requested =
     (let name = (if requested = [] then ''default'' else requested) in
      if name = ''default'' then Inr ''baseline''
      else if list_ex (\<lambda>p. fp_Name p = name \<and> fp_Enabled p) profiles then Inr name
      else Inl (verr ''unsupported_fingerprint'' ''Executor cannot apply requested preset''))"

section \<open>Header injection\<close>

record resolved_op =
  ro_Op :: string
  ro_HeaderName :: string
  ro_Value :: bytes

definition contains_crlf :: "bytes \<Rightarrow> bool" where
  "contains_crlf v \<longleftrightarrow> CHR 0x0D \<in> set v \<or> CHR 0x0A \<in> set v"

definition injection_error :: "string \<Rightarrow> ValidationError" where
  "injection_error msg = verr ''header_injection_failed'' msg"

definition resolveInjectionOperation ::
    "InjectionOperation \<Rightarrow> string list \<Rightarrow> ValidationError + (resolved_op \<times> string list)" where
  "resolveInjectionOperation op seenSet =
     (if io_Op op \<noteq> ''set'' \<and> io_Op op \<noteq> ''append'' \<and> io_Op op \<noteq> ''remove'' then
        Inl (injection_error ''resolved injection operation has an invalid op'')
      else let lower = to_lower (io_HeaderName op) in
        if lower \<in> set alwaysDeniedInjectionHeaders \<or> has_prefix lower ''x-straw-'' then
          Inl (injection_error ''resolved injection operation targets a denied header'')
        else if io_Op op = ''set'' \<and> lower \<in> set seenSet then
          Inl (injection_error ''duplicate set operation for the same header'')
        else let seen' = (if io_Op op = ''set'' then lower # seenSet else seenSet) in
          case b64_decode (io_ValueBase64 op) of
            None \<Rightarrow> Inl (injection_error ''resolved injection value is not valid base64'')
          | Some v \<Rightarrow>
              if contains_crlf v then Inl (injection_error ''resolved injection value contains CR or LF'')
              else Inr (\<lparr>ro_Op = io_Op op, ro_HeaderName = io_HeaderName op, ro_Value = v\<rparr>, seen'))"

fun resolve_ops :: "uint64 \<Rightarrow> InjectionOperation list \<Rightarrow> string list \<Rightarrow> uint64 \<Rightarrow> ValidationError + resolved_op list" where
  "resolve_ops maxBytes [] seen n = Inr []"
| "resolve_ops maxBytes (op # ops) seen n =
     (case resolveInjectionOperation op seen of
        Inl e \<Rightarrow> Inl e
      | Inr (r, seen') \<Rightarrow>
          (let n' = n + of_nat (length (io_HeaderName op) + length (ro_Value r)) in
           if maxBytes > 0 \<and> n' > maxBytes then
             Inl (injection_error ''injected header bytes exceed configured maximum'')
           else case resolve_ops maxBytes ops seen' n' of
             Inl e \<Rightarrow> Inl e
           | Inr rs \<Rightarrow> Inr (r # rs)))"

text \<open>
  \<open>sort.Slice\<close> orders the policies by id; ids are unique in a validated snapshot, so the
  unspecified order of equal ids does not show.
\<close>

definition resolveInjectionOperations :: "InjectionPolicy list \<Rightarrow> uint64 \<Rightarrow> ValidationError + resolved_op list" where
  "resolveInjectionOperations policies maxBytes =
     (let sorted_policies = sort_key ip_ID policies in
      resolve_ops maxBytes (concat (map ip_Operations (filter ip_Enabled sorted_policies))) [] 0)"

section \<open>The resolved policy\<close>

record DestinationPolicy =
  dp_AllowLoopback :: bool
  dp_AllowPrivateRanges :: bool
  dp_AllowLinkLocal :: bool
  dp_AllowMulticast :: bool
  dp_AllowMetadataIps :: bool
  dp_DeniedCidrs :: "string list"
  dp_AllowedCidrs :: "string list"
  dp_DeniedHostSuffixes :: "string list"
  dp_DeniedCnameSuffixes :: "string list"
  dp_PolicyVersion :: string
  dp_ResolutionMode :: ResolutionMode

record DestinationPolicyResult =
  pr_Policy :: DestinationPolicy
  pr_InjectionOperations :: "resolved_op list"
  pr_FingerprintProfile :: string

definition policy_of_rules :: "DenyRule list \<Rightarrow> uint64 \<Rightarrow> ResolutionMode \<Rightarrow> DestinationPolicy" where
  "policy_of_rules rules version mode = (case compileDenyRules rules of (denied, allowed, hosts, cnames) \<Rightarrow>
     \<lparr>dp_AllowLoopback = allowedPrefixesContain allowed IsLoopback,
      dp_AllowPrivateRanges = allowedPrefixesContain allowed IsPrivate,
      dp_AllowLinkLocal = allowedPrefixesContain allowed IsLinkLocalUnicast,
      dp_AllowMulticast = allowedPrefixesContain allowed IsMulticast,
      dp_AllowMetadataIps = allowedPrefixesContain allowed isMetadataAddr,
      dp_DeniedCidrs = denied, dp_AllowedCidrs = allowed, dp_DeniedHostSuffixes = hosts,
      dp_DeniedCnameSuffixes = cnames, dp_PolicyVersion = dec (unat version), dp_ResolutionMode = mode\<rparr>)"

definition normalizeHostname :: "(string \<Rightarrow> string option) \<Rightarrow> string \<Rightarrow> string option" where
  "normalizeHostname idna host =
     (let h = trim_suffix (to_lower (trim_space host)) ''.'' in
      if h = [] then None
      else if ParseAddr h \<noteq> None then Some h
      else map_option to_lower (idna h))"

record target_url =
  tu_Hostname :: string
  tu_hasUser :: bool

record DestinationPolicyRequest =
  dq_Snapshot :: Snapshot
  dq_TargetURL :: "target_url option"
  dq_RequestedFingerprintProfile :: string
  dq_UpstreamProxyEnabled :: bool
  dq_UpstreamProxyTrusted :: bool
  dq_MaxInjectedHeaderBytes :: uint64

definition ResolveDestinationPolicy ::
    "(string \<Rightarrow> string option) \<Rightarrow> DestinationPolicyRequest \<Rightarrow> ValidationError + DestinationPolicyResult" where
  "ResolveDestinationPolicy idna req = (case dq_TargetURL req of
     None \<Rightarrow> Inl (verr ''invalid_request'' ''target url is required'')
   | Some u \<Rightarrow>
      if tu_hasUser u then Inl (verr ''invalid_request'' ''url userinfo is rejected'')
      else case normalizeHostname idna (tu_Hostname u) of
        None \<Rightarrow> Inl (verr ''invalid_request'' ''url host is not a valid hostname'')
      | Some host \<Rightarrow>
        (case compileDenyRules (sn_DenyRules (dq_Snapshot req)) of (denied, allowed, _, _) \<Rightarrow>
         (case evaluateHostDeny host (sn_DenyRules (dq_Snapshot req)) of
            Some e \<Rightarrow> Inl e
          | None \<Rightarrow>
           (case (case ParseAddr host of None \<Rightarrow> None | Some a \<Rightarrow> evaluateLiteralIPDeny a denied allowed) of
              Some e \<Rightarrow> Inl e
            | None \<Rightarrow>
             (case resolveDestinationMode (dq_UpstreamProxyEnabled req) (dq_UpstreamProxyTrusted req) of
                Inl e \<Rightarrow> Inl e
              | Inr mode \<Rightarrow>
               (case resolveFingerprintProfile (sn_FingerprintProfiles (dq_Snapshot req))
                       (dq_RequestedFingerprintProfile req) of
                  Inl e \<Rightarrow> Inl e
                | Inr profile \<Rightarrow>
                 (case resolveInjectionOperations (sn_InjectionPolicies (dq_Snapshot req))
                         (dq_MaxInjectedHeaderBytes req) of
                    Inl e \<Rightarrow> Inl e
                  | Inr ops \<Rightarrow>
                      Inr \<lparr>pr_Policy = policy_of_rules (sn_DenyRules (dq_Snapshot req))
                             (sn_ConfigVersion (dq_Snapshot req)) mode,
                           pr_InjectionOperations = ops, pr_FingerprintProfile = profile\<rparr>)))))))"

end
