(* ===== verification/Stream_Frames.thy ===== *)
theory Stream_Frames
  imports Straw_Errors
begin

text \<open>
  Stream frames and the receive-side validator of one stream direction and attempt
  (\<open>internal/natsx/stream.go\<close>).  The frame type is the part of the protocol buffer that the
  sources read and write; \<open>'r\<close> stands for the contents of a \<open>RequestStart\<close>.  Counters keep
  their width.  The clock is an argument of the operations that read it.
\<close>

section \<open>Frames\<close>

type_synonym header = "string \<times> bytes"

record OutboundStartFrame =
  os_TargetHost :: string
  os_TargetPort :: uint32
  os_Attempt :: uint32
  os_ExecutedFingerprintProfile :: string
  os_UpstreamProxyId :: string
  os_WorkerTimestampMs :: int

record ErrorFrame =
  ef_Code :: ErrorCode
  ef_Message :: string
  ef_Details :: "(string \<times> string) list"
  ef_TimeoutType :: "string option"
  ef_UpstreamStatus :: "uint32 option"
  ef_RetryAfterMs :: uint64

datatype 'r payload =
    RequestStart 'r
  | BodyRef string
  | OutboundStart OutboundStartFrame
  | ResponseStart uint32 "header list"
  | Data uint64 bytes
  | Credit uint64 uint64
  | Trailers "header list"
  | EndFrame bool
  | ErrorP ErrorFrame
  | Cancel string
  | CancelledP

record 'r StreamFrame =
  f_StreamSeq :: uint64
  f_Attempt :: uint32
  f_Payload :: "'r payload option"

definition mk_frame :: "uint64 \<Rightarrow> uint32 \<Rightarrow> 'r payload \<Rightarrow> 'r StreamFrame" where
  "mk_frame seq att p = \<lparr>f_StreamSeq = seq, f_Attempt = att, f_Payload = Some p\<rparr>"

section \<open>Outcomes\<close>

datatype FrameOutcome =
    FrameAccepted | FrameDuplicate | FrameAfterTerminal | FrameSequenceGap
  | FrameOffsetMismatch | FrameCreditExhausted | FrameAttemptMismatch | FrameInvalid

definition IsProtocolError :: "FrameOutcome \<Rightarrow> bool" where
  "IsProtocolError o' \<longleftrightarrow> o' = FrameSequenceGap \<or> o' = FrameOffsetMismatch
     \<or> o' = FrameCreditExhausted \<or> o' = FrameAttemptMismatch \<or> o' = FrameInvalid"

section \<open>The validator\<close>

record StreamValidator =
  v_attempt :: uint32
  v_expectedSeq :: uint64
  v_offset :: uint64
  v_credit :: uint64
  v_terminal :: bool
  v_idleTimeout :: int
  v_lastActivity :: instant
  v_allowBodyRef :: bool

definition NewStreamValidatorWithOptions ::
    "uint32 \<Rightarrow> uint64 \<Rightarrow> int \<Rightarrow> bool \<Rightarrow> instant \<Rightarrow> StreamValidator" where
  "NewStreamValidatorWithOptions att initialCredit idle allowRef now =
     \<lparr>v_attempt = att, v_expectedSeq = 1, v_offset = 0, v_credit = initialCredit,
      v_terminal = False, v_idleTimeout = idle, v_lastActivity = now, v_allowBodyRef = allowRef\<rparr>"

definition NewStreamValidator :: "uint32 \<Rightarrow> uint64 \<Rightarrow> int \<Rightarrow> instant \<Rightarrow> StreamValidator" where
  "NewStreamValidator att initialCredit idle now =
     NewStreamValidatorWithOptions att initialCredit idle False now"

definition GrantCredit :: "uint64 \<Rightarrow> StreamValidator \<Rightarrow> StreamValidator" where
  "GrantCredit n v = v\<lparr>v_credit := v_credit v + n\<rparr>"

definition validateFrameShell :: "StreamValidator \<Rightarrow> 'r StreamFrame option \<Rightarrow> FrameOutcome" where
  "validateFrameShell v mf = (case mf of
     None \<Rightarrow> FrameInvalid
   | Some f \<Rightarrow>
       if f_Payload f = None then FrameInvalid
       else if v_terminal v then FrameAfterTerminal
       else if f_StreamSeq f = 0 then FrameInvalid
       else if f_Attempt f \<noteq> v_attempt v then FrameAttemptMismatch
       else FrameAccepted)"

definition validatePayload :: "StreamValidator \<Rightarrow> 'r payload \<Rightarrow> FrameOutcome" where
  "validatePayload v p = (case p of
     BodyRef _ \<Rightarrow> (if \<not> v_allowBodyRef v then FrameInvalid else FrameAccepted)
   | _ \<Rightarrow> FrameAccepted)"

definition acceptData :: "StreamValidator \<Rightarrow> 'r payload \<Rightarrow> StreamValidator \<times> FrameOutcome" where
  "acceptData v p = (case p of
     Data off d \<Rightarrow>
       if off \<noteq> v_offset v then (v, FrameOffsetMismatch)
       else let n = of_nat (length d) in
         if n > v_credit v then (v, FrameCreditExhausted)
         else (v\<lparr>v_credit := v_credit v - n, v_offset := v_offset v + n\<rparr>, FrameAccepted)
   | _ \<Rightarrow> (v, FrameAccepted))"

definition isTerminalFrame :: "'r payload \<Rightarrow> bool" where
  "isTerminalFrame p = (case p of EndFrame _ \<Rightarrow> True | ErrorP _ \<Rightarrow> True | CancelledP \<Rightarrow> True | _ \<Rightarrow> False)"

definition Accept :: "instant \<Rightarrow> StreamValidator \<Rightarrow> 'r StreamFrame option \<Rightarrow> StreamValidator \<times> FrameOutcome" where
  "Accept now v mf = (case validateFrameShell v mf of
     FrameAccepted \<Rightarrow>
       (case mf of
          None \<Rightarrow> (v, FrameInvalid)
        | Some f \<Rightarrow>
            (case f_Payload f of
               None \<Rightarrow> (v, FrameInvalid)
             | Some p \<Rightarrow>
                 if f_StreamSeq f < v_expectedSeq v then (v, FrameDuplicate)
                 else if f_StreamSeq f > v_expectedSeq v then (v, FrameSequenceGap)
                 else case validatePayload v p of
                   FrameAccepted \<Rightarrow>
                     (case acceptData v p of
                        (v', FrameAccepted) \<Rightarrow>
                          (v'\<lparr>v_expectedSeq := v_expectedSeq v' + 1, v_lastActivity := now,
                              v_terminal := (if isTerminalFrame p then True else v_terminal v')\<rparr>,
                           FrameAccepted)
                      | (_, out) \<Rightarrow> (v, out))
                 | out \<Rightarrow> (v, out)))
   | out \<Rightarrow> (v, out))"

definition IdleExpired :: "instant \<Rightarrow> StreamValidator \<Rightarrow> bool" where
  "IdleExpired now v =
     (if v_idleTimeout v \<le> 0 \<or> v_terminal v then False
      else now - v_lastActivity v \<ge> v_idleTimeout v)"

section \<open>Runs\<close>

text \<open>
  A run of one direction interleaves deliveries with credit grants and collects the accepted
  frames in order.
\<close>

datatype 'r stream_event = Recv instant "'r StreamFrame option" | Grant uint64

fun accepted_frame :: "'r StreamFrame option \<Rightarrow> FrameOutcome \<Rightarrow> 'r StreamFrame list" where
  "accepted_frame (Some f) FrameAccepted = [f]"
| "accepted_frame _ _ = []"

fun stream_step :: "StreamValidator \<times> 'r StreamFrame list \<Rightarrow> 'r stream_event \<Rightarrow> StreamValidator \<times> 'r StreamFrame list" where
  "stream_step (v, fs) (Recv now mf) =
     (case Accept now v mf of (v', out) \<Rightarrow> (v', fs @ accepted_frame mf out))"
| "stream_step (v, fs) (Grant n) = (GrantCredit n v, fs)"

definition stream_run :: "StreamValidator \<times> 'r StreamFrame list \<Rightarrow> 'r stream_event list \<Rightarrow> StreamValidator \<times> 'r StreamFrame list" where
  "stream_run = foldl stream_step"

fun payload_bytes :: "'r payload \<Rightarrow> bytes" where
  "payload_bytes (Data _ d) = d"
| "payload_bytes _ = []"

definition frame_payload :: "'r StreamFrame \<Rightarrow> 'r payload" where
  "frame_payload f = the (f_Payload f)"

definition received_bytes :: "'r StreamFrame list \<Rightarrow> bytes" where
  "received_bytes fs = concat (map (payload_bytes \<circ> frame_payload) fs)"

fun granted :: "'r stream_event list \<Rightarrow> nat" where
  "granted [] = 0"
| "granted (Grant n # es) = unat n + granted es"
| "granted (Recv _ _ # es) = granted es"

text \<open>
  The abstract contract of a stream direction: data offsets are the number of bytes before them,
  and nothing follows a terminal payload.
\<close>

fun offsets_from :: "nat \<Rightarrow> 'r payload list \<Rightarrow> bool" where
  "offsets_from k [] = True"
| "offsets_from k (Data off d # ps) = (off = of_nat k \<and> offsets_from (k + length d) ps)"
| "offsets_from k (p # ps) = offsets_from k ps"

definition terminal_last :: "'r payload list \<Rightarrow> bool" where
  "terminal_last ps \<longleftrightarrow> (\<forall>p \<in> set (butlast ps). \<not> isTerminalFrame p)"

text \<open>
  Payload sizes fit a Go \<open>len\<close>.  The invariant of a run relates the counters to the frames
  accepted so far; \<open>budget\<close> is the credit granted in total.
\<close>

fun small_event :: "'r stream_event \<Rightarrow> bool" where
  "small_event (Recv _ (Some f)) = (length (payload_bytes (frame_payload f)) < 2 ^ 64)"
| "small_event _ = True"

definition stream_inv :: "uint32 \<Rightarrow> nat \<Rightarrow> StreamValidator \<times> 'r StreamFrame list \<Rightarrow> bool" where
  "stream_inv att budget s = (case s of (v, fs) \<Rightarrow>
     v_attempt v = att
   \<and> map f_StreamSeq fs = map (\<lambda>i. of_nat (Suc i)) [0..<length fs]
   \<and> (\<forall>f \<in> set fs. f_Attempt f = att \<and> f_Payload f \<noteq> None)
   \<and> v_expectedSeq v = of_nat (Suc (length fs))
   \<and> v_offset v = of_nat (length (received_bytes fs))
   \<and> offsets_from 0 (map frame_payload fs)
   \<and> terminal_last (map frame_payload fs)
   \<and> v_terminal v = (\<exists>f \<in> set fs. isTerminalFrame (frame_payload f))
   \<and> unat (v_credit v) + length (received_bytes fs) = budget)"

text \<open>
  What a well-behaved sender emits: payloads numbered consecutively, and a transport that may
  deliver any frame again after its first delivery.
\<close>

fun number_frames :: "uint32 \<Rightarrow> uint64 \<Rightarrow> 'r payload list \<Rightarrow> 'r StreamFrame list" where
  "number_frames att seq [] = []"
| "number_frames att seq (p # ps) = mk_frame seq att p # number_frames att (seq + 1) ps"

inductive redelivery :: "'a list \<Rightarrow> 'a list \<Rightarrow> 'a list \<Rightarrow> bool" where
  finished: "redelivery ds [] []"
| next_frame: "redelivery (ds @ [f]) fs es \<Longrightarrow> redelivery ds (f # fs) (f # es)"
| repeated: "f \<in> set ds \<Longrightarrow> redelivery ds fs es \<Longrightarrow> redelivery ds fs (f # es)"

definition can_deliver :: "StreamValidator \<Rightarrow> nat \<Rightarrow> 'r payload list \<Rightarrow> bool" where
  "can_deliver v k ps \<longleftrightarrow>
     (v_terminal v \<longrightarrow> ps = []) \<and> v_offset v = of_nat k \<and> offsets_from k ps \<and> terminal_last ps
   \<and> (\<forall>r. BodyRef r \<in> set ps \<longrightarrow> v_allowBodyRef v)
   \<and> length (concat (map payload_bytes ps)) \<le> unat (v_credit v)
   \<and> 0 < unat (v_expectedSeq v) \<and> unat (v_expectedSeq v) + length ps < 2 ^ 64"

definition ex_events :: "string stream_event list" where
  "ex_events = [Recv 1 (Some (mk_frame 1 1 (ResponseStart 200 []))), Recv 2 (Some (mk_frame 2 1 (Data 0 ''abc''))),
     Recv 3 (Some (mk_frame 2 1 (Data 0 ''abc''))), Grant 3, Recv 4 (Some (mk_frame 3 1 (Data 3 ''de''))),
     Recv 5 (Some (mk_frame 4 1 (EndFrame True)))]"

section \<open>Lemmas\<close>

lemma Accept_None [simp]: "Accept now v None = (v, FrameInvalid)"
  by (simp add: Accept_def validateFrameShell_def)

lemma Accept_no_payload: "f_Payload f = None \<Longrightarrow> Accept now v (Some f) = (v, FrameInvalid)"
  by (simp add: Accept_def validateFrameShell_def)

lemma Accept_eq:
  assumes "f_Payload f = Some p"
  shows "Accept now v (Some f) =
    (if v_terminal v then (v, FrameAfterTerminal)
     else if f_StreamSeq f = 0 then (v, FrameInvalid)
     else if f_Attempt f \<noteq> v_attempt v then (v, FrameAttemptMismatch)
     else if f_StreamSeq f < v_expectedSeq v then (v, FrameDuplicate)
     else if f_StreamSeq f > v_expectedSeq v then (v, FrameSequenceGap)
     else if validatePayload v p \<noteq> FrameAccepted then (v, validatePayload v p)
     else if snd (acceptData v p) \<noteq> FrameAccepted then (v, snd (acceptData v p))
     else (let v' = fst (acceptData v p) in
       (v'\<lparr>v_expectedSeq := v_expectedSeq v' + 1, v_lastActivity := now,
           v_terminal := (if isTerminalFrame p then True else v_terminal v')\<rparr>, FrameAccepted)))"
proof (cases "validatePayload v p"; cases "acceptData v p"; cases "snd (acceptData v p)")
qed (simp_all add: Accept_def validateFrameShell_def assms Let_def)

lemma acceptData_Data:
  "acceptData v (Data off d) =
    (if off \<noteq> v_offset v then (v, FrameOffsetMismatch)
     else if of_nat (length d) > v_credit v then (v, FrameCreditExhausted)
     else (v\<lparr>v_credit := v_credit v - of_nat (length d), v_offset := v_offset v + of_nat (length d)\<rparr>,
           FrameAccepted))"
  by (simp add: acceptData_def Let_def)

lemma acceptData_other: "\<forall>off d. p \<noteq> Data off d \<Longrightarrow> acceptData v p = (v, FrameAccepted)"
  by (cases p) (simp_all add: acceptData_def)

lemma Accept_cases:
  obtains (rejected) out where "Accept now v mf = (v, out)" "out \<noteq> FrameAccepted"
  | (control) f p where "mf = Some f" "f_Payload f = Some p" "f_StreamSeq f = v_expectedSeq v"
      "f_StreamSeq f \<noteq> 0" "f_Attempt f = v_attempt v" "\<not> v_terminal v"
      "\<forall>off d. p \<noteq> Data off d" 
      "Accept now v mf = (v\<lparr>v_expectedSeq := v_expectedSeq v + 1, v_lastActivity := now,
          v_terminal := isTerminalFrame p\<rparr>, FrameAccepted)"
  | (data) f d where "mf = Some f" "f_Payload f = Some (Data (v_offset v) d)"
      "f_StreamSeq f = v_expectedSeq v" "f_StreamSeq f \<noteq> 0" "f_Attempt f = v_attempt v"
      "\<not> v_terminal v" "of_nat (length d) \<le> v_credit v"
      "Accept now v mf = (v\<lparr>v_expectedSeq := v_expectedSeq v + 1, v_lastActivity := now,
          v_credit := v_credit v - of_nat (length d), v_offset := v_offset v + of_nat (length d)\<rparr>,
          FrameAccepted)"
proof (cases "\<exists>f p. mf = Some f \<and> f_Payload f = Some p")
  case False
  then have "Accept now v mf = (v, FrameInvalid)"
    by (cases mf) (auto simp: Accept_no_payload)
  then show ?thesis by (rule rejected) simp
next
  case True
  then obtain f p where fp: "mf = Some f" "f_Payload f = Some p" by blast
  note eq = Accept_eq[OF fp(2), of now v, folded fp(1)]
  show ?thesis
  proof (cases "v_terminal v \<or> f_StreamSeq f = 0 \<or> f_Attempt f \<noteq> v_attempt v
      \<or> f_StreamSeq f \<noteq> v_expectedSeq v \<or> validatePayload v p \<noteq> FrameAccepted
      \<or> snd (acceptData v p) \<noteq> FrameAccepted")
    case True
    then show ?thesis
      by (intro rejected[of "snd (Accept now v mf)"])
        (auto simp: eq neq_iff not_less_iff_gr_or_eq simp del: word_neq_0_conv)
  next
    case False
    show ?thesis
    proof (cases "\<exists>off d. p = Data off d")
      case True
      then obtain off d where p: "p = Data off d" by blast
      with False have ok: "off = v_offset v" "of_nat (length d) \<le> v_credit v"
        by (auto simp: acceptData_Data not_less split: if_splits)
      show ?thesis
        by (rule data[of f d]) (use fp False p ok eq in \<open>auto simp: acceptData_Data isTerminalFrame_def Let_def\<close>)
    next
      case ctl: False
      then have d: "acceptData v p = (v, FrameAccepted)" by (simp add: acceptData_other)
      show ?thesis
        by (rule control[of f p]) (use fp False ctl eq d in \<open>auto simp: Let_def\<close>)
    qed
  qed
qed


lemma offsets_from_snoc:
  "offsets_from k (ps @ [p]) \<longleftrightarrow> offsets_from k ps \<and>
     (\<forall>off d. p = Data off d \<longrightarrow> off = of_nat (k + length (concat (map payload_bytes ps))))"
  by (induction k ps rule: offsets_from.induct) (cases p; simp add: add.assoc)+

lemma terminal_last_snoc:
  "terminal_last (ps @ [p]) \<longleftrightarrow> (\<forall>q \<in> set ps. \<not> isTerminalFrame q)"
  by (simp add: terminal_last_def)

lemma terminal_lastI: "\<forall>q \<in> set ps. \<not> isTerminalFrame q \<Longrightarrow> terminal_last ps"
  by (auto simp: terminal_last_def dest: in_set_butlastD)

lemma stream_inv_init: "stream_inv att (unat c) (NewStreamValidator att c idle now, [])"
  by (simp add: stream_inv_def NewStreamValidator_def NewStreamValidatorWithOptions_def
      received_bytes_def terminal_last_def)

lemma stream_inv_recv:
  assumes inv: "stream_inv att budget (v, fs)" and small: "small_event (Recv now mf)"
  shows "stream_inv att budget (stream_step (v, fs) (Recv now mf))"
proof (cases rule: Accept_cases[of now v mf])
  case (rejected out)
  then show ?thesis using inv by (cases mf; cases out) simp_all
next
  case (control f p)
  then have "payload_bytes p = []" by (cases p) simp_all
  with control show ?thesis using inv
    by (auto simp: stream_inv_def received_bytes_def frame_payload_def offsets_from_snoc terminal_last_snoc)
next
  case (data f d)
  then have fp: "frame_payload f = Data (v_offset v) d" by (simp add: frame_payload_def)
  with small data have "unat (v_credit v - of_nat (length d)) + length d = unat (v_credit v)"
    by (intro unat_sub_le_64) auto
  with data fp show ?thesis using inv
    by (auto simp: stream_inv_def received_bytes_def offsets_from_snoc terminal_last_snoc isTerminalFrame_def o_def)
qed

lemma stream_inv_grant:
  assumes "stream_inv att budget (v, fs)" and "budget + unat n < 2 ^ 64"
  shows "stream_inv att (budget + unat n) (stream_step (v, fs) (Grant n))"
  using assms by (auto simp: stream_inv_def GrantCredit_def unat_add_64)

lemma stream_inv_run:
  assumes "stream_inv att budget s" and "\<forall>e \<in> set es. small_event e" and "budget + granted es < 2 ^ 64"
  shows "stream_inv att (budget + granted es) (stream_run s es)"
  using assms
proof (induction es arbitrary: s budget)
  case Nil
  then show ?case by (simp add: stream_run_def)
next
  case (Cons e es)
  obtain v fs where s: "s = (v, fs)" by (cases s)
  show ?case
  proof (cases e)
    case (Recv now mf)
    then have "stream_inv att budget (stream_step s e)"
      using Cons.prems s stream_inv_recv[of att budget v fs now mf] by simp
    then show ?thesis using Cons.IH[of budget "stream_step s e"] Cons.prems Recv
      by (simp add: stream_run_def)
  next
    case (Grant n)
    then have "stream_inv att (budget + unat n) (stream_step s e)"
      using Cons.prems s stream_inv_grant[of att budget v fs n] by simp
    then show ?thesis using Cons.IH[of "budget + unat n" "stream_step s e"] Cons.prems Grant
      by (simp add: stream_run_def add.assoc)
  qed
qed


lemma terminal_last_Cons:
  "terminal_last (p # ps) \<longleftrightarrow> (ps \<noteq> [] \<longrightarrow> \<not> isTerminalFrame p \<and> terminal_last ps)"
  by (auto simp: terminal_last_def)

lemma deliver_step:
  assumes "can_deliver v k (p # ps)"
  obtains v' where "Accept now v (Some (mk_frame (v_expectedSeq v) (v_attempt v) p)) = (v', FrameAccepted)"
    and "can_deliver v' (k + length (payload_bytes p)) ps"
    and "v_expectedSeq v' = v_expectedSeq v + 1" and "v_attempt v' = v_attempt v"
    and "unat (v_expectedSeq v') = unat (v_expectedSeq v) + 1"
proof -
  let ?f = "mk_frame (v_expectedSeq v) (v_attempt v) p"
  have pay: "f_Payload ?f = Some p" by (simp add: mk_frame_def)
  have nz: "v_expectedSeq v \<noteq> 0" using assms by (auto simp: can_deliver_def)
  have seq: "unat (v_expectedSeq v + 1) = unat (v_expectedSeq v) + 1"
    by (rule unat_suc_64) (use assms in \<open>simp add: can_deliver_def\<close>)
  have tl: "terminal_last ps" and last: "isTerminalFrame p \<Longrightarrow> ps = []"
    using assms by (cases "ps = []"; simp add: can_deliver_def terminal_last_Cons terminal_last_def)+
  have ref: "validatePayload v p = FrameAccepted"
    using assms by (cases p) (auto simp: can_deliver_def validatePayload_def)
  show ?thesis
  proof (cases "\<exists>off d. p = Data off d")
    case True
    then obtain d where p: "p = Data (v_offset v) d" using assms by (auto simp: can_deliver_def)
    have len: "length d \<le> unat (v_credit v)" using assms p by (simp add: can_deliver_def)
    then have small: "length d < 2 ^ 64" using unat_lt_64[of "v_credit v"] by simp
    then have le: "of_nat (length d) \<le> v_credit v" using len by (simp add: word_le_nat_alt unat_of_nat_64)
    have credit: "unat (v_credit v - of_nat (length d)) + length d = unat (v_credit v)"
      using small le by (rule unat_sub_le_64)
    have "Accept now v (Some ?f) = (v\<lparr>v_expectedSeq := v_expectedSeq v + 1, v_lastActivity := now,
        v_credit := v_credit v - of_nat (length d), v_offset := v_offset v + of_nat (length d)\<rparr>, FrameAccepted)"
      using assms p le nz ref by (subst Accept_eq[OF pay])
        (simp add: mk_frame_def can_deliver_def acceptData_Data isTerminalFrame_def not_less[symmetric])
    then show ?thesis
      by (rule that) (use assms p credit seq tl in \<open>auto simp: can_deliver_def\<close>)
  next
    case False
    then have pb: "payload_bytes p = []" by (cases p) auto
    from False have off: "offsets_from k (p # ps) = offsets_from k ps" by (cases p) auto
    have "Accept now v (Some ?f) = (v\<lparr>v_expectedSeq := v_expectedSeq v + 1, v_lastActivity := now,
        v_terminal := isTerminalFrame p\<rparr>, FrameAccepted)"
      using assms nz ref False by (subst Accept_eq[OF pay])
        (simp add: mk_frame_def can_deliver_def acceptData_other Let_def)
    then show ?thesis
      by (rule that) (use assms seq tl last pb off in \<open>auto simp: can_deliver_def\<close>)
  qed
qed

lemma deliver_duplicate:
  assumes "f_Payload f \<noteq> None" "f_StreamSeq f \<noteq> 0" "f_Attempt f = v_attempt v" "f_StreamSeq f < v_expectedSeq v"
  shows "fst (Accept now v (Some f)) = v \<and> snd (Accept now v (Some f)) \<in> {FrameDuplicate, FrameAfterTerminal}"
  using assms by (auto simp: Accept_eq)

lemma redelivery_run:
  assumes "redelivery ds rest es" and "rest = number_frames (v_attempt v) (v_expectedSeq v) ps"
    and "can_deliver v k ps"
    and "\<forall>f \<in> set ds. f_Payload f \<noteq> None \<and> f_StreamSeq f \<noteq> 0 \<and> f_Attempt f = v_attempt v
           \<and> f_StreamSeq f < v_expectedSeq v"
  shows "snd (stream_run (v, acc) (map (\<lambda>f. Recv now (Some f)) es)) = acc @ rest"
  using assms
proof (induction ds rest es arbitrary: v ps k acc rule: redelivery.induct)
  case (finished ds)
  then show ?case by (simp add: stream_run_def)
next
  case (next_frame ds f fs es)
  from next_frame.prems(1) obtain p ps' where ps: "ps = p # ps'"
    and f: "f = mk_frame (v_expectedSeq v) (v_attempt v) p"
    and fs: "fs = number_frames (v_attempt v) (v_expectedSeq v + 1) ps'" by (cases ps) auto
  from next_frame.prems(2) ps obtain v' where acc': "Accept now v (Some f) = (v', FrameAccepted)"
    and del: "can_deliver v' (k + length (payload_bytes p)) ps'"
    and seq: "v_expectedSeq v' = v_expectedSeq v + 1" "v_attempt v' = v_attempt v"
      "unat (v_expectedSeq v') = unat (v_expectedSeq v) + 1"
    unfolding f by (metis deliver_step)
  have "\<forall>g \<in> set (ds @ [f]). f_Payload g \<noteq> None \<and> f_StreamSeq g \<noteq> 0 \<and> f_Attempt g = v_attempt v'
          \<and> f_StreamSeq g < v_expectedSeq v'"
    using next_frame.prems seq f by (auto simp: mk_frame_def can_deliver_def word_less_nat_alt)
  from next_frame.IH[OF _ del this] fs seq acc' show ?case by (simp add: stream_run_def)
next
  case (repeated f ds fs es)
  have d: "fst (Accept now v (Some f)) = v \<and> snd (Accept now v (Some f)) \<in> {FrameDuplicate, FrameAfterTerminal}"
    using repeated by (intro deliver_duplicate) auto
  then have "stream_step (v, acc) (Recv now (Some f)) = (v, acc)"
    by (cases "Accept now v (Some f)") auto
  with repeated show ?case by (simp add: stream_run_def)
qed

text \<open>
  C1: whatever a peer or the network delivers to one direction of a stream, interleaved with any
  credit grants, the frames the validator accepts are numbered 1, 2, 3, and so on without gap or
  repetition, belong to its attempt, carry the data offsets of one contiguous byte stream, end at
  the first terminal frame, and hold no more bytes than the credit granted.
\<close>

theorem stream_run_contract:
  assumes "\<forall>e \<in> set es. small_event e" and "unat credit + granted es < 2 ^ 64"
    and "stream_run (NewStreamValidator att credit idle now, []) es = (v, fs)"
  shows "map f_StreamSeq fs = map (\<lambda>i. of_nat (Suc i)) [0..<length fs]
    \<and> (\<forall>f \<in> set fs. f_Attempt f = att)
    \<and> offsets_from 0 (map frame_payload fs)
    \<and> terminal_last (map frame_payload fs)
    \<and> v_terminal v = (\<exists>f \<in> set fs. isTerminalFrame (frame_payload f))
    \<and> length (received_bytes fs) + unat (v_credit v) = unat credit + granted es"
  using stream_inv_run [OF stream_inv_init assms(1,2), of att idle now] assms(3)
  by (simp add: stream_inv_def)

lemma stream_run_contract_witness:
  "length (received_bytes (snd (stream_run (NewStreamValidator 1 4 0 0, []) ex_events))) = 5
   \<and> offsets_from 0 (map frame_payload (snd (stream_run (NewStreamValidator 1 4 0 0, []) ex_events)))"
proof -
  have s: "\<forall>e \<in> set ex_events. small_event e" "unat (4 :: uint64) + granted ex_events < 2 ^ 64"
    by (simp_all add: ex_events_def mk_frame_def frame_payload_def)
  have "length (received_bytes (snd (stream_run (NewStreamValidator 1 4 0 0, []) ex_events))) = 5" by code_simp
  then show ?thesis
    using stream_run_contract [OF s(1,2), of 1 0 0] by (metis prod.collapse)
qed

end
