(* ===== verification/Stream_Senders.thy ===== *)
theory Stream_Senders
  imports Stream_Frames
begin

text \<open>
  The senders of both stream directions: Egress' \<open>frameBuilder\<close> with the response body loop
  (\<open>internal/egress/response_frames.go\<close>, \<open>executor.go\<close>) and Control's request side
  (\<open>internal/control/request_stream.go\<close>, \<open>assignment.go\<close>): \<open>c2eStreamSender\<close>, the chunking of an
  inline body, and the upload credit gate.  The locale \<open>frame_source\<close> is the contract the
  receiving validator relies on; every sender is an instance of it.
\<close>

section \<open>Egress: failures and the frame builder\<close>

record executionError =
  xe_code :: ErrorCode
  xe_fact :: string
  xe_timeoutType :: "string option"
  xe_upstreamStatus :: "uint32 option"

definition executorFailure :: "ErrorCode \<Rightarrow> string \<Rightarrow> executionError" where
  "executorFailure code reason = \<lparr>xe_code = code, xe_fact = reason, xe_timeoutType = None, xe_upstreamStatus = None\<rparr>"

definition timeoutFailure :: executionError where
  "timeoutFailure = \<lparr>xe_code = TimeoutExceeded, xe_fact = ''deadline_exceeded_total'',
     xe_timeoutType = Some ''TIMEOUT_TYPE_TOTAL_DEADLINE_TIMEOUT'', xe_upstreamStatus = None\<rparr>"

record frameBuilder =
  b_attempt :: uint32
  b_seq :: uint64

definition newFrameBuilder :: "uint32 \<Rightarrow> frameBuilder" where
  "newFrameBuilder att = \<lparr>b_attempt = att, b_seq = 0\<rparr>"

definition builder_emit :: "frameBuilder \<Rightarrow> 'r payload \<Rightarrow> 'r StreamFrame \<times> frameBuilder" where
  "builder_emit b p = (let b' = b\<lparr>b_seq := b_seq b + 1\<rparr> in (mk_frame (b_seq b') (b_attempt b') p, b'))"

definition outboundStart_payload :: "frameBuilder \<Rightarrow> string \<Rightarrow> uint32 \<Rightarrow> string \<Rightarrow> string \<Rightarrow> int \<Rightarrow> 'r payload" where
  "outboundStart_payload b host port executedProfile upstreamProxyID nowMs =
     OutboundStart \<lparr>os_TargetHost = host, os_TargetPort = port, os_Attempt = b_attempt b,
       os_ExecutedFingerprintProfile = executedProfile, os_UpstreamProxyId = upstreamProxyID,
       os_WorkerTimestampMs = nowMs\<rparr>"

definition outboundStart ::
    "frameBuilder \<Rightarrow> string \<Rightarrow> uint32 \<Rightarrow> string \<Rightarrow> string \<Rightarrow> int \<Rightarrow> 'r StreamFrame \<times> frameBuilder" where
  "outboundStart b host port executedProfile upstreamProxyID nowMs =
     builder_emit b (outboundStart_payload b host port executedProfile upstreamProxyID nowMs)"

definition responseStart :: "frameBuilder \<Rightarrow> uint32 \<Rightarrow> header list \<Rightarrow> 'r StreamFrame \<times> frameBuilder" where
  "responseStart b status headers = builder_emit b (ResponseStart status headers)"

definition data_frame :: "frameBuilder \<Rightarrow> uint64 \<Rightarrow> bytes \<Rightarrow> 'r StreamFrame \<times> frameBuilder" where
  "data_frame b offset d = builder_emit b (Data offset d)"

definition trailers_frame :: "frameBuilder \<Rightarrow> header list \<Rightarrow> 'r StreamFrame \<times> frameBuilder" where
  "trailers_frame b headers = builder_emit b (Trailers headers)"

definition end_frame :: "frameBuilder \<Rightarrow> 'r StreamFrame \<times> frameBuilder" where
  "end_frame b = builder_emit b (EndFrame True)"

definition error_payload :: "executionError \<Rightarrow> 'r payload" where
  "error_payload failure = ErrorP \<lparr>ef_Code = xe_code failure, ef_Message = [],
     ef_Details = [(''fact'', xe_fact failure)], ef_TimeoutType = xe_timeoutType failure,
     ef_UpstreamStatus = xe_upstreamStatus failure, ef_RetryAfterMs = 0\<rparr>"

definition error_frame :: "frameBuilder \<Rightarrow> executionError \<Rightarrow> 'r StreamFrame \<times> frameBuilder" where
  "error_frame b failure = builder_emit b (error_payload failure)"

definition responseStatus :: "int \<Rightarrow> executionError + uint32" where
  "responseStatus status =
     (if status < 0 \<or> status > 999 then Inl (executorFailure ExecutorInternalError ''executor_internal_error'')
      else Inr (of_int status))"

section \<open>Egress: the response body loop\<close>

text \<open>
  A response body is the sequence of results of its \<open>Read\<close> calls: bytes and no error, end of file,
  or a failure (already mapped by \<open>mapHTTPError\<close>).  A body whose script runs out is still open.
\<close>

datatype read_end = NoErr | EOF | ReadErr executionError

datatype body_status = BodyOpen | BodyDone | BodyFailed executionError

fun streamResponseBody ::
    "(bytes \<times> read_end) list \<Rightarrow> header list \<Rightarrow> frameBuilder \<Rightarrow> uint64
      \<Rightarrow> 'r StreamFrame list \<times> frameBuilder \<times> body_status" where
  "streamResponseBody [] trailers b offset = ([], b, BodyOpen)"
| "streamResponseBody ((chunk, err) # rest) trailers b offset =
     (let (fs, b1) = (if chunk \<noteq> [] then (case data_frame b offset chunk of (f, b') \<Rightarrow> ([f], b')) else ([], b));
          offset' = offset + of_nat (length chunk)
      in case err of
           EOF \<Rightarrow> (if trailers \<noteq> [] then (case trailers_frame b1 trailers of (f, b2) \<Rightarrow> (fs @ [f], b2, BodyDone))
                   else (fs, b1, BodyDone))
         | ReadErr e \<Rightarrow> (fs, b1, BodyFailed e)
         | NoErr \<Rightarrow> (case streamResponseBody rest trailers b1 offset' of (gs, b2, st) \<Rightarrow> (fs @ gs, b2, st)))"

text \<open>
  The part of \<open>executeWithDeployment\<close> after the request was validated: the upstream round trip is
  an argument (a failure, or status, headers, body script and trailers).
\<close>

record http_response =
  hr_status :: int
  hr_header :: "header list"
  hr_body :: "(bytes \<times> read_end) list"
  hr_trailer :: "header list"

definition execute_response ::
    "frameBuilder \<Rightarrow> string \<Rightarrow> uint32 \<Rightarrow> string \<Rightarrow> string \<Rightarrow> int \<Rightarrow> executionError + http_response
      \<Rightarrow> 'r StreamFrame list" where
  "execute_response b host port executedProfile upstreamProxyID nowMs reply =
     (let (f0, b0) = outboundStart b host port executedProfile upstreamProxyID nowMs in
      case reply of
        Inl failure \<Rightarrow> [f0, fst (error_frame b0 failure)]
      | Inr resp \<Rightarrow>
         (case responseStatus (hr_status resp) of
            Inl failure \<Rightarrow> [f0, fst (error_frame b0 failure)]
          | Inr status \<Rightarrow>
             (let (f1, b1) = responseStart b0 status (hr_header resp);
                  (fs, b2, st) = streamResponseBody (hr_body resp) (hr_trailer resp) b1 0
              in [f0, f1] @ fs @
                (case st of
                   BodyOpen \<Rightarrow> []
                 | BodyDone \<Rightarrow> [fst (end_frame b2)]
                 | BodyFailed failure \<Rightarrow> [fst (error_frame b2 failure)]))))"

section \<open>Control: the request direction\<close>

abbreviation defaultRequestAttempt :: uint32 where
  "defaultRequestAttempt \<equiv> 1"

definition frameChunkSize :: "nat \<Rightarrow> uint64 \<Rightarrow> nat" where
  "frameChunkSize bodyLen limit =
     (if limit = 0 then bodyLen
      else if unat limit \<ge> 2 ^ 63 \<or> unat limit > bodyLen then bodyLen
      else unat limit)"

lemma frameChunkSize_pos: "0 < n \<Longrightarrow> 0 < frameChunkSize n limit"
  by (auto simp: frameChunkSize_def unat_gt_0)

lemma frameChunkSize_le: "frameChunkSize n limit \<le> n"
  by (auto simp: frameChunkSize_def)

text \<open>
  \<open>publish\<close> stands for \<open>publishFrame\<close> (marshalling and the NATS publish): it may fail on any frame.
  The model returns the frames published and either the error or the last sequence number used.
\<close>

function sendRequestDataFrames ::
    "('r StreamFrame \<Rightarrow> string option) \<Rightarrow> uint64 \<Rightarrow> uint64 \<Rightarrow> uint64 \<Rightarrow> bytes
      \<Rightarrow> 'r StreamFrame list \<times> (string + uint64)" where
  "sendRequestDataFrames publish limit seq offset body =
     (if body = [] then ([], Inr seq)
      else let seq' = seq + 1;
               n = frameChunkSize (length body) limit;
               chunk = take n body;
               f = mk_frame seq' defaultRequestAttempt (Data offset chunk)
           in case publish f of
                Some e \<Rightarrow> ([], Inl e)
              | None \<Rightarrow> (case sendRequestDataFrames publish limit seq' (offset + of_nat (length chunk)) (drop n body) of
                          (fs, r) \<Rightarrow> (f # fs, r)))"
  by pat_completeness auto
termination
  by (relation "measure (\<lambda>(_, _, _, _, body). length body)") (auto simp: frameChunkSize_pos)

declare sendRequestDataFrames.simps [simp del]

datatype request_body = InlineBody bytes | ReceiptBody string | StreamedBody

definition sendRequestStart ::
    "('r StreamFrame \<Rightarrow> string option) \<Rightarrow> string option \<Rightarrow> uint64 \<Rightarrow> 'r \<Rightarrow> request_body
      \<Rightarrow> 'r StreamFrame list \<times> (string + uint64)" where
  "sendRequestStart publish flush limit start body =
     (let f0 = mk_frame 1 defaultRequestAttempt (RequestStart start) in
      case publish f0 of
        Some e \<Rightarrow> ([], Inl e)
      | None \<Rightarrow>
         (let (fs, r) = (case body of
                ReceiptBody ref \<Rightarrow>
                  (let f1 = mk_frame 2 defaultRequestAttempt (BodyRef ref) in
                   case publish f1 of Some e \<Rightarrow> ([], Inl e) | None \<Rightarrow> ([f1], Inr 2))
              | InlineBody d \<Rightarrow>
                  (if d = [] then ([], Inr 1) else sendRequestDataFrames publish limit 1 0 d)
              | StreamedBody \<Rightarrow> ([], Inr 1))
          in case r of
               Inl e \<Rightarrow> (f0 # fs, Inl e)
             | Inr seq \<Rightarrow> (case flush of Some e \<Rightarrow> (f0 # fs, Inl e) | None \<Rightarrow> (f0 # fs, Inr (seq + 1)))))"

record c2eStreamSender =
  c2e_seq :: uint64

definition c2e_publish :: "c2eStreamSender \<Rightarrow> 'r payload \<Rightarrow> 'r StreamFrame \<times> c2eStreamSender" where
  "c2e_publish s p = (mk_frame (c2e_seq s) defaultRequestAttempt p, s\<lparr>c2e_seq := c2e_seq s + 1\<rparr>)"

definition c2e_data :: "c2eStreamSender \<Rightarrow> uint64 \<Rightarrow> bytes \<Rightarrow> 'r StreamFrame \<times> c2eStreamSender" where
  "c2e_data s offset d = c2e_publish s (Data offset d)"

definition c2e_credit :: "c2eStreamSender \<Rightarrow> uint64 \<Rightarrow> 'r StreamFrame list \<times> c2eStreamSender" where
  "c2e_credit s n = (if n = 0 then ([], s) else (case c2e_publish s (Credit 0 n) of (f, s') \<Rightarrow> ([f], s')))"

definition c2e_cancel :: "c2eStreamSender \<Rightarrow> string \<Rightarrow> 'r StreamFrame \<times> c2eStreamSender" where
  "c2e_cancel s reason = c2e_publish s (Cancel reason)"

section \<open>Control: the upload credit gate\<close>

record tunnelUploadGate =
  g_credit :: uint64
  g_closed :: bool

definition newTunnelUploadGate :: "uint64 \<Rightarrow> tunnelUploadGate" where
  "newTunnelUploadGate initial = \<lparr>g_credit = initial, g_closed = False\<rparr>"

definition gate_grant :: "uint64 \<Rightarrow> tunnelUploadGate \<Rightarrow> tunnelUploadGate" where
  "gate_grant n g = (if n = 0 then g else g\<lparr>g_credit := g_credit g + n\<rparr>)"

definition gate_close :: "tunnelUploadGate \<Rightarrow> tunnelUploadGate" where
  "gate_close g = g\<lparr>g_closed := True\<rparr>"

text \<open>One iteration of the wait loop: closed, granted, or blocked on \<open>wake\<close>.\<close>

datatype take_result = TakeClosed | Taken uint64 | TakeBlocked

definition gate_takeMax :: "uint64 \<Rightarrow> tunnelUploadGate \<Rightarrow> tunnelUploadGate \<times> take_result" where
  "gate_takeMax maxBytes g =
     (if g_closed g then (g, TakeClosed)
      else if g_credit g > 0 then
        (let n = min (g_credit g) maxBytes in (g\<lparr>g_credit := g_credit g - n\<rparr>, Taken n))
      else (g, TakeBlocked))"

section \<open>Control: streaming an upload through the gate\<close>

text \<open>
  One turn of the loop in \<open>streamRequestBody\<close>.  \<open>bodySize\<close> is \<open>BodySizeBytes\<close> (negative when unknown),
  \<open>bufLen\<close> the frame limit, \<open>rd\<close> the body reader (what a \<open>Read\<close> of at most that many bytes returns),
  \<open>ctxDone\<close> whether the request context ended.
\<close>

datatype upload_err = UploadCanceled | UploadReadFailed | UploadContextDone

record upload_state =
  u_gate :: tunnelUploadGate
  u_c2e :: c2eStreamSender
  u_offset :: uint64

datatype upload_turn =
    UploadReturn "upload_err option"
  | UploadBlocked
  | UploadContinue upload_state

datatype upload_read_err = UNoErr | UEOF | UOther

definition streamingRequestBodyReadError :: "upload_read_err \<Rightarrow> bool" where
  "streamingRequestBodyReadError e = (case e of UNoErr \<Rightarrow> False | UEOF \<Rightarrow> False | UOther \<Rightarrow> True)"

definition streamRequestBody_turn ::
    "int \<Rightarrow> uint64 \<Rightarrow> (nat \<Rightarrow> bytes \<times> upload_read_err) \<Rightarrow> bool \<Rightarrow> upload_state
      \<Rightarrow> 'r StreamFrame list \<times> upload_turn" where
  "streamRequestBody_turn bodySize bufLen rd ctxDone u =
     (if bodySize \<ge> 0 \<and> uint (u_offset u) \<ge> bodySize then ([], UploadReturn None)
      else case gate_takeMax bufLen (u_gate u) of
        (_, TakeClosed) \<Rightarrow> ([], UploadReturn (Some UploadCanceled))
      | (_, TakeBlocked) \<Rightarrow> ([], UploadBlocked)
      | (g, Taken credit) \<Rightarrow>
         (let (chunk, err) = rd (unat credit);
              (fs, c2e, off) = (if chunk \<noteq> [] then
                  (case c2e_data (u_c2e u) (u_offset u) chunk of
                     (f, c') \<Rightarrow> ([f], c', u_offset u + of_nat (length chunk)))
                else ([], u_c2e u, u_offset u));
              g' = (if of_nat (length chunk) < credit then gate_grant (credit - of_nat (length chunk)) g else g)
          in if streamingRequestBodyReadError err then (fs, UploadReturn (Some UploadReadFailed))
             else if ctxDone then (fs, UploadReturn (Some UploadContextDone))
             else (fs, UploadContinue \<lparr>u_gate = g', u_c2e = c2e, u_offset = off\<rparr>)))"

section \<open>Reference definitions\<close>

text \<open>What the loops are meant to emit, as payload lists.\<close>

fun body_payloads :: "(bytes \<times> read_end) list \<Rightarrow> header list \<Rightarrow> uint64 \<Rightarrow> 'r payload list \<times> body_status" where
  "body_payloads [] trailers offset = ([], BodyOpen)"
| "body_payloads ((chunk, err) # rest) trailers offset =
     (let d = (if chunk \<noteq> [] then [Data offset chunk] else []) in
      case err of
        EOF \<Rightarrow> (d @ (if trailers \<noteq> [] then [Trailers trailers] else []), BodyDone)
      | ReadErr e \<Rightarrow> (d, BodyFailed e)
      | NoErr \<Rightarrow> (case body_payloads rest trailers (offset + of_nat (length chunk)) of (ps, st) \<Rightarrow> (d @ ps, st)))"

fun body_bytes :: "(bytes \<times> read_end) list \<Rightarrow> bytes" where
  "body_bytes [] = []"
| "body_bytes ((chunk, NoErr) # rest) = chunk @ body_bytes rest"
| "body_bytes ((chunk, _) # rest) = chunk"

definition response_payloads ::
    "frameBuilder \<Rightarrow> string \<Rightarrow> uint32 \<Rightarrow> string \<Rightarrow> string \<Rightarrow> int \<Rightarrow> executionError + http_response
      \<Rightarrow> 'r payload list" where
  "response_payloads b host port executedProfile upstreamProxyID nowMs reply =
     outboundStart_payload b host port executedProfile upstreamProxyID nowMs #
     (case reply of
        Inl failure \<Rightarrow> [error_payload failure]
      | Inr resp \<Rightarrow>
         (case responseStatus (hr_status resp) of
            Inl failure \<Rightarrow> [error_payload failure]
          | Inr status \<Rightarrow>
             (case body_payloads (hr_body resp) (hr_trailer resp) 0 of
                (ps, st) \<Rightarrow> ResponseStart status (hr_header resp) # ps @
                  (case st of BodyOpen \<Rightarrow> [] | BodyDone \<Rightarrow> [EndFrame True]
                   | BodyFailed failure \<Rightarrow> [error_payload failure]))))"

function chunk_payloads :: "uint64 \<Rightarrow> uint64 \<Rightarrow> bytes \<Rightarrow> 'r payload list" where
  "chunk_payloads limit offset body =
     (if body = [] then []
      else let n = frameChunkSize (length body) limit in
        Data offset (take n body) # chunk_payloads limit (offset + of_nat n) (drop n body))"
  by pat_completeness auto
termination
  by (relation "measure (\<lambda>(_, _, body). length body)") (auto simp: frameChunkSize_pos)

declare chunk_payloads.simps [simp del]

fun emit_all :: "('s \<Rightarrow> 'r payload \<Rightarrow> 'r StreamFrame \<times> 's) \<Rightarrow> 's \<Rightarrow> 'r payload list \<Rightarrow> 'r StreamFrame list \<times> 's" where
  "emit_all emit s [] = ([], s)"
| "emit_all emit s (p # ps) = (case emit s p of (f, s') \<Rightarrow> case emit_all emit s' ps of (fs, s'') \<Rightarrow> (f # fs, s''))"

definition reply_bytes :: "executionError + http_response \<Rightarrow> bytes" where
  "reply_bytes reply = (case reply of Inl _ \<Rightarrow> []
     | Inr resp \<Rightarrow> (case responseStatus (hr_status resp) of Inl _ \<Rightarrow> [] | Inr _ \<Rightarrow> body_bytes (hr_body resp)))"

datatype gate_op = GateGrant uint64 | GateTake uint64 | GateClose

fun gate_step :: "tunnelUploadGate \<times> nat \<Rightarrow> gate_op \<Rightarrow> tunnelUploadGate \<times> nat" where
  "gate_step (g, taken) (GateGrant n) = (gate_grant n g, taken)"
| "gate_step (g, taken) (GateTake mx) =
     (case gate_takeMax mx g of (g', Taken n) \<Rightarrow> (g', taken + unat n) | (g', _) \<Rightarrow> (g', taken))"
| "gate_step (g, taken) GateClose = (gate_close g, taken)"

fun gate_granted :: "gate_op list \<Rightarrow> nat" where
  "gate_granted [] = 0"
| "gate_granted (GateGrant n # ops) = unat n + gate_granted ops"
| "gate_granted (_ # ops) = gate_granted ops"

definition ex_response :: http_response where
  "ex_response = \<lparr>hr_status = 200, hr_header = [], hr_body = [(''ab'', NoErr), (''c'', EOF)], hr_trailer = []\<rparr>"

section \<open>The sender contract\<close>

locale frame_source =
  fixes emit :: "'s \<Rightarrow> 'r payload \<Rightarrow> 'r StreamFrame \<times> 's"
    and seq_of :: "'s \<Rightarrow> uint64"
    and att_of :: "'s \<Rightarrow> uint32"
  assumes emit_frame: "fst (emit s p) = mk_frame (seq_of s) (att_of s) p"
    and emit_seq: "seq_of (snd (emit s p)) = seq_of s + 1"
    and emit_att: "att_of (snd (emit s p)) = att_of s"
begin

lemma emit_all_numbered: "fst (emit_all emit s ps) = number_frames (att_of s) (seq_of s) ps"
proof (induction ps arbitrary: s)
  case (Cons p ps)
  have "fst (emit_all emit s (p # ps)) = fst (emit s p) # fst (emit_all emit (snd (emit s p)) ps)"
    by (simp split: prod.split)
  then show ?case by (simp add: Cons.IH emit_frame emit_seq emit_att)
qed simp

lemma emit_all_seq: "seq_of (snd (emit_all emit s ps)) = seq_of s + of_nat (length ps)"
proof (induction ps arbitrary: s)
  case (Cons p ps)
  have "snd (emit_all emit s (p # ps)) = snd (emit_all emit (snd (emit s p)) ps)"
    by (simp split: prod.split)
  then show ?case by (simp add: Cons.IH emit_seq)
qed simp

lemma delivered_once:
  assumes "can_deliver v k ps" and "v_expectedSeq v = seq_of s" and "v_attempt v = att_of s"
    and "redelivery [] (fst (emit_all emit s ps)) es"
  shows "snd (stream_run (v, []) (map (\<lambda>f. Recv now (Some f)) es)) = fst (emit_all emit s ps)"
  using redelivery_run[OF assms(4), of v ps k "[]" now] assms by (simp add: emit_all_numbered)

end

interpretation fb: frame_source builder_emit "\<lambda>b. b_seq b + 1" b_attempt
  by unfold_locales (simp_all add: builder_emit_def Let_def)

interpretation c2e: frame_source c2e_publish c2e_seq "\<lambda>_. defaultRequestAttempt"
  by unfold_locales (simp_all add: c2e_publish_def)

section \<open>Lemmas\<close>

lemma number_frames_append:
  "number_frames att seq (ps @ qs) = number_frames att seq ps @ number_frames att (seq + of_nat (length ps)) qs"
  by (induction ps arbitrary: seq) (simp_all add: add.assoc add.commute)

lemma length_number_frames [simp]: "length (number_frames att seq ps) = length ps"
  by (induction ps arbitrary: seq) simp_all

lemma payloads_number_frames [simp]: "map frame_payload (number_frames att seq ps) = ps"
  by (induction ps arbitrary: seq) (simp_all add: mk_frame_def frame_payload_def)

lemma received_bytes_payloads: "received_bytes fs = concat (map payload_bytes (map frame_payload fs))"
  by (simp add: received_bytes_def)

lemma streamResponseBody_payloads:
  assumes "body_payloads script tr off = (ps, st)"
  shows "streamResponseBody script tr b off =
    (number_frames (b_attempt b) (b_seq b + 1) ps, b\<lparr>b_seq := b_seq b + of_nat (length ps)\<rparr>, st)"
  using assms
proof (induction script arbitrary: b off ps st)
  case (Cons x rest)
  obtain chunk err where "x = (chunk, err)" by (cases x)
  with Cons show ?case
    by (cases err) (auto simp: Let_def data_frame_def trailers_frame_def builder_emit_def add.assoc
        add.commute split: prod.splits if_splits)
qed simp

lemma execute_response_payloads:
  "(execute_response b host port prof up t reply :: 'r StreamFrame list) =
     number_frames (b_attempt b) (b_seq b + 1) (response_payloads b host port prof up t reply)"
proof (cases reply)
  case (Inl failure)
  then show ?thesis
    by (simp add: execute_response_def response_payloads_def outboundStart_def error_frame_def builder_emit_def)
next
  case (Inr resp)
  show ?thesis
  proof (cases "responseStatus (hr_status resp)")
    case (Inl failure)
    then show ?thesis using Inr
      by (simp add: execute_response_def response_payloads_def outboundStart_def error_frame_def builder_emit_def)
  next
    case status: (Inr status)
    obtain ps st where ps: "body_payloads (hr_body resp) (hr_trailer resp) 0 = (ps :: 'r payload list, st)"
      by fastforce
    show ?thesis using Inr status ps streamResponseBody_payloads[OF ps]
      by (cases st) (simp_all add: execute_response_def response_payloads_def outboundStart_def error_frame_def
          builder_emit_def responseStart_def end_frame_def number_frames_append add.assoc Let_def)
  qed
qed

lemma body_payloads_contract:
  "body_payloads script tr (of_nat k) = (ps :: 'r payload list, st) \<Longrightarrow>
     (\<forall>qs. offsets_from k (ps @ qs) = offsets_from (k + length (body_bytes script)) qs)
   \<and> concat (map payload_bytes ps) = body_bytes script
   \<and> (\<forall>p \<in> set ps. \<not> isTerminalFrame p \<and> (\<forall>r. p \<noteq> BodyRef r))"
proof (induction script arbitrary: k ps st)
  case (Cons x rest)
  obtain chunk err where x: "x = (chunk, err)" by (cases x)
  obtain ps' st' where rec: "body_payloads rest tr (of_nat (k + length chunk)) = (ps' :: 'r payload list, st')"
    by fastforce
  show ?case
  proof (cases err)
    case NoErr
    then have "ps = (if chunk \<noteq> [] then [Data (of_nat k) chunk] else []) @ ps'"
      using Cons.prems x rec by (auto split: if_splits)
    then show ?thesis using Cons.IH[OF rec] x NoErr by (auto simp: add.assoc isTerminalFrame_def)
  qed (use Cons.prems x in \<open>auto simp: isTerminalFrame_def split: if_splits\<close>)
qed simp

lemma response_payloads_contract:
  assumes ps_def: "(ps :: 'r payload list) = response_payloads b host port prof up t reply"
  shows "offsets_from 0 ps \<and> terminal_last ps \<and> concat (map payload_bytes ps) = reply_bytes reply
      \<and> (\<forall>r. BodyRef r \<notin> set ps)"
proof (cases reply)
  case (Inl failure)
  then show ?thesis
    by (simp add: ps_def response_payloads_def reply_bytes_def outboundStart_payload_def error_payload_def
        terminal_last_Cons isTerminalFrame_def terminal_last_def)
next
  case (Inr resp)
  show ?thesis
  proof (cases "responseStatus (hr_status resp)")
    case (Inl failure)
    then show ?thesis using Inr
      by (simp add: ps_def response_payloads_def reply_bytes_def outboundStart_payload_def error_payload_def
          terminal_last_Cons isTerminalFrame_def terminal_last_def)
  next
    case status: (Inr status)
    obtain qs st where qs: "body_payloads (hr_body resp) (hr_trailer resp) (of_nat 0) = (qs :: 'r payload list, st)"
      by fastforce
    have c: "offsets_from 0 (qs @ rs) = offsets_from (0 + length (body_bytes (hr_body resp))) rs"
      "concat (map payload_bytes qs) = body_bytes (hr_body resp)"
      "\<forall>p \<in> set qs. \<not> isTerminalFrame p \<and> (\<forall>r. p \<noteq> BodyRef r)" for rs
      using body_payloads_contract[OF qs] by auto
    have nt: "\<forall>p \<in> set (butlast qs). \<not> isTerminalFrame p" using c(3) by (auto dest: in_set_butlastD)
    have o: "offsets_from 0 qs" using c(1)[of "[]"] by simp
    show ?thesis using Inr status qs c(2,3) c(1)[of "[EndFrame True]"] c(1)[of "[error_payload f]" for f] o nt
      by (cases st) (auto simp: ps_def response_payloads_def reply_bytes_def outboundStart_payload_def
          error_payload_def terminal_last_def isTerminalFrame_def butlast_append split: if_splits)
  qed
qed

lemma response_delivered:
  assumes "v_expectedSeq v = 1" and "v_offset v = 0" and "\<not> v_terminal v" and "v_attempt v = att"
    and "length (reply_bytes reply) \<le> unat (v_credit v)"
    and "length (response_payloads (newFrameBuilder att) host port prof up t reply :: 'r payload list) < 2 ^ 64 - 1"
    and "redelivery [] (execute_response (newFrameBuilder att) host port prof up t reply :: 'r StreamFrame list) es"
  shows "snd (stream_run (v, []) (map (\<lambda>f. Recv now (Some f)) es)) =
      execute_response (newFrameBuilder att) host port prof up t reply"
proof -
  let ?ps = "response_payloads (newFrameBuilder att) host port prof up t reply :: 'r payload list"
  have "can_deliver v 0 ?ps"
    using response_payloads_contract[of ?ps, OF refl] assms by (simp add: can_deliver_def)
  then show ?thesis
    using redelivery_run[OF assms(7), of v ?ps 0 "[]" now] assms
    by (simp add: execute_response_payloads newFrameBuilder_def)
qed

lemma chunk_payloads_contract:
  "(\<forall>qs :: 'r payload list. offsets_from k (chunk_payloads limit (of_nat k) body @ qs) = offsets_from (k + length body) qs)
   \<and> concat (map payload_bytes (chunk_payloads limit (of_nat k) body :: 'r payload list)) = body
   \<and> (\<forall>p \<in> set (chunk_payloads limit (of_nat k) body :: 'r payload list). \<exists>off d. p = Data off d \<and> d \<noteq> []
        \<and> length d \<le> length body \<and> (limit \<noteq> 0 \<longrightarrow> length d \<le> unat limit \<or> 2 ^ 63 \<le> unat limit))"
proof (induction "length body" arbitrary: k body rule: less_induct)
  case less
  show ?case
  proof (cases "body = []")
    case True
    then show ?thesis by (simp add: chunk_payloads.simps)
  next
    case False
    let ?n = "frameChunkSize (length body) limit"
    have n: "0 < ?n" "?n \<le> length body" using False by (simp_all add: frameChunkSize_pos frameChunkSize_le)
    have lim: "limit \<noteq> 0 \<longrightarrow> ?n \<le> unat limit \<or> 2 ^ 63 \<le> unat limit" by (auto simp: frameChunkSize_def)
    have unf: "chunk_payloads limit (of_nat k) body =
        Data (of_nat k) (take ?n body) # (chunk_payloads limit (of_nat (k + ?n)) (drop ?n body) :: 'r payload list)"
      using False by (subst chunk_payloads.simps) (simp add: Let_def)
    have len: "length (take ?n body) = ?n" "take ?n body \<noteq> []" using n False by auto
    have shorter: "length (drop ?n body) < length body" using n False by simp
    note IH = less[OF shorter, of "k + ?n"]
    have "offsets_from k (chunk_payloads limit (of_nat k) body @ qs) = offsets_from (k + length body) qs" for qs :: "'r payload list"
      unfolding unf using IH n len by (simp add: add.assoc)
    moreover have "concat (map payload_bytes (chunk_payloads limit (of_nat k) body :: 'r payload list)) = body"
      unfolding unf using IH by simp
    moreover have "\<exists>off d. p = Data off d \<and> d \<noteq> [] \<and> length d \<le> length body
        \<and> (limit \<noteq> 0 \<longrightarrow> length d \<le> unat limit \<or> 2 ^ 63 \<le> unat limit)"
      if "p \<in> set (chunk_payloads limit (of_nat k) body :: 'r payload list)" for p
    proof (cases "p = Data (of_nat k) (take ?n body)")
      case True
      then show ?thesis using len lim n by auto
    next
      case False
      then have "p \<in> set (chunk_payloads limit (of_nat (k + ?n)) (drop ?n body))" using that unf by simp
      then obtain off d where "p = Data off d" "d \<noteq> []" "length d \<le> length (drop ?n body)"
          "limit \<noteq> 0 \<longrightarrow> length d \<le> unat limit \<or> 2 ^ 63 \<le> unat limit"
        using IH by blast
      then show ?thesis by auto
    qed
    ultimately show ?thesis by blast
  qed
qed

lemma sendRequestDataFrames_prefix:
  fixes publish :: "'r StreamFrame \<Rightarrow> string option"
  shows "\<exists>m. fst (sendRequestDataFrames publish limit seq offset body) =
       take m (number_frames defaultRequestAttempt (seq + 1) (chunk_payloads limit offset body))
     \<and> (\<forall>s. snd (sendRequestDataFrames publish limit seq offset body) = Inr s \<longrightarrow>
          m = length (chunk_payloads limit offset body :: 'r payload list) \<and> s = seq + of_nat m)
     \<and> (\<forall>f \<in> set (fst (sendRequestDataFrames publish limit seq offset body)). publish f = None)"
proof (induction publish limit seq offset body rule: sendRequestDataFrames.induct)
  case (1 publish limit seq offset body)
  show ?case
  proof (cases "body = []")
    case True
    then show ?thesis by (auto simp: sendRequestDataFrames.simps chunk_payloads.simps)
  next
    case False
    let ?n = "frameChunkSize (length body) limit"
    let ?f = "mk_frame (seq + 1) defaultRequestAttempt (Data offset (take ?n body)) :: 'r StreamFrame"
    have len: "length (take ?n body) = ?n" by (simp add: frameChunkSize_le)
    have unf: "(chunk_payloads limit offset body :: 'r payload list) =
        Data offset (take ?n body) # chunk_payloads limit (offset + of_nat ?n) (drop ?n body)"
      using False by (subst chunk_payloads.simps) (simp add: Let_def)
    show ?thesis
    proof (cases "publish ?f")
      case (Some e)
      then show ?thesis using False
        by (intro exI[of _ 0]) (simp add: sendRequestDataFrames.simps[of publish limit seq offset body] Let_def)
    next
      case None
      let ?r = "sendRequestDataFrames publish limit (seq + 1) (offset + of_nat ?n) (drop ?n body)"
      have "\<exists>m. fst ?r = take m (number_frames defaultRequestAttempt (seq + 1 + 1)
            (chunk_payloads limit (offset + of_nat ?n) (drop ?n body)))
          \<and> (\<forall>s. snd ?r = Inr s \<longrightarrow> m = length (chunk_payloads limit (offset + of_nat ?n) (drop ?n body) :: 'r payload list)
               \<and> s = seq + 1 + of_nat m)
          \<and> (\<forall>f \<in> set (fst ?r). publish f = None)"
        using 1[OF False refl refl refl refl] None len by simp
      then obtain m where m: "fst ?r = take m (number_frames defaultRequestAttempt (seq + 1 + 1)
            (chunk_payloads limit (offset + of_nat ?n) (drop ?n body)))"
          "\<forall>s. snd ?r = Inr s \<longrightarrow> m = length (chunk_payloads limit (offset + of_nat ?n) (drop ?n body) :: 'r payload list)
               \<and> s = seq + 1 + of_nat m"
          "\<forall>f \<in> set (fst ?r). publish f = None" by blast
      have "sendRequestDataFrames publish limit seq offset body = (?f # fst ?r, snd ?r)"
        using False None len
        by (subst sendRequestDataFrames.simps) (simp add: Let_def split: prod.split)
      then show ?thesis using m None unf
        by (intro exI[of _ "Suc m"]) (auto simp: add.assoc)
    qed
  qed
qed

text \<open>With a transport that accepts every frame, the whole request is published.\<close>

lemma sendRequestStart_inline:
  "sendRequestStart (\<lambda>_. None) None limit start (InlineBody d) =
     (number_frames defaultRequestAttempt 1 (RequestStart (start :: 'r) # chunk_payloads limit 0 d),
      Inr (of_nat (length (chunk_payloads limit 0 d :: 'r payload list)) + 2))"
proof -
  obtain m where m: "fst (sendRequestDataFrames (\<lambda>_. None) limit 1 0 d) =
       take m (number_frames defaultRequestAttempt (1 + 1) (chunk_payloads limit 0 d :: 'r payload list))"
     "\<forall>s. snd (sendRequestDataFrames (\<lambda>_ :: 'r StreamFrame. None) limit 1 0 d) = Inr s \<longrightarrow>
          m = length (chunk_payloads limit 0 d :: 'r payload list) \<and> s = 1 + of_nat m"
    using sendRequestDataFrames_prefix[of "\<lambda>_ :: 'r StreamFrame. None" limit 1 0 d] by blast
  have total_send: "\<exists>s. snd (sendRequestDataFrames (\<lambda>_ :: 'r StreamFrame. None) l q off b) = Inr s" for l q off b
  proof (induction "length b" arbitrary: b q off rule: less_induct)
    case less
    show ?case
    proof (cases "b = []")
      case False
      then have "length (drop (frameChunkSize (length b) l) b) < length b" by (simp add: frameChunkSize_pos)
      from less[OF this] False show ?thesis
        by (subst sendRequestDataFrames.simps) (simp add: Let_def split: prod.splits, metis snd_conv)
    qed (simp add: sendRequestDataFrames.simps)
  qed
  obtain s where "snd (sendRequestDataFrames (\<lambda>_ :: 'r StreamFrame. None) limit 1 0 d) = Inr s"
    using total_send by blast
  with m have "sendRequestDataFrames (\<lambda>_. None) limit 1 0 d =
      (number_frames defaultRequestAttempt 2 (chunk_payloads limit 0 d :: 'r payload list),
       Inr (1 + of_nat (length (chunk_payloads limit 0 d :: 'r payload list))))"
    by (auto simp: prod_eq_iff)
  then show ?thesis
    by (auto simp: sendRequestStart_def chunk_payloads.simps Let_def add.commute add.left_commute)
qed

lemma gate_step_conserves:
  assumes "unat (g_credit g) + taken = budget" and "budget + gate_granted [op] < 2 ^ 64"
  shows "unat (g_credit (fst (gate_step (g, taken) op))) + snd (gate_step (g, taken) op) = budget + gate_granted [op]"
proof (cases op)
  case (GateTake mx)
  have "unat (g_credit g - min (g_credit g) mx) + unat (min (g_credit g) mx) = unat (g_credit g)"
    by (simp add: min_def unat_sub word_le_nat_alt)
  then show ?thesis using assms GateTake by (auto simp: gate_takeMax_def Let_def)
qed (use assms in \<open>auto simp: gate_grant_def gate_close_def unat_add_64\<close>)

lemma gate_run_conserves:
  assumes "unat (g_credit g) + taken = budget" and "budget + gate_granted ops < 2 ^ 64"
  shows "unat (g_credit (fst (foldl gate_step (g, taken) ops))) + snd (foldl gate_step (g, taken) ops)
       = budget + gate_granted ops"
  using assms
proof (induction ops arbitrary: g taken budget)
  case (Cons op ops)
  have split: "gate_granted (op # ops) = gate_granted [op] + gate_granted ops" by (cases op) auto
  obtain g' taken' where st: "gate_step (g, taken) op = (g', taken')" by fastforce
  then have "unat (g_credit g') + taken' = budget + gate_granted [op]"
    using gate_step_conserves[of g taken budget op] Cons.prems split by simp
  from Cons.IH[OF this] show ?case using Cons.prems split st by simp
qed simp

lemma upload_turn_frames:
  assumes "streamRequestBody_turn bodySize bufLen rd ctxDone u = (fs, r)"
  shows "fs = [] \<or> (\<exists>d. d \<noteq> [] \<and> fs = [mk_frame (c2e_seq (u_c2e u)) defaultRequestAttempt (Data (u_offset u) d)])"
  using assms unfolding streamRequestBody_turn_def
  by (auto simp: Let_def c2e_data_def c2e_publish_def split: if_splits take_result.splits prod.splits)

lemma upload_eof_spins:
  assumes "bodySize < 0" and "\<not> g_closed (u_gate u)" and "0 < g_credit (u_gate u)" and "0 < bufLen"
    and "rd = (\<lambda>_. ([], UEOF))"
  shows "streamRequestBody_turn bodySize bufLen rd False u = ([] :: 'r StreamFrame list, UploadContinue u)"
  using assms
  by (auto simp: streamRequestBody_turn_def gate_takeMax_def gate_grant_def Let_def
      streamingRequestBodyReadError_def min_def)

lemma redelivery_self: "redelivery ds fs fs"
  by (induction fs arbitrary: ds) (auto intro: redelivery.intros)

lemma map_frame_payload_number: "map frame_payload (number_frames att seq ps) = ps"
  by (induction ps arbitrary: seq) (simp_all add: frame_payload_def mk_frame_def)

lemma chunk_count:
  "\<forall>p \<in> set ps. payload_bytes p \<noteq> [] \<Longrightarrow> length ps \<le> length (concat (map payload_bytes ps))"
proof (induction ps)
  case (Cons p ps)
  then have "Suc 0 \<le> length (payload_bytes p)" by (cases "payload_bytes p") auto
  moreover have "length ps \<le> length (concat (map payload_bytes ps))" using Cons by simp
  ultimately show ?case unfolding list.map concat.simps length_append list.size by linarith
qed simp





text \<open>
  C24: the upload gate never hands out more credit than it started with and was granted, and what it
  still holds is exactly the rest, whatever the order of grants, takes and closes.
\<close>

theorem gate_conserves_credit:
  assumes "unat initial + gate_granted ops < 2 ^ 64"
    and "foldl gate_step (newTunnelUploadGate initial, 0) ops = (g, taken)"
  shows "unat (g_credit g) + taken = unat initial + gate_granted ops"
  using gate_run_conserves [of "newTunnelUploadGate initial" 0 "unat initial" ops] assms
  by (simp add: newTunnelUploadGate_def)

lemma gate_conserves_credit_witness:
  "snd (foldl gate_step (newTunnelUploadGate 4, 0) [GateTake 3, GateGrant 5, GateTake 9]) = 9"
proof -
  have c: "unat (4 :: uint64) + gate_granted [GateTake 3, GateGrant 5, GateTake 9] < 2 ^ 64" by simp
  have z: "g_credit (fst (foldl gate_step (newTunnelUploadGate 4, 0) [GateTake 3, GateGrant 5, GateTake 9])) = 0" by code_simp
  show ?thesis
    using gate_conserves_credit [OF c prod.collapse [symmetric]] z by simp
qed

text \<open>
  C40: when the size of an upload is unknown, a reader at end of file makes the upload loop turn
  without publishing a frame, without using credit and without returning: each turn leads back to
  the same state, until the gate closes or the context ends.
\<close>

theorem upload_spins_at_eof:
  assumes "bodySize < 0" "\<not> g_closed (u_gate u)" "0 < g_credit (u_gate u)" "0 < bufLen"
  shows "streamRequestBody_turn bodySize bufLen (\<lambda>_. ([], UEOF)) False u = ([] :: 'r StreamFrame list, UploadContinue u)"
  using upload_eof_spins [OF assms refl] .

lemma upload_spins_at_eof_witness:
  "streamRequestBody_turn (- 1) 16 (\<lambda>_. ([], UEOF)) False \<lparr>u_gate = newTunnelUploadGate 8, u_c2e = \<lparr>c2e_seq = 2\<rparr>, u_offset = 0\<rparr>
    = ([] :: string StreamFrame list, UploadContinue \<lparr>u_gate = newTunnelUploadGate 8, u_c2e = \<lparr>c2e_seq = 2\<rparr>, u_offset = 0\<rparr>)"
  by (rule upload_spins_at_eof) (simp_all add: newTunnelUploadGate_def)

end
