(* ===== verification/Egress_Policy.thy ===== *)
theory Egress_Policy
  imports Dest_Policy Stream_Senders
begin

text \<open>
  Egress' side of the destination policy (\<open>internal/egress/execution_error.go\<close>, \<open>executor.go\<close>,
  \<open>resolver.go\<close>, \<open>upstream_proxy.go\<close>): what it checks about the target host, the resolved
  addresses and the CNAME chain before it dials, and how Go errors become executor errors.
\<close>

section \<open>Errors of the transport\<close>

text \<open>
  A Go error as \<open>mapHTTPError\<close> looks at it: whether \<open>errors.As\<close> finds an \<open>executionError\<close> or an
  HTTP/2 stream error in it, which sentinel errors \<open>errors.Is\<close> finds, and its text.
\<close>

record go_error =
  ge_exec :: "executionError option"
  ge_deadline :: bool
  ge_canceled :: bool
  ge_h2 :: "nat option"
  ge_refused :: bool
  ge_eof :: bool
  ge_text :: string

datatype ctx_err = CtxNone | CtxDeadlineExceeded | CtxCanceled

fun contains_str :: "string \<Rightarrow> string \<Rightarrow> bool" where
  "contains_str [] sub = (sub = [])"
| "contains_str (c # s) sub = (has_prefix (c # s) sub \<or> contains_str s sub)"

definition mapHTTP2StreamError :: "nat \<Rightarrow> executionError" where
  "mapHTTP2StreamError code =
     (if code = 10 then executorFailure UpstreamConnectionRefused ''upstream_connection_refused''
      else if code = 12 then executorFailure UpstreamTLSFailure ''upstream_tls_failure''
      else if code = 11 then executorFailure UpstreamReset ''enhance_your_calm''
      else if code = 13 then executorFailure UpstreamReset ''http_1_1_required''
      else executorFailure UpstreamReset ''upstream_reset'')"

definition mapHTTP2Error :: "go_error \<Rightarrow> executionError option" where
  "mapHTTP2Error err = (case ge_h2 err of
     Some code \<Rightarrow> Some (mapHTTP2StreamError code)
   | None \<Rightarrow>
      (let s = to_lower (ge_text err) in
       if contains_str s ''http2'' \<and> contains_str s ''stream'' then
         (if contains_str s ''refused_stream'' then Some (executorFailure UpstreamReset ''upstream_reset'')
          else if contains_str s ''http_1_1_required'' then Some (executorFailure UpstreamReset ''http_1_1_required'')
          else None)
       else None))"

definition looksLikeTLSError :: "go_error \<Rightarrow> bool" where
  "looksLikeTLSError err = (let s = to_lower (ge_text err) in contains_str s ''tls'' \<or> contains_str s ''certificate'')"

definition mapHTTPErrorOther :: "go_error \<Rightarrow> executionError" where
  "mapHTTPErrorOther err = (case mapHTTP2Error err of
     Some e \<Rightarrow> e
   | None \<Rightarrow>
      if ge_refused err then executorFailure UpstreamConnectionRefused ''tcp_refused''
      else if ge_eof err then executorFailure UpstreamReset ''upstream_reset_before_headers''
      else if looksLikeTLSError err then executorFailure UpstreamTLSFailure ''tls_handshake_failed''
      else executorFailure ExecutorInternalError ''executor_internal_error'')"

definition mapHTTPError :: "ctx_err \<Rightarrow> go_error \<Rightarrow> executionError" where
  "mapHTTPError ctx err = (case ge_exec err of
     Some failure \<Rightarrow> failure
   | None \<Rightarrow>
      if ctx = CtxDeadlineExceeded \<or> ge_deadline err then timeoutFailure
      else if ctx = CtxCanceled \<or> ge_canceled err then executorFailure Cancelled ''request_cancelled''
      else mapHTTPErrorOther err)"

section \<open>Address policy\<close>

definition netIPAddr :: "bytes \<Rightarrow> Addr option" where
  "netIPAddr ip = (case To4 ip of Some v4 \<Rightarrow> AddrFromSlice v4 | None \<Rightarrow> AddrFromSlice ip)"

fun parsePrefixes :: "string list \<Rightarrow> executionError + Prefix list" where
  "parsePrefixes [] = Inr []"
| "parsePrefixes (s # ss) = (case ParsePrefix s of
     None \<Rightarrow> Inl (executorFailure ExecutorInternalError ''invalid_destination_policy'')
   | Some p \<Rightarrow> (case parsePrefixes ss of Inl e \<Rightarrow> Inl e | Inr ps \<Rightarrow> Inr (p # ps)))"

definition prefixesContain :: "Prefix list \<Rightarrow> Addr \<Rightarrow> bool" where
  "prefixesContain ps a \<longleftrightarrow> list_ex (\<lambda>p. prefix_contains p a) ps"

definition isMetadataIP :: "Addr \<Rightarrow> bool" where
  "isMetadataIP a \<longleftrightarrow> a \<in> set [ip4 169 254 169 254, ip4 169 254 169 253, ip4 169 254 170 2,
     ip4 100 100 100 200, ip4 100 100 100 201]"

definition egress_defaultDeniedPrefixes :: "Prefix list" where
  "egress_defaultDeniedPrefixes = [
     Prefix (ip4 0 0 0 0) 8, Prefix (ip4 100 64 0 0) 10, Prefix (ip4 192 0 0 0) 24,
     Prefix (ip4 192 0 2 0) 24, Prefix (ip4 192 88 99 0) 24, Prefix (ip4 198 18 0 0) 15,
     Prefix (ip4 198 51 100 0) 24, Prefix (ip4 203 0 113 0) 24, Prefix (ip4 240 0 0 0) 4,
     Prefix (ip4 255 255 255 255) 32, Prefix (V6 0 []) 128,
     Prefix (V6 0x0064ff9b000000000000000000000000 []) 96,
     Prefix (V6 0x01000000000000000000000000000000 []) 64,
     Prefix (V6 0x00000000000000000000ffff00000000 []) 96]"

definition blockedUnless :: "bool \<Rightarrow> bool \<Rightarrow> bool" where
  "blockedUnless allowed blocked \<longleftrightarrow> blocked \<and> \<not> allowed"

definition deniedByDefault :: "DestinationPolicy \<Rightarrow> Addr \<Rightarrow> bool" where
  "deniedByDefault policy a =
     (if blockedUnless (dp_AllowMetadataIps policy) (isMetadataIP a) then True
      else if blockedUnless (dp_AllowLoopback policy) (IsLoopback a) then True
      else if blockedUnless (dp_AllowLinkLocal policy) (IsLinkLocalUnicast a) then True
      else if blockedUnless (dp_AllowMulticast policy) (IsMulticast a) then True
      else if blockedUnless (dp_AllowPrivateRanges policy) (IsPrivate a) then True
      else prefixesContain egress_defaultDeniedPrefixes a)"

definition denied_ip :: executionError where
  "denied_ip = executorFailure DestinationDenied ''dns_denied_ip''"

definition validateResolvedIP :: "DestinationPolicy option \<Rightarrow> Addr \<Rightarrow> executionError option" where
  "validateResolvedIP mpolicy a = (case mpolicy of
     None \<Rightarrow> Some (executorFailure ExecutorInternalError ''invalid_destination_policy'')
   | Some policy \<Rightarrow>
      if Is4In6 a then Some denied_ip
      else case parsePrefixes (dp_AllowedCidrs policy) of
        Inl e \<Rightarrow> Some e
      | Inr allowed \<Rightarrow>
          if prefixesContain allowed a then None
          else case parsePrefixes (dp_DeniedCidrs policy) of
            Inl e \<Rightarrow> Some e
          | Inr denied \<Rightarrow>
              if prefixesContain denied a then Some denied_ip
              else if deniedByDefault policy a then Some denied_ip
              else None)"

section \<open>Host and CNAME policy\<close>

definition matchesAnySuffix :: "string \<Rightarrow> string list \<Rightarrow> bool" where
  "matchesAnySuffix host suffixes \<longleftrightarrow> list_ex (hostMatchesSuffix host) suffixes"

definition policy_host_suffixes :: "DestinationPolicy option \<Rightarrow> string list" where
  "policy_host_suffixes mp = (case mp of None \<Rightarrow> [] | Some p \<Rightarrow> dp_DeniedHostSuffixes p)"

definition policy_cname_suffixes :: "DestinationPolicy option \<Rightarrow> string list" where
  "policy_cname_suffixes mp = (case mp of None \<Rightarrow> [] | Some p \<Rightarrow> dp_DeniedCnameSuffixes p)"

definition validateHostSuffixPolicy :: "string \<Rightarrow> DestinationPolicy option \<Rightarrow> executionError option" where
  "validateHostSuffixPolicy host mp =
     (if matchesAnySuffix host (policy_host_suffixes mp)
      then Some (executorFailure DestinationDenied ''host_denied_suffix'') else None)"

text \<open>\<open>lookup\<close> is \<open>Resolver.LookupCNAME\<close>: \<open>None\<close> when it fails.\<close>

definition validateCNAMESuffixPolicy ::
    "(string \<Rightarrow> string list option) \<Rightarrow> string \<Rightarrow> DestinationPolicy option \<Rightarrow> executionError option" where
  "validateCNAMESuffixPolicy lookup host mp =
     (let suffixes = policy_cname_suffixes mp in
      if suffixes = [] then None
      else case lookup host of
        None \<Rightarrow> None
      | Some cnames \<Rightarrow>
          (let normalizedHost = trim_suffix (to_lower host) ''.'' in
           if list_ex (\<lambda>cname. let cn = trim_suffix (to_lower cname) ''.'' in
                cn \<noteq> [] \<and> cn \<noteq> normalizedHost \<and> matchesAnySuffix cn suffixes) cnames
           then Some (executorFailure DestinationDenied ''cname_denied_suffix'') else None))"

section \<open>Dialling\<close>

text \<open>\<open>lookupIP\<close> is \<open>Resolver.LookupIPAddr\<close>, \<open>ctx\<close> the context error at the time of the check.\<close>

fun validate_ips :: "DestinationPolicy option \<Rightarrow> bytes list \<Rightarrow> executionError + Addr list" where
  "validate_ips mp [] = Inr []"
| "validate_ips mp (ip # ips) = (case netIPAddr ip of
     None \<Rightarrow> Inl (executorFailure UpstreamDNSFailure ''dns_no_records'')
   | Some a \<Rightarrow> (case validateResolvedIP mp a of
        Some e \<Rightarrow> Inl e
      | None \<Rightarrow> (case validate_ips mp ips of Inl e \<Rightarrow> Inl e | Inr as \<Rightarrow> Inr (a # as))))"

definition validatedIPs ::
    "(string \<Rightarrow> bytes list option) \<Rightarrow> (string \<Rightarrow> string list option) \<Rightarrow> ctx_err \<Rightarrow> string
      \<Rightarrow> DestinationPolicy option \<Rightarrow> executionError + Addr list" where
  "validatedIPs lookupIP lookupCNAME ctx host mp =
     (case lookupIP host of
        Some (ip # ips) \<Rightarrow>
          (case validate_ips mp (ip # ips) of
             Inl e \<Rightarrow> Inl e
           | Inr addrs \<Rightarrow> (case validateCNAMESuffixPolicy lookupCNAME host mp of
                             Some e \<Rightarrow> Inl e | None \<Rightarrow> Inr addrs))
      | _ \<Rightarrow> if ctx = CtxDeadlineExceeded then Inl timeoutFailure
             else Inl (executorFailure UpstreamDNSFailure ''dns_no_records''))"

text \<open>
  \<open>dialValidated\<close> returns the address it hands to the dialler; \<open>hostport\<close> is the result of
  \<open>net.SplitHostPort\<close> on its argument.
\<close>

definition dialValidated ::
    "(string \<Rightarrow> bytes list option) \<Rightarrow> (string \<Rightarrow> string list option) \<Rightarrow> ctx_err
      \<Rightarrow> (string \<times> string) option \<Rightarrow> DestinationPolicy option \<Rightarrow> executionError + (Addr \<times> string)" where
  "dialValidated lookupIP lookupCNAME ctx hostport mp = (case hostport of
     None \<Rightarrow> Inl (executorFailure ExecutorInternalError ''invalid_request_start'')
   | Some (host, port) \<Rightarrow>
      (case validatedIPs lookupIP lookupCNAME ctx host mp of
         Inl e \<Rightarrow> Inl e
       | Inr ips \<Rightarrow> Inr (hd ips, port)))"

section \<open>The CNAME chain\<close>

text \<open>
  \<open>queryCNAME server name\<close> is one DNS exchange: \<open>None\<close> when it fails, otherwise the CNAMEs of the
  answer section.  \<open>ask_servers\<close> is the inner loop of \<open>lookupCNAMEChain\<close>: whether some server failed
  before the first one that answered, and the next hop.  The outer loop ends when a name repeats;
  its fuel bounds the hops followed.
\<close>

fun ask_servers :: "(string \<Rightarrow> string \<Rightarrow> string list option) \<Rightarrow> string list \<Rightarrow> string \<Rightarrow> bool \<Rightarrow> bool \<times> string" where
  "ask_servers queryCNAME [] current failed = (failed, [])"
| "ask_servers queryCNAME (server # servers) current failed = (case queryCNAME server current of
     Some [] \<Rightarrow> (failed, [])
   | Some (cname # _) \<Rightarrow> (failed, cname)
   | None \<Rightarrow> ask_servers queryCNAME servers current True)"

fun cname_chain :: "nat \<Rightarrow> (string \<Rightarrow> bool \<times> string) \<Rightarrow> string list \<Rightarrow> string \<Rightarrow> string list
    \<Rightarrow> (unit + string list) option" where
  "cname_chain 0 ask visited current chain = (if current \<in> set visited then Some (Inr chain) else None)"
| "cname_chain (Suc k) ask visited current chain =
     (if current \<in> set visited then Some (Inr chain)
      else case ask current of (failed, nextHop) \<Rightarrow>
        if nextHop = [] then
          (if failed \<and> chain = [] then Some (Inl ()) else Some (Inr chain))
        else cname_chain k ask (current # visited) nextHop (chain @ [nextHop]))"

definition lookupCNAMEChain ::
    "nat \<Rightarrow> (string \<Rightarrow> string \<Rightarrow> string list option) \<Rightarrow> string list \<Rightarrow> string \<Rightarrow> (unit + string list) option" where
  "lookupCNAMEChain fuel queryCNAME nameservers host =
     (let servers = nameservers @ [''8.8.8.8'', ''1.1.1.1''] in
      cname_chain fuel (\<lambda>current. ask_servers queryCNAME servers current False) []
        (trim_suffix (to_lower host) ''.'') [])"

section \<open>Literal targets and proxy binding\<close>

datatype RequestMode = DECODED_HTTP | RAW_TUNNEL | MODE_OTHER

record parsed_url =
  pu_scheme :: string
  pu_hostname :: string
  pu_port :: string

record RequestStartMsg =
  rs_Mode :: RequestMode
  rs_Method :: string
  rs_Url :: "parsed_url option"
  rs_Headers :: "header list"
  rs_SelectedPoolId :: string
  rs_Replayable :: bool
  rs_FingerprintInstruction :: string
  rs_InjectionOperations :: "resolved_op list"
  rs_RedirectNoFollow :: bool
  rs_DestinationPolicy :: "DestinationPolicy option"
  rs_UpstreamProxyId :: "string option"

definition resolution_mode :: "RequestStartMsg \<Rightarrow> ResolutionMode" where
  "resolution_mode start = (case rs_DestinationPolicy start of None \<Rightarrow> RESOLUTION_OTHER | Some p \<Rightarrow> dp_ResolutionMode p)"

definition upstreamProxyInstructionFailure :: executionError where
  "upstreamProxyInstructionFailure = executorFailure ExecutorInternalError ''upstream_proxy_instruction_invalid''"

definition validateRemoteLiteralTarget :: "RequestStartMsg \<Rightarrow> string \<Rightarrow> executionError option" where
  "validateRemoteLiteralTarget start host =
     (if resolution_mode start \<noteq> UPSTREAM_PROXY_REMOTE then None
      else case ParseAddr host of None \<Rightarrow> None | Some a \<Rightarrow> validateResolvedIP (rs_DestinationPolicy start) a)"

text \<open>\<open>profiles\<close> maps a configured proxy id to the id its profile carries; \<open>pools\<close> binds pool ids.\<close>

definition validateUpstreamProxyBinding ::
    "RequestStartMsg \<Rightarrow> (string \<rightharpoonup> string) \<Rightarrow> (string \<rightharpoonup> string) \<Rightarrow> string \<times> executionError option" where
  "validateUpstreamProxyBinding start profiles pools =
     (if rs_DestinationPolicy start = None \<or> resolution_mode start = RESOLUTION_OTHER then ([], None)
      else case pools (rs_SelectedPoolId start) of
        Some boundID \<Rightarrow>
          if resolution_mode start \<noteq> UPSTREAM_PROXY_REMOTE \<or> rs_UpstreamProxyId start \<noteq> Some boundID
             \<or> profiles boundID \<noteq> Some boundID
          then (boundID, Some upstreamProxyInstructionFailure) else (boundID, None)
      | None \<Rightarrow>
          if resolution_mode start \<noteq> DIRECT_LOCAL \<or> rs_UpstreamProxyId start \<noteq> None
          then (case rs_UpstreamProxyId start of Some i \<Rightarrow> i | None \<Rightarrow> [], Some upstreamProxyInstructionFailure)
          else ([], None))"

section \<open>Addresses handed to the dialler\<close>

definition public_addr :: "Addr \<Rightarrow> bool" where
  "public_addr a \<longleftrightarrow> \<not> Is4In6 a \<and> \<not> isMetadataIP a \<and> \<not> IsLoopback a \<and> \<not> IsLinkLocalUnicast a
     \<and> \<not> IsMulticast a \<and> \<not> IsPrivate a \<and> \<not> prefixesContain egress_defaultDeniedPrefixes a"

definition rule_cidrs :: "DenyRule \<Rightarrow> string list \<times> string list" where
  "rule_cidrs r = (if dr_Enabled r \<and> dr_RuleType r \<in> set denyRuleCIDRTypes
     then compileCIDRDenyRule r ([], []) else ([], []))"

definition cidr_override :: "DenyRule \<Rightarrow> bool" where
  "cidr_override r \<longleftrightarrow> dr_Enabled r \<and> dr_RuleType r \<in> set denyRuleCIDRTypes \<and> dr_Action r = ''allow_override''"

definition dial_allowed :: "DenyRule list \<Rightarrow> Addr \<Rightarrow> bool" where
  "dial_allowed rules a \<longleftrightarrow> public_addr a \<and> \<not> has_zone a \<and>
     (\<forall>r \<in> set rules. dr_Enabled r \<longrightarrow> dr_RuleType r \<in> {''cidr'', ''private_range''} \<longrightarrow>
        dr_Action r \<noteq> ''allow_override'' \<longrightarrow>
        (\<forall>p. ParsePrefix (dr_NormalizedCIDR r) = Some p \<longrightarrow> \<not> prefix_contains p a))"

fun cname_path :: "(string \<Rightarrow> string) \<Rightarrow> string \<Rightarrow> string list \<Rightarrow> bool" where
  "cname_path f x [] = True"
| "cname_path f x (y # ys) = (y = f x \<and> y \<noteq> [] \<and> cname_path f y ys)"

definition host_rule :: "string \<Rightarrow> DenyRule \<Rightarrow> bool" where
  "host_rule host r \<longleftrightarrow> dr_Enabled r \<and> dr_RuleType r \<in> set denyRuleHostTypes \<and> hostMatchesDenyRule host r"

definition ex_rule :: "string \<Rightarrow> string \<Rightarrow> string \<Rightarrow> DenyRule" where
  "ex_rule t act v = \<lparr>dr_ID = ''r'', dr_RuleType = t, dr_Action = act, dr_Enabled = True, dr_Reason = [],
     dr_RawPattern = v, dr_NormalizedHost = v, dr_NormalizedCIDR = v, dr_NormalizedIP = v, dr_NormalizedName = v\<rparr>"

definition ex_lookup :: "string \<Rightarrow> bytes list option" where
  "ex_lookup host = (if host = ''example.com'' then Some [[CHR 0x5D, CHR 0xB8, CHR 0xD8, CHR 0x22]] else None)"

definition ex_query :: "string \<Rightarrow> string \<Rightarrow> string list option" where
  "ex_query server x = (if server = ''8.8.8.8'' then None else if x = ''a'' then Some [''b''] else if x = ''b'' then Some [''a''] else Some [])"

definition ex_canceled :: go_error where
  "ex_canceled = \<lparr>ge_exec = None, ge_deadline = False, ge_canceled = True, ge_h2 = None, ge_refused = False,
     ge_eof = False, ge_text = ''context canceled''\<rparr>"

definition cidrs_parse :: "DestinationPolicy \<Rightarrow> bool" where
  "cidrs_parse p \<longleftrightarrow> list_all (\<lambda>s. ParsePrefix s \<noteq> None) (dp_AllowedCidrs p)
     \<and> list_all (\<lambda>s. ParsePrefix s \<noteq> None) (dp_DeniedCidrs p)"

definition flags_off :: "DestinationPolicy \<Rightarrow> bool" where
  "flags_off p \<longleftrightarrow> \<not> dp_AllowLoopback p \<and> \<not> dp_AllowPrivateRanges p \<and> \<not> dp_AllowLinkLocal p
     \<and> \<not> dp_AllowMulticast p \<and> \<not> dp_AllowMetadataIps p"

lemma parsePrefixes_Inr:
  "(\<exists>ps. parsePrefixes ss = Inr ps) \<longleftrightarrow> list_all (\<lambda>s. ParsePrefix s \<noteq> None) ss"
  by (induction ss) (auto split: option.splits sum.splits)

lemma parsePrefixes_parseCIDRs: "parsePrefixes ss = Inr ps \<Longrightarrow> ps = parseCIDRs ss"
  by (induction ss arbitrary: ps)
     (auto simp: parseCIDRs_def List.map_filter_def split: option.splits sum.splits)

lemma parsePrefixes_ok:
  "list_all (\<lambda>s. ParsePrefix s \<noteq> None) ss \<Longrightarrow> parsePrefixes ss = Inr (parseCIDRs ss)"
  using parsePrefixes_Inr [of ss] parsePrefixes_parseCIDRs by blast

lemma same_tables: "egress_defaultDeniedPrefixes = defaultDeniedPrefixes" "isMetadataIP a = (a \<in> set metadataIPs)"
  by (simp_all add: egress_defaultDeniedPrefixes_def defaultDeniedPrefixes_def isMetadataIP_def metadataIPs_def)

lemma prefixesContain_eq: "prefixesContain = prefixesContainAddr"
  by (simp add: fun_eq_iff prefixesContain_def prefixesContainAddr_def)

lemma policy_fields [simp]:
  "dp_AllowedCidrs (policy_of_rules rules v m) = fst (snd (compileDenyRules rules))"
  "dp_DeniedCidrs (policy_of_rules rules v m) = fst (compileDenyRules rules)"
  "dp_DeniedHostSuffixes (policy_of_rules rules v m) = fst (snd (snd (compileDenyRules rules)))"
  "dp_DeniedCnameSuffixes (policy_of_rules rules v m) = snd (snd (snd (compileDenyRules rules)))"
  "dp_ResolutionMode (policy_of_rules rules v m) = m"
  "dp_AllowLoopback (policy_of_rules rules v m) = allowedPrefixesContain (fst (snd (compileDenyRules rules))) IsLoopback"
  "dp_AllowPrivateRanges (policy_of_rules rules v m) = allowedPrefixesContain (fst (snd (compileDenyRules rules))) IsPrivate"
  "dp_AllowLinkLocal (policy_of_rules rules v m) = allowedPrefixesContain (fst (snd (compileDenyRules rules))) IsLinkLocalUnicast"
  "dp_AllowMulticast (policy_of_rules rules v m) = allowedPrefixesContain (fst (snd (compileDenyRules rules))) IsMulticast"
  "dp_AllowMetadataIps (policy_of_rules rules v m) = allowedPrefixesContain (fst (snd (compileDenyRules rules))) isMetadataAddr"
  by (simp_all add: policy_of_rules_def split: prod.splits)

lemma validateResolvedIP_eq:
  assumes "cidrs_parse p"
  shows "validateResolvedIP (Some p) a = None \<longleftrightarrow>
    \<not> Is4In6 a \<and> (prefixesContain (parseCIDRs (dp_AllowedCidrs p)) a
      \<or> (\<not> prefixesContain (parseCIDRs (dp_DeniedCidrs p)) a \<and> \<not> deniedByDefault p a))"
  using assms by (auto simp: validateResolvedIP_def cidrs_parse_def parsePrefixes_ok)

lemma evaluateLiteralIPDeny_eq:
  "evaluateLiteralIPDeny a denied allowed = None \<longleftrightarrow>
    \<not> Is4In6 a \<and> (prefixesContain (parseCIDRs allowed) a
      \<or> (\<not> prefixesContain (parseCIDRs denied) a \<and> public_addr a))"
  by (auto simp: evaluateLiteralIPDeny_def public_addr_def same_tables prefixesContain_eq)

lemma deniedByDefault_public: "public_addr a \<Longrightarrow> \<not> deniedByDefault p a"
  by (simp add: deniedByDefault_def public_addr_def blockedUnless_def)

lemma deniedByDefault_flags_off:
  "flags_off p \<Longrightarrow> \<not> Is4In6 a \<Longrightarrow> deniedByDefault p a \<longleftrightarrow> \<not> public_addr a"
  by (auto simp: deniedByDefault_def public_addr_def blockedUnless_def flags_off_def)

lemma flags_off_no_overrides:
  "fst (snd (compileDenyRules rules)) = [] \<Longrightarrow> flags_off (policy_of_rules rules v m)"
  by (simp add: flags_off_def allowedPrefixesContain_def)

lemma AddrFromSlice_unzoned: "AddrFromSlice ip = Some a \<Longrightarrow> \<not> has_zone a"
  by (auto simp: AddrFromSlice_def has_zone_def split: if_splits)

lemma netIPAddr_unzoned: "netIPAddr ip = Some a \<Longrightarrow> \<not> has_zone a"
  by (auto simp: netIPAddr_def dest: AddrFromSlice_unzoned split: option.splits)

lemma validateResolvedIP_not_mapped: "validateResolvedIP mp a = None \<Longrightarrow> \<not> Is4In6 a"
  by (auto simp: validateResolvedIP_def split: option.splits)

lemma validate_ips_Inr:
  assumes "validate_ips mp ips = Inr addrs"
  shows "map netIPAddr ips = map Some addrs \<and> (\<forall>a \<in> set addrs. validateResolvedIP mp a = None)"
  using assms
  by (induction ips arbitrary: addrs) (auto split: option.splits sum.splits)

lemma validatedIPs_Inr:
  assumes "validatedIPs lookupIP lookupCNAME ctx host mp = Inr addrs"
  obtains ips where "lookupIP host = Some ips" "ips \<noteq> []" "map netIPAddr ips = map Some addrs"
    "\<forall>a \<in> set addrs. validateResolvedIP mp a = None" "validateCNAMESuffixPolicy lookupCNAME host mp = None"
proof -
  obtain ips where "lookupIP host = Some ips" "ips \<noteq> []" "validate_ips mp ips = Inr addrs"
      "validateCNAMESuffixPolicy lookupCNAME host mp = None"
    using assms
    by (auto simp: validatedIPs_def split: option.splits list.splits sum.splits if_splits simp del: validate_ips.simps)
  then show ?thesis using that validate_ips_Inr by blast
qed

lemma dialValidated_Inr:
  assumes "dialValidated lookupIP lookupCNAME ctx hp mp = Inr (a, port)"
  obtains host ips where "hp = Some (host, port)" "lookupIP host = Some ips" "Some a \<in> netIPAddr ` set ips"
    "\<forall>ip \<in> set ips. \<exists>b. netIPAddr ip = Some b \<and> validateResolvedIP mp b = None"
    "validateResolvedIP mp a = None"
proof -
  obtain host ips addrs where h: "hp = Some (host, port)" "a = hd addrs" "lookupIP host = Some ips" "ips \<noteq> []"
      "map netIPAddr ips = map Some addrs" "\<forall>b \<in> set addrs. validateResolvedIP mp b = None"
    using assms by (auto simp: dialValidated_def split: option.splits sum.splits elim!: validatedIPs_Inr)
  have ne: "addrs \<noteq> []" using h(4,5) by auto
  then have mem: "a \<in> set addrs" using h(2) by simp
  have img: "netIPAddr ` set ips = Some ` set addrs"
    using arg_cong [OF h(5), of set] by simp
  have "\<forall>ip \<in> set ips. \<exists>b. netIPAddr ip = Some b \<and> validateResolvedIP mp b = None"
    using img h(6) by blast
  then show ?thesis using that h(1,3,6) mem img by blast
qed

lemma compileCIDR_append:
  "compileCIDRDenyRule r (d, a) = (d @ fst (compileCIDRDenyRule r ([], [])), a @ snd (compileCIDRDenyRule r ([], [])))"
  by (auto simp: compileCIDRDenyRule_def Let_def split: option.splits)

lemma types_disjoint: "t \<in> set denyRuleCIDRTypes \<Longrightarrow> t \<notin> set denyRuleHostTypes \<and> t \<noteq> ''cname_suffix''"
  by (auto simp: denyRuleCIDRTypes_def denyRuleHostTypes_def)

lemma compile_step_cidrs:
  "cr_deniedCidrs (compile_step c r) = cr_deniedCidrs c @ fst (rule_cidrs r)"
  "cr_allowedCidrs (compile_step c r) = cr_allowedCidrs c @ snd (rule_cidrs r)"
  using compileCIDR_append [of r "cr_deniedCidrs c" "cr_allowedCidrs c"]
  by (auto simp: compile_step_def rule_cidrs_def split: prod.splits)

lemma compile_fold_cidrs:
  "cr_deniedCidrs (foldl compile_step c rules) = cr_deniedCidrs c @ concat (map (fst \<circ> rule_cidrs) rules)"
  "cr_allowedCidrs (foldl compile_step c rules) = cr_allowedCidrs c @ concat (map (snd \<circ> rule_cidrs) rules)"
  by (induction rules arbitrary: c) (simp_all add: compile_step_cidrs)

lemma compile_cidrs_set:
  "set (fst (compileDenyRules rules)) = (\<Union>r \<in> set rules. set (fst (rule_cidrs r)))"
  "set (fst (snd (compileDenyRules rules))) = (\<Union>r \<in> set rules. set (snd (rule_cidrs r)))"
  by (simp_all add: compileDenyRules_def Let_def compile_fold_cidrs compile_init_def)

lemma no_overrides_allowed:
  "list_all (\<lambda>r. \<not> cidr_override r) rules \<Longrightarrow> fst (snd (compileDenyRules rules)) = []"
proof -
  assume "list_all (\<lambda>r. \<not> cidr_override r) rules"
  then have "set (fst (snd (compileDenyRules rules))) = {}"
    by (auto simp: compile_cidrs_set list_all_iff cidr_override_def rule_cidrs_def compileCIDRDenyRule_def Let_def
        split: if_splits option.splits)
  then show ?thesis by simp
qed

lemma cidr_rule_denied:
  assumes "r \<in> set rules" "dr_Enabled r" "dr_RuleType r \<in> {''cidr'', ''private_range''}"
    "dr_Action r \<noteq> ''allow_override''" "dr_NormalizedCIDR r \<noteq> []"
  shows "dr_NormalizedCIDR r \<in> set (fst (compileDenyRules rules))"
proof -
  have "dr_NormalizedCIDR r \<in> set (fst (rule_cidrs r))"
    using assms by (auto simp: rule_cidrs_def compileCIDRDenyRule_def denyRuleValue_def denyRuleCIDRTypes_def)
  then show ?thesis using assms(1) by (auto simp: compile_cidrs_set)
qed

lemma parseCIDRs_contains:
  "s \<in> set ss \<Longrightarrow> ParsePrefix s = Some p \<Longrightarrow> prefix_contains p a \<Longrightarrow> prefixesContain (parseCIDRs ss) a"
  by (force simp: prefixesContain_def parseCIDRs_def List.map_filter_def list_ex_iff)

lemma ParsePrefix_Nil [simp]: "ParsePrefix [] = None"
  by code_simp

lemma accepted_without_overrides:
  assumes "validateResolvedIP (Some (policy_of_rules rules v m)) a = None" "\<not> has_zone a"
    and no: "list_all (\<lambda>r. \<not> cidr_override r) rules"
  shows "dial_allowed rules a"
proof -
  let ?p = "policy_of_rules rules v m"
  have A: "dp_AllowedCidrs ?p = []" using no_overrides_allowed [OF no] by simp
  obtain D where D: "parsePrefixes (dp_DeniedCidrs ?p) = Inr D" "\<not> prefixesContain D a" "\<not> deniedByDefault ?p a" "\<not> Is4In6 a"
    using assms(1) A by (auto simp: validateResolvedIP_def prefixesContain_def split: if_splits sum.splits)
  have "public_addr a"
    using D(3,4) deniedByDefault_flags_off [OF flags_off_no_overrides [OF no_overrides_allowed [OF no]]] by simp
  moreover have "\<not> prefix_contains p a"
    if "r \<in> set rules" "dr_Enabled r" "dr_RuleType r \<in> {''cidr'', ''private_range''}" "dr_Action r \<noteq> ''allow_override''"
       "ParsePrefix (dr_NormalizedCIDR r) = Some p" for r p
  proof -
    have "dr_NormalizedCIDR r \<noteq> []" using that(5) by auto
    then have "dr_NormalizedCIDR r \<in> set (dp_DeniedCidrs ?p)" using cidr_rule_denied that by simp
    then show ?thesis using parseCIDRs_contains that(5) D(1,2) parsePrefixes_parseCIDRs by blast
  qed
  ultimately show ?thesis using assms(2) by (auto simp: dial_allowed_def)
qed

lemma chain_terminates:
  assumes "finite S" "current \<in> S" "\<forall>x \<in> S. snd (ask x) \<in> S \<union> {[]}" "set visited \<subseteq> S" "card (S - set visited) \<le> k"
  shows "\<exists>r. cname_chain k ask visited current chain = Some r"
  using assms
proof (induction k arbitrary: visited current chain)
  case 0
  then have "S \<subseteq> set visited" by simp
  then show ?case using 0 by auto
next
  case (Suc k)
  show ?case
  proof (cases "current \<in> set visited \<or> snd (ask current) = []")
    case True
    then show ?thesis by (cases "ask current") auto
  next
    case False
    have "card (S - set (current # visited)) < card (S - set visited)"
      using Suc.prems(1,2) False by (intro psubset_card_mono) auto
    then have "\<exists>r. cname_chain k ask (current # visited) (snd (ask current)) (chain @ [snd (ask current)]) = Some r"
      using Suc.prems False by (intro Suc.IH) auto
    then show ?thesis using False by (cases "ask current") auto
  qed
qed

lemma cname_path_snoc: "cname_path f x (ys @ [y]) \<longleftrightarrow> cname_path f x ys \<and> y = f (last (x # ys)) \<and> y \<noteq> []"
  by (induction ys arbitrary: x) auto

lemma chain_path:
  assumes "cname_chain k ask visited current chain = Some (Inr result)"
    "cname_path (snd \<circ> ask) start chain" "current = last (start # chain)" "set visited = set (butlast (start # chain))"
    "distinct (butlast (start # chain))"
  shows "cname_path (snd \<circ> ask) start result \<and> distinct (butlast (start # result))
    \<and> (last (start # result) \<in> set (butlast (start # result)) \<or> snd (ask (last (start # result))) = [])"
  using assms
proof (induction k arbitrary: visited current chain)
  case 0
  then show ?case by (auto split: if_splits)
next
  case (Suc k)
  show ?case
  proof (cases "current \<in> set visited \<or> snd (ask current) = []")
    case True
    then show ?thesis using Suc.prems by (cases "ask current") (auto split: if_splits)
  next
    case False
    obtain b n where n: "ask current = (b, n)" "n \<noteq> []" using False by (cases "ask current") auto
    have bl: "butlast (start # chain @ [n]) = butlast (start # chain) @ [current]"
      using Suc.prems(3) append_butlast_last_id [of "start # chain"] by simp
    show ?thesis
    proof (rule Suc.IH)
      show "cname_chain k ask (current # visited) n (chain @ [n]) = Some (Inr result)"
        using Suc.prems(1) False n by simp
      show "cname_path (snd \<circ> ask) start (chain @ [n])"
        unfolding cname_path_snoc using Suc.prems(2,3) n by (simp add: comp_def)
      show "set (current # visited) = set (butlast (start # chain @ [n]))"
        using bl Suc.prems(4) by simp
      show "distinct (butlast (start # chain @ [n]))"
        using bl Suc.prems(4,5) False by simp
    qed simp
  qed
qed

section \<open>Host rules\<close>

lemma host_deny_loop_eq:
  "host_deny_loop host rules d a =
     (d \<or> (\<exists>r \<in> set rules. host_rule host r \<and> dr_Action r \<noteq> ''allow_override''),
      a \<or> (\<exists>r \<in> set rules. host_rule host r \<and> dr_Action r = ''allow_override''))"
  by (induction rules arbitrary: d a) (auto simp: host_rule_def)

lemma evaluateHostDeny_iff:
  "evaluateHostDeny host rules = None \<longleftrightarrow>
     (\<exists>r \<in> set rules. host_rule host r \<and> dr_Action r = ''allow_override'')
     \<or> (\<forall>r \<in> set rules. host_rule host r \<longrightarrow> dr_Action r = ''allow_override'')"
  by (auto simp: evaluateHostDeny_def host_deny_loop_eq)

lemma compile_step_hosts:
  "cr_deniedHost (compile_step c r) = cr_deniedHost c @
     (if dr_Enabled r \<and> dr_RuleType r \<in> set denyRuleHostTypes \<and> dr_Action r \<noteq> ''allow_override'' then [dr_NormalizedHost r] else [])"
  "cr_allowedHost (compile_step c r) = cr_allowedHost c @
     (if dr_Enabled r \<and> dr_RuleType r \<in> set denyRuleHostTypes \<and> dr_Action r = ''allow_override'' then [dr_NormalizedHost r] else [])"
  using types_disjoint [of "dr_RuleType r"] by (auto simp: compile_step_def split: prod.splits)

lemma compile_fold_hosts:
  "set (cr_deniedHost (foldl compile_step c rules)) = set (cr_deniedHost c) \<union>
     {dr_NormalizedHost r | r. r \<in> set rules \<and> dr_Enabled r \<and> dr_RuleType r \<in> set denyRuleHostTypes \<and> dr_Action r \<noteq> ''allow_override''}"
  "set (cr_allowedHost (foldl compile_step c rules)) = set (cr_allowedHost c) \<union>
     {dr_NormalizedHost r | r. r \<in> set rules \<and> dr_Enabled r \<and> dr_RuleType r \<in> set denyRuleHostTypes \<and> dr_Action r = ''allow_override''}"
  by (induction rules arbitrary: c) (auto simp: compile_step_hosts)

lemma subtractOverrides_set: "set (subtractOverrides d a) = set d - set a"
  by (auto simp: subtractOverrides_def)

lemma compile_hosts_set:
  "set (fst (snd (snd (compileDenyRules rules)))) =
     {dr_NormalizedHost r | r. r \<in> set rules \<and> dr_Enabled r \<and> dr_RuleType r \<in> set denyRuleHostTypes \<and> dr_Action r \<noteq> ''allow_override''}
   - {dr_NormalizedHost r | r. r \<in> set rules \<and> dr_Enabled r \<and> dr_RuleType r \<in> set denyRuleHostTypes \<and> dr_Action r = ''allow_override''}"
  by (simp add: compileDenyRules_def Let_def subtractOverrides_set compile_fold_hosts compile_init_def)

lemma host_rule_suffix: "host_rule host r \<Longrightarrow> host \<noteq> [] \<Longrightarrow> hostMatchesSuffix host (dr_NormalizedHost r)"
  by (auto simp: host_rule_def hostMatchesDenyRule_def hostMatchesSuffix_def split: if_splits)

section \<open>Properties\<close>



text \<open>
  C13: one allowed CIDR whose network address is private lifts the private-range check of Egress for
  every private address, not only for the addresses inside the CIDR: Control still refuses such a
  literal target, but a name that resolves to it is dialled.
\<close>

theorem override_lifts_whole_class:
  assumes "cidrs_parse (policy_of_rules rules v m)" "s \<in> set (fst (snd (compileDenyRules rules)))"
    and "ParsePrefix s = Some p" "IsPrivate (prefix_addr p)"
    and "IsPrivate a" "\<not> Is4In6 a" "\<not> IsLoopback a" "\<not> IsLinkLocalUnicast a" "\<not> IsMulticast a" "\<not> isMetadataIP a"
    and "\<not> prefixesContain egress_defaultDeniedPrefixes a"
    and "\<not> prefixesContain (parseCIDRs (fst (compileDenyRules rules))) a"
    and "\<not> prefixesContain (parseCIDRs (fst (snd (compileDenyRules rules)))) a"
  shows "validateResolvedIP (Some (policy_of_rules rules v m)) a = None
    \<and> evaluateLiteralIPDeny a (fst (compileDenyRules rules)) (fst (snd (compileDenyRules rules))) = Some destinationDeniedError"
proof -
  have "dp_AllowPrivateRanges (policy_of_rules rules v m)"
    using assms(2-4) by (force simp: allowedPrefixesContain_def list_ex_iff)
  then have "\<not> deniedByDefault (policy_of_rules rules v m) a"
    using assms by (simp add: deniedByDefault_def blockedUnless_def del: policy_fields)
  then show ?thesis
    using assms by (simp add: validateResolvedIP_eq evaluateLiteralIPDeny_def prefixesContain_eq same_tables)
qed

lemma override_lifts_whole_class_witness:
  "validateResolvedIP (Some (policy_of_rules [ex_rule ''cidr'' ''allow_override'' ''10.1.2.0/24''] 1 DIRECT_LOCAL)) (ip4 192 168 0 1) = None
   \<and> evaluateLiteralIPDeny (ip4 192 168 0 1) [] [''10.1.2.0/24''] = Some destinationDeniedError"
proof -
  let ?rs = "[ex_rule ''cidr'' ''allow_override'' ''10.1.2.0/24'']"
  have c: "fst (snd (compileDenyRules ?rs)) = [''10.1.2.0/24'']" "fst (compileDenyRules ?rs) = []"
    and p: "cidrs_parse (policy_of_rules ?rs 1 DIRECT_LOCAL)" "ParsePrefix ''10.1.2.0/24'' = Some (Prefix (ip4 10 1 2 0) 24)"
    and f: "IsPrivate (prefix_addr (Prefix (ip4 10 1 2 0) 24))" "IsPrivate (ip4 192 168 0 1)"
      "\<not> Is4In6 (ip4 192 168 0 1)" "\<not> IsLoopback (ip4 192 168 0 1)" "\<not> IsLinkLocalUnicast (ip4 192 168 0 1)"
      "\<not> IsMulticast (ip4 192 168 0 1)" "\<not> isMetadataIP (ip4 192 168 0 1)"
      "\<not> prefixesContain egress_defaultDeniedPrefixes (ip4 192 168 0 1)"
      "\<not> prefixesContain (parseCIDRs []) (ip4 192 168 0 1)"
      "\<not> prefixesContain (parseCIDRs [''10.1.2.0/24'']) (ip4 192 168 0 1)" by code_simp+
  show ?thesis
    using override_lifts_whole_class [OF p(1) _ p(2) f(1,2,3,4,5,6,7,8), unfolded c] f(9,10) by simp
qed





text \<open>
  C27: Egress enforces every host decision of Control that no host override could have produced: a
  target Control refuses is refused by Egress too when the rules hold no enabled host override.
\<close>

theorem control_host_deny_enforced:
  assumes "evaluateHostDeny host rules \<noteq> None" "host \<noteq> []"
    and "\<forall>r \<in> set rules. dr_Enabled r \<longrightarrow> dr_RuleType r \<in> set denyRuleHostTypes \<longrightarrow> dr_Action r \<noteq> ''allow_override''"
  shows "validateHostSuffixPolicy host (Some (policy_of_rules rules v m))
     = Some (executorFailure DestinationDenied ''host_denied_suffix'')"
proof -
  obtain r where r: "r \<in> set rules" "host_rule host r" "dr_Action r \<noteq> ''allow_override''"
    using assms(1) evaluateHostDeny_iff [of host rules] by auto
  have "dr_NormalizedHost r \<in> set (fst (snd (snd (compileDenyRules rules))))"
    using r assms(3) unfolding compile_hosts_set host_rule_def by blast
  then show ?thesis using host_rule_suffix [OF r(2) assms(2)]
    by (auto simp: validateHostSuffixPolicy_def matchesAnySuffix_def policy_host_suffixes_def list_ex_iff)
qed

lemma control_host_deny_enforced_witness:
  "evaluateHostDeny ''www.bad.com'' [ex_rule ''host_suffix'' ''deny'' ''bad.com''] \<noteq> None
   \<and> validateHostSuffixPolicy ''www.bad.com'' (Some (policy_of_rules [ex_rule ''host_suffix'' ''deny'' ''bad.com''] 1 DIRECT_LOCAL))
       = Some (executorFailure DestinationDenied ''host_denied_suffix'')"
proof -
  have d: "evaluateHostDeny ''www.bad.com'' [ex_rule ''host_suffix'' ''deny'' ''bad.com''] \<noteq> None" by code_simp
  show ?thesis using d control_host_deny_enforced [OF d] by (simp add: ex_rule_def)
qed

text \<open>
  C28: the CNAME chase ends whenever the names reachable from the host are finitely many, within as
  many hops as there are names, and the chain it returns is the path of first CNAMEs from the host:
  no name repeats before the last hop, and the chase stopped only at a repetition or at a name with
  no further hop.
\<close>

theorem lookupCNAMEChain_correct:
  fixes queryCNAME :: "string \<Rightarrow> string \<Rightarrow> string list option" and nameservers :: "string list"
  defines "ask \<equiv> \<lambda>x. ask_servers queryCNAME (nameservers @ [''8.8.8.8'', ''1.1.1.1'']) x False"
    and "start \<equiv> \<lambda>host. trim_suffix (to_lower host) ''.''"
  assumes "finite S" "start host \<in> S" "\<forall>x \<in> S. snd (ask x) \<in> S \<union> {[]}"
  shows "\<exists>r. lookupCNAMEChain (card S) queryCNAME nameservers host = Some r
    \<and> (\<forall>chain. r = Inr chain \<longrightarrow> cname_path (snd \<circ> ask) (start host) chain \<and> distinct (butlast (start host # chain))
         \<and> (last (start host # chain) \<in> set (butlast (start host # chain)) \<or> snd (ask (last (start host # chain))) = []))"
proof -
  have eq: "lookupCNAMEChain (card S) queryCNAME nameservers host = cname_chain (card S) ask [] (start host) []"
    by (simp add: lookupCNAMEChain_def ask_def start_def)
  obtain r where r: "cname_chain (card S) ask [] (start host) [] = Some r"
    using chain_terminates [of S "start host" ask "[]" "card S"] assms(3-5) by auto
  have "cname_path (snd \<circ> ask) (start host) chain \<and> distinct (butlast (start host # chain))
         \<and> (last (start host # chain) \<in> set (butlast (start host # chain)) \<or> snd (ask (last (start host # chain))) = [])"
    if "r = Inr chain" for chain
    using chain_path [of "card S" ask "[]" "start host" "[]" chain "start host"] r that by simp
  then show ?thesis using r eq by metis
qed

lemma lookupCNAMEChain_correct_witness:
  "\<exists>r. lookupCNAMEChain 2 ex_query [] ''A.'' = Some r"
proof -
  have s: "trim_suffix (to_lower ''A.'') ''.'' = ''a''" by code_simp
  have a: "snd (ask_servers ex_query ([] @ [''8.8.8.8'', ''1.1.1.1'']) ''a'' False) = ''b''"
    "snd (ask_servers ex_query ([] @ [''8.8.8.8'', ''1.1.1.1'']) ''b'' False) = ''a''" by code_simp+
  have "card {''a'', ''b''} = 2" by simp
  then show ?thesis using lookupCNAMEChain_correct [of "{''a'', ''b''}" "''A.''" ex_query "[]"] a s
    by (auto simp: numeral_2_eq_2 simp del: ask_servers.simps)
qed



end
