(* ===== verification/Lifecycle.thy ===== *)
theory Lifecycle
  imports Straw_Errors
begin

text \<open>
  The lifecycle of one assignment attempt on the Control side
  (\<open>internal/control/lifecycle.go\<close>): a state machine over the acknowledgement, the start of the
  request, the terminal frame and cancellation, and the fallback rule derived from it.
\<close>

section \<open>State\<close>

datatype LifecycleState = LifecycleAssigning | LifecycleAccepted | LifecycleStarted | LifecycleTerminated

datatype TerminalKind = TerminalNone | TerminalEnd | TerminalError | TerminalCancelled

record Assignment =
  a_RequestID :: string
  a_DeploymentID :: string
  a_WorkerID :: string
  a_SessionID :: string
  a_Attempt :: uint32
  a_Replayable :: bool
  a_state :: LifecycleState
  a_terminal :: TerminalKind
  a_clientResponded :: bool
  a_fallbackAllowed :: bool

definition NewAssignment :: "string \<Rightarrow> string \<Rightarrow> string \<Rightarrow> string \<Rightarrow> uint32 \<Rightarrow> bool \<Rightarrow> Assignment" where
  "NewAssignment requestID deploymentID workerID sessionID att replayable =
     \<lparr>a_RequestID = requestID, a_DeploymentID = deploymentID, a_WorkerID = workerID, a_SessionID = sessionID,
      a_Attempt = att, a_Replayable = replayable, a_state = LifecycleAssigning, a_terminal = TerminalNone,
      a_clientResponded = False, a_fallbackAllowed = False\<rparr>"

section \<open>Operations\<close>

definition OnAssignAck :: "AssignAckCode \<Rightarrow> Assignment \<Rightarrow> Assignment \<times> bool" where
  "OnAssignAck code a =
     (if a_state a \<noteq> LifecycleAssigning then (a, False)
      else if code = ACK_ACCEPTED then (a\<lparr>a_state := LifecycleAccepted\<rparr>, True)
      else (a\<lparr>a_state := LifecycleTerminated, a_terminal := TerminalError, a_fallbackAllowed := True\<rparr>, False))"

definition OnAckTimeout :: "Assignment \<Rightarrow> Assignment \<times> bool" where
  "OnAckTimeout a =
     (if a_state a \<noteq> LifecycleAssigning then (a, False)
      else (a\<lparr>a_state := LifecycleTerminated, a_terminal := TerminalError, a_fallbackAllowed := True\<rparr>, True))"

definition MarkRequestStart :: "Assignment \<Rightarrow> Assignment \<times> bool" where
  "MarkRequestStart a =
     (if a_state a \<noteq> LifecycleAccepted then (a, False) else (a\<lparr>a_state := LifecycleStarted\<rparr>, True))"

definition MarkClientResponded :: "Assignment \<Rightarrow> Assignment" where
  "MarkClientResponded a = a\<lparr>a_clientResponded := True\<rparr>"

definition CanFallback :: "Assignment \<Rightarrow> bool" where
  "CanFallback a =
     (if a_fallbackAllowed a \<and> \<not> a_clientResponded a then True
      else if a_state a = LifecycleAssigning \<or> a_state a = LifecycleAccepted then True
      else if a_state a = LifecycleStarted then a_Replayable a \<and> \<not> a_clientResponded a
      else False)"

definition RecordTerminal :: "TerminalKind \<Rightarrow> Assignment \<Rightarrow> Assignment \<times> bool" where
  "RecordTerminal kind a =
     (if a_state a = LifecycleTerminated then (a, False)
      else (a\<lparr>a_state := LifecycleTerminated, a_terminal := kind\<rparr>, True))"

definition SynthesizeTerminal :: "ErrorCode \<Rightarrow> Assignment \<Rightarrow> Assignment \<times> bool" where
  "SynthesizeTerminal code a =
     (if a_state a = LifecycleTerminated then (a, False)
      else (a\<lparr>a_fallbackAllowed := (code \<noteq> TimeoutExceeded \<and> CanFallback a),
              a_state := LifecycleTerminated, a_terminal := TerminalError\<rparr>, True))"

text \<open>The result of \<open>Cancel\<close>: whether to send a \<open>CancelFrame\<close>, and whether it took effect.\<close>

definition Cancel_assignment :: "Assignment \<Rightarrow> Assignment \<times> bool \<times> bool" where
  "Cancel_assignment a =
     (if a_state a = LifecycleTerminated then (a, False, False)
      else (a\<lparr>a_state := LifecycleTerminated, a_terminal := TerminalCancelled\<rparr>,
            a_state a = LifecycleStarted, True))"

text \<open>Instants are integers; \<open>None\<close> is Go's zero \<open>time.Time\<close>.\<close>

datatype TimeoutType = TOTAL_DEADLINE_TIMEOUT | ASSIGNMENT_TIMEOUT

definition ackTimeout :: "instant \<Rightarrow> int \<Rightarrow> instant option \<Rightarrow> instant \<times> TimeoutType" where
  "ackTimeout now d totalDeadline =
     (case totalDeadline of
        Some t \<Rightarrow> if \<not> now + d < t then (t, TOTAL_DEADLINE_TIMEOUT) else (now + d, ASSIGNMENT_TIMEOUT)
      | None \<Rightarrow> (now + d, ASSIGNMENT_TIMEOUT))"

definition ackDeadline :: "instant \<Rightarrow> int \<Rightarrow> instant option \<Rightarrow> instant" where
  "ackDeadline now d totalDeadline = fst (ackTimeout now d totalDeadline)"

definition validateExecutedFingerprint :: "string \<Rightarrow> string \<Rightarrow> bool" where
  "validateExecutedFingerprint selected executed =
     (if selected = ''baseline'' \<and> executed = [] then True else selected = executed)"

text \<open>\<open>fingerprint\<close> is \<open>None\<close> for a nil request.\<close>

definition selectedFingerprintForRequest :: "string option \<Rightarrow> string" where
  "selectedFingerprintForRequest fingerprint = (case fingerprint of
     None \<Rightarrow> ''baseline''
   | Some fp \<Rightarrow> if fp = [] \<or> fp = ''default'' then ''baseline'' else fp)"

section \<open>Runs\<close>

datatype lifecycle_op =
    OpAck AssignAckCode | OpAckTimeout | OpStart | OpResponded | OpTerminal TerminalKind
  | OpSynthesize ErrorCode | OpCancel

text \<open>One operation with its success flag.\<close>

definition lifecycle_apply :: "lifecycle_op \<Rightarrow> Assignment \<Rightarrow> Assignment \<times> bool" where
  "lifecycle_apply op a = (case op of
     OpAck code \<Rightarrow> OnAssignAck code a
   | OpAckTimeout \<Rightarrow> OnAckTimeout a
   | OpStart \<Rightarrow> MarkRequestStart a
   | OpResponded \<Rightarrow> (MarkClientResponded a, False)
   | OpTerminal k \<Rightarrow> RecordTerminal k a
   | OpSynthesize code \<Rightarrow> SynthesizeTerminal code a
   | OpCancel \<Rightarrow> (case Cancel_assignment a of (a', _, ok) \<Rightarrow> (a', ok)))"

inductive lifecycle_reach :: "Assignment \<Rightarrow> lifecycle_op list \<Rightarrow> Assignment \<Rightarrow> bool" for init where
  start: "lifecycle_reach init [] init"
| step: "lifecycle_reach init ops a \<Longrightarrow> lifecycle_reach init (ops @ [op]) (fst (lifecycle_apply op a))"

definition terminal_op :: "lifecycle_op \<Rightarrow> bool" where
  "terminal_op op = (case op of OpTerminal k \<Rightarrow> True | OpSynthesize _ \<Rightarrow> True | OpCancel \<Rightarrow> True
     | OpAckTimeout \<Rightarrow> True | OpAck c \<Rightarrow> c \<noteq> ACK_ACCEPTED | _ \<Rightarrow> False)"

text \<open>
  The replay boundary: a started assignment has been acknowledged, and what is known about
  fallback agrees with the documented rule.  \<open>started\<close> and \<open>responded\<close> say whether the request was
  sent and whether the client saw a response.
\<close>

definition lifecycle_inv :: "bool \<Rightarrow> Assignment \<Rightarrow> bool" where
  "lifecycle_inv started a \<longleftrightarrow>
     (a_state a = LifecycleStarted \<longrightarrow> started)
   \<and> (a_state a \<in> {LifecycleAssigning, LifecycleAccepted} \<longrightarrow> \<not> started \<and> \<not> a_fallbackAllowed a)
   \<and> (a_state a = LifecycleStarted \<longrightarrow> \<not> a_fallbackAllowed a)
   \<and> (a_fallbackAllowed a \<and> started \<longrightarrow> a_Replayable a)
   \<and> (a_state a \<noteq> LifecycleTerminated \<longrightarrow> a_terminal a = TerminalNone)"

fun request_started :: "Assignment \<Rightarrow> lifecycle_op list \<Rightarrow> bool" where
  "request_started a [] = False"
| "request_started a (op # ops) =
     ((op = OpStart \<and> snd (lifecycle_apply op a)) \<or> request_started (fst (lifecycle_apply op a)) ops)"

definition run_ops :: "lifecycle_op list \<Rightarrow> Assignment \<Rightarrow> Assignment" where
  "run_ops ops a = foldl (\<lambda>a op. fst (lifecycle_apply op a)) a ops"

definition ex_assignment :: Assignment where
  "ex_assignment = NewAssignment ''r1'' ''d1'' ''w1'' ''s1'' 1 False"

section \<open>Lemmas\<close>

lemmas lifecycle_defs = lifecycle_apply_def OnAssignAck_def OnAckTimeout_def MarkRequestStart_def
  MarkClientResponded_def RecordTerminal_def SynthesizeTerminal_def Cancel_assignment_def

lemma reach_run: "lifecycle_reach init ops a \<longleftrightarrow> a = run_ops ops init"
proof
  assume "lifecycle_reach init ops a"
  then show "a = run_ops ops init" by induction (simp_all add: run_ops_def)
next
  have "lifecycle_reach init ops (run_ops ops init)"
  proof (induction ops rule: rev_induct)
    case Nil
    show ?case using lifecycle_reach.start by (simp add: run_ops_def)
  next
    case (snoc op ops)
    from lifecycle_reach.step [OF this, of op] show ?case by (simp add: run_ops_def)
  qed
  then show "a = run_ops ops init \<Longrightarrow> lifecycle_reach init ops a" by simp
qed

lemma terminated_stays:
  "a_state a = LifecycleTerminated \<Longrightarrow>
     a_state (fst (lifecycle_apply op a)) = LifecycleTerminated
   \<and> a_terminal (fst (lifecycle_apply op a)) = a_terminal a
   \<and> a_fallbackAllowed (fst (lifecycle_apply op a)) = a_fallbackAllowed a
   \<and> \<not> snd (lifecycle_apply op a)"
  by (cases op) (simp_all add: lifecycle_defs)

lemma apply_replayable [simp]: "a_Replayable (fst (lifecycle_apply op a)) = a_Replayable a"
  by (cases op) (simp_all add: lifecycle_defs)

lemma apply_responded: "a_clientResponded a \<Longrightarrow> a_clientResponded (fst (lifecycle_apply op a))"
  by (cases op) (simp_all add: lifecycle_defs)

lemma lifecycle_inv_step:
  assumes "lifecycle_inv started a"
  shows "lifecycle_inv (started \<or> (op = OpStart \<and> snd (lifecycle_apply op a))) (fst (lifecycle_apply op a))"
  using assms
  by (cases op; cases "a_state a") (auto simp: lifecycle_defs lifecycle_inv_def CanFallback_def)

lemma lifecycle_inv_run:
  "lifecycle_inv started a \<Longrightarrow> lifecycle_inv (started \<or> request_started a ops) (run_ops ops a)"
proof (induction ops arbitrary: a started)
  case (Cons op ops)
  from Cons.IH [OF lifecycle_inv_step [OF Cons.prems, of op]] show ?case
    by (simp add: run_ops_def disj_assoc)
qed (simp add: run_ops_def)

lemma lifecycle_inv_new: "lifecycle_inv False (NewAssignment r d w s n rep)"
  by (simp add: lifecycle_inv_def NewAssignment_def)

lemma run_ops_replayable: "a_Replayable (run_ops ops a) = a_Replayable a"
  by (induction ops arbitrary: a) (simp_all add: run_ops_def)

section \<open>Properties\<close>

text \<open>
  C15: at most one operation ends an assignment.  Once one did, every later acknowledgement,
  timeout, start, terminal frame, synthesized outcome or cancellation is refused, and neither the
  recorded outcome nor the fallback decision changes again.
\<close>

theorem first_terminal_wins:
  assumes "lifecycle_reach (NewAssignment r d w s n rep) ops a" "a_state a = LifecycleTerminated"
    and "lifecycle_reach a later b"
  shows "a_state b = LifecycleTerminated \<and> a_terminal b = a_terminal a
    \<and> a_fallbackAllowed b = a_fallbackAllowed a \<and> \<not> snd (lifecycle_apply op b)"
  using assms(3)
proof induction
  case start
  then show ?case using assms(2) terminated_stays by blast
next
  case (step ops' b op')
  then show ?case using terminated_stays [of b op'] terminated_stays [of "fst (lifecycle_apply op' b)" op] by simp
qed

lemma first_terminal_wins_witness:
  "a_terminal (run_ops [OpAck ACK_ACCEPTED, OpStart, OpTerminal TerminalEnd, OpCancel] ex_assignment) = TerminalEnd"
proof -
  let ?a = "run_ops [OpAck ACK_ACCEPTED, OpStart, OpTerminal TerminalEnd] ex_assignment"
  have r: "lifecycle_reach (NewAssignment ''r1'' ''d1'' ''w1'' ''s1'' 1 False) [OpAck ACK_ACCEPTED, OpStart, OpTerminal TerminalEnd] ?a"
    by (simp add: reach_run ex_assignment_def)
  have t: "a_state ?a = LifecycleTerminated" "a_terminal ?a = TerminalEnd" by code_simp+
  have l: "lifecycle_reach ?a [OpCancel] (run_ops [OpAck ACK_ACCEPTED, OpStart, OpTerminal TerminalEnd, OpCancel] ex_assignment)"
    by (simp add: reach_run run_ops_def)
  show ?thesis using first_terminal_wins [OF r t(1) l] t(2) by simp
qed



text \<open>
  Contrary to the comment on \<open>MarkClientResponded\<close>, marking a response does not forbid fallback
  while the request was not yet sent.
\<close>

lemma responded_may_still_fall_back:
  "a_state a = LifecycleAssigning \<or> a_state a = LifecycleAccepted \<Longrightarrow> CanFallback (MarkClientResponded a)"
  by (auto simp: CanFallback_def MarkClientResponded_def)


end
