(* ===== verification/Fingerprint.thy ===== *)
theory Fingerprint
  imports Straw_Prelude
begin

text \<open>
  The fingerprint catalogue (\<open>internal/fingerprint/catalog.go\<close>) with Go's \<open>slices.BinarySearch\<close>, and
  the check of proxy credential templates (\<open>internal/proxytemplate/template.go\<close>) on the node types
  of \<open>text/template/parse\<close>.
\<close>

section \<open>Catalogue\<close>

definition ContractRevision :: string where
  "ContractRevision = ''tls-client-v1.15.1-http1-http2''"

definition names :: "string list" where
  "names = [
    ''brave_146'', ''brave_146_PSK'', ''chrome_103'', ''chrome_104'', ''chrome_105'',
    ''chrome_106'', ''chrome_107'', ''chrome_108'', ''chrome_109'', ''chrome_110'', ''chrome_111'',
    ''chrome_112'', ''chrome_116_PSK'', ''chrome_116_PSK_PQ'', ''chrome_117'', ''chrome_120'',
    ''chrome_124'', ''chrome_130_PSK'', ''chrome_131'', ''chrome_131_PSK'', ''chrome_133'',
    ''chrome_133_PSK'', ''chrome_144'', ''chrome_144_PSK'', ''chrome_146'', ''chrome_146_PSK'',
    ''cloudscraper'', ''confirmed_android'', ''confirmed_ios'', ''firefox_102'', ''firefox_104'',
    ''firefox_105'', ''firefox_106'', ''firefox_108'', ''firefox_110'', ''firefox_117'',
    ''firefox_120'', ''firefox_123'', ''firefox_132'', ''firefox_133'', ''firefox_135'',
    ''firefox_146_PSK'', ''firefox_147'', ''firefox_147_PSK'', ''firefox_148'', ''mesh_android'',
    ''mesh_android_1'', ''mesh_android_2'', ''mesh_ios'', ''mesh_ios_1'', ''mesh_ios_2'',
    ''mms_ios'', ''mms_ios_1'', ''mms_ios_2'', ''mms_ios_3'', ''nike_android_mobile'',
    ''nike_ios_mobile'', ''okhttp4_android_10'', ''okhttp4_android_11'', ''okhttp4_android_12'',
    ''okhttp4_android_13'', ''okhttp4_android_7'', ''okhttp4_android_8'', ''okhttp4_android_9'',
    ''opera_89'', ''opera_90'', ''opera_91'', ''safari_15_6_1'', ''safari_16_0'',
    ''safari_ios_15_5'', ''safari_ios_15_6'', ''safari_ios_16_0'', ''safari_ios_17_0'',
    ''safari_ios_18_0'', ''safari_ios_18_5'', ''safari_ios_26_0'', ''safari_ipad_15_6'',
    ''zalando_android_mobile'', ''zalando_ios_mobile'']"

definition Names :: "string list" where
  "Names = names"

function bsearch :: "string list \<Rightarrow> string \<Rightarrow> nat \<Rightarrow> nat \<Rightarrow> nat" where
  "bsearch xs t i j =
     (if i < j then
        (let h = (i + j) div 2 in
         if xs ! h < t then bsearch xs t (Suc h) j else bsearch xs t i h)
      else i)"
  by pat_completeness auto
termination
  by (relation "measure (\<lambda>(_, _, i, j). j - i)") auto

declare bsearch.simps [simp del]

definition BinarySearch :: "string list \<Rightarrow> string \<Rightarrow> nat \<times> bool" where
  "BinarySearch xs t = (let i = bsearch xs t 0 (length xs) in (i, i < length xs \<and> xs ! i = t))"

definition Contains :: "string \<Rightarrow> bool" where
  "Contains name = snd (BinarySearch names name)"

section \<open>Proxy credential templates\<close>

text \<open>
  Parse trees of \<open>text/template\<close>.  A nil \<open>*ListNode\<close> (an absent else branch) and the nil
  \<open>*PipeNode\<close> of a template call without an argument are \<open>None\<close>; node types without children or
  identifiers (text, fields, constants, comments, break and continue) are leaves.  In \<open>validNode\<close>
  the value \<open>None\<close> is the run-time panic of dereferencing a nil node: a nil pointer stored in the
  \<open>Node\<close> interface does not match \<open>case nil\<close>, so the nil pipe reaches \<open>node.Cmds\<close>.
\<close>

datatype tnode =
    ListN "tnode list option"
  | ActionN tnode
  | BranchN tnode "tnode list option" "tnode list option"
  | TemplateN "tnode option"
  | PipeN "tnode list"
  | CommandN "tnode list"
  | ChainN tnode
  | IdentifierN string
  | LeafN

text \<open>The loops and conjunctions stop at the first check that is false or panics.\<close>

fun all_valid :: "bool option list \<Rightarrow> bool option" where
  "all_valid [] = Some True"
| "all_valid (c # cs) = (case c of None \<Rightarrow> None | Some False \<Rightarrow> Some False | Some True \<Rightarrow> all_valid cs)"

lemma size_in_list: "(x :: tnode) \<in> set xs \<Longrightarrow> size x \<le> size_list size xs"
  using size_list_estimation' [of x xs "size x" size] by simp

function validNode :: "tnode \<Rightarrow> bool option" where
  "validNode (ListN None) = Some True"
| "validNode (ListN (Some ns)) = all_valid (map validNode ns)"
| "validNode (ActionN p) = validNode p"
| "validNode (BranchN p l e) =
     all_valid [validNode p, (case l of None \<Rightarrow> Some True | Some ns \<Rightarrow> all_valid (map validNode ns)),
       (case e of None \<Rightarrow> Some True | Some ns \<Rightarrow> all_valid (map validNode ns))]"
| "validNode (TemplateN None) = None"
| "validNode (TemplateN (Some p)) = validNode p"
| "validNode (PipeN cs) = all_valid (map validNode cs)"
| "validNode (CommandN as) = all_valid (map validNode as)"
| "validNode (ChainN n) = validNode n"
| "validNode (IdentifierN ident) = Some (ident = ''lower'' \<or> ident = ''upper'')"
| "validNode LeafN = Some True"
  by pat_completeness auto
termination
  by (relation "measure size") (auto dest!: size_in_list)

text \<open>\<open>Parse\<close> after the library parsed the text into its named templates; \<open>None\<close> is the panic.\<close>

datatype template_error = TemplateSyntax | ErrUnsupportedFunction

definition Parse_template :: "tnode list option \<Rightarrow> (template_error + tnode list) option" where
  "Parse_template parsed = (case parsed of
     None \<Rightarrow> Some (Inl TemplateSyntax)
   | Some ts \<Rightarrow> (case all_valid (map validNode ts) of
       None \<Rightarrow> None
     | Some ok \<Rightarrow> Some (if ok then Inr ts else Inl ErrUnsupportedFunction)))"

fun identifiers :: "tnode \<Rightarrow> string set" where
  "identifiers (ListN l) = (\<Union>ns \<in> set_option l. \<Union>n \<in> set ns. identifiers n)"
| "identifiers (ActionN p) = identifiers p"
| "identifiers (BranchN p l e) = identifiers p \<union> (\<Union>ns \<in> set_option l. \<Union>n \<in> set ns. identifiers n)
     \<union> (\<Union>ns \<in> set_option e. \<Union>n \<in> set ns. identifiers n)"
| "identifiers (TemplateN p) = (\<Union>n \<in> set_option p. identifiers n)"
| "identifiers (PipeN cs) = (\<Union>n \<in> set cs. identifiers n)"
| "identifiers (CommandN as) = (\<Union>n \<in> set as. identifiers n)"
| "identifiers (ChainN n) = identifiers n"
| "identifiers (IdentifierN ident) = {ident}"
| "identifiers LeafN = {}"

fun bare_call :: "tnode \<Rightarrow> bool" where
  "bare_call (ListN l) = (\<exists>ns \<in> set_option l. \<exists>n \<in> set ns. bare_call n)"
| "bare_call (ActionN p) = bare_call p"
| "bare_call (BranchN p l e) = (bare_call p \<or> (\<exists>ns \<in> set_option l. \<exists>n \<in> set ns. bare_call n)
     \<or> (\<exists>ns \<in> set_option e. \<exists>n \<in> set ns. bare_call n))"
| "bare_call (TemplateN p) = (case p of None \<Rightarrow> True | Some n \<Rightarrow> bare_call n)"
| "bare_call (PipeN cs) = (\<exists>n \<in> set cs. bare_call n)"
| "bare_call (CommandN as) = (\<exists>n \<in> set as. bare_call n)"
| "bare_call (ChainN n) = bare_call n"
| "bare_call (IdentifierN ident) = False"
| "bare_call LeafN = False"

section \<open>Lemmas\<close>

lemma all_valid_True: "all_valid cs = Some True \<longleftrightarrow> (\<forall>c \<in> set cs. c = Some True)"
  by (induction cs) (auto split: option.splits bool.splits)

lemma all_valid_stop:
  "all_valid [a, b, c] = r \<Longrightarrow> r \<noteq> Some True \<Longrightarrow> a = r \<or> b = r \<or> c = r"
  "all_valid (map f xs) = r \<Longrightarrow> r \<noteq> Some True \<Longrightarrow> \<exists>x \<in> set xs. f x = r"
  by (auto split: option.splits bool.splits, induction xs) (auto split: option.splits bool.splits)

lemma validNode_True: "validNode n = Some True \<longleftrightarrow> identifiers n \<subseteq> {''lower'', ''upper''} \<and> \<not> bare_call n"
  by (induction n rule: validNode.induct) (auto simp: all_valid_True simp del: all_valid.simps split: option.splits)

lemma validNode_branch:
  assumes "validNode (BranchN p l e) = r" "r \<noteq> Some True"
  shows "validNode p = r \<or> (\<exists>ns \<in> set_option l \<union> set_option e. \<exists>n \<in> set ns. validNode n = r)"
proof -
  have "validNode p = r \<or> (\<exists>ns \<in> set_option l \<union> set_option e. all_valid (map validNode ns) = r)"
    using all_valid_stop(1) [OF assms(1) [unfolded validNode.simps] assms(2)] assms(2)
    by (auto simp del: all_valid.simps split: option.splits)
  then show ?thesis using all_valid_stop(2) [OF _ assms(2), of validNode] by blast
qed

lemma validNode_panic: "validNode n = None \<Longrightarrow> bare_call n"
proof (induction n rule: validNode.induct)
  case (4 p l e)
  then show ?case using validNode_branch [OF 4(4)] by fastforce
qed (fastforce dest!: all_valid_stop(2) simp del: all_valid.simps)+

lemma validNode_refusal: "validNode n = Some False \<Longrightarrow> \<not> identifiers n \<subseteq> {''lower'', ''upper''}"
proof (induction n rule: validNode.induct)
  case (4 p l e)
  then show ?case using validNode_branch [OF 4(4)] by fastforce
qed (fastforce dest!: all_valid_stop(2) simp del: all_valid.simps)+

lemma bsearch_partition:
  assumes "sorted xs" "j \<le> length xs" "\<forall>k < i. xs ! k < t" "\<forall>k. j \<le> k \<longrightarrow> k < length xs \<longrightarrow> t \<le> xs ! k"
    and "i \<le> j"
  shows "(\<forall>k < bsearch xs t i j. xs ! k < t) \<and> (\<forall>k. bsearch xs t i j \<le> k \<longrightarrow> k < length xs \<longrightarrow> t \<le> xs ! k)"
  using assms(2-5)
proof (induction "j - i" arbitrary: i j rule: less_induct)
  case less
  show ?case
  proof (cases "i < j")
    case False
    then have "i = j" using less.prems by simp
    then show ?thesis using less.prems by (simp add: bsearch.simps [of xs t j j])
  next
    case True
    define h where "h = (i + j) div 2"
    have h: "i \<le> h" "h < j" "h < length xs" using True less.prems(1) by (auto simp: h_def)
    show ?thesis
    proof (cases "xs ! h < t")
      case lt: True
      have "\<forall>k < Suc h. xs ! k < t"
      proof (intro allI impI)
        fix k assume "k < Suc h"
        then have "xs ! k \<le> xs ! h" using sorted_nth_mono [OF assms(1), of k h] h by simp
        then show "xs ! k < t" using lt by simp
      qed
      then have "(\<forall>k < bsearch xs t (Suc h) j. xs ! k < t) \<and> (\<forall>k. bsearch xs t (Suc h) j \<le> k \<longrightarrow> k < length xs \<longrightarrow> t \<le> xs ! k)"
        using h less.prems by (intro less.hyps) auto
      moreover have "bsearch xs t i j = bsearch xs t (Suc h) j"
        using True lt by (subst bsearch.simps) (simp add: h_def Let_def)
      ultimately show ?thesis by simp
    next
      case ge: False
      have "\<forall>k. h \<le> k \<longrightarrow> k < length xs \<longrightarrow> t \<le> xs ! k"
      proof (intro allI impI)
        fix k assume "h \<le> k" "k < length xs"
        then have "xs ! h \<le> xs ! k" using sorted_nth_mono [OF assms(1), of h k] by simp
        then show "t \<le> xs ! k" using ge by simp
      qed
      then have "(\<forall>k < bsearch xs t i h. xs ! k < t) \<and> (\<forall>k. bsearch xs t i h \<le> k \<longrightarrow> k < length xs \<longrightarrow> t \<le> xs ! k)"
        using h less.prems by (intro less.hyps) auto
      moreover have "bsearch xs t i j = bsearch xs t i h"
        using True ge by (subst bsearch.simps) (simp add: h_def Let_def)
      ultimately show ?thesis by simp
    qed
  qed
qed

lemma BinarySearch_member:
  assumes "sorted xs"
  shows "snd (BinarySearch xs t) \<longleftrightarrow> t \<in> set xs"
proof
  show "snd (BinarySearch xs t) \<Longrightarrow> t \<in> set xs" by (auto simp: BinarySearch_def Let_def dest: nth_mem)
next
  let ?i = "bsearch xs t 0 (length xs)"
  have p: "\<forall>k < ?i. xs ! k < t" "\<forall>k. ?i \<le> k \<longrightarrow> k < length xs \<longrightarrow> t \<le> xs ! k"
    using bsearch_partition [OF assms, of "length xs" 0 t] by auto
  assume "t \<in> set xs"
  then obtain k where k: "k < length xs" "xs ! k = t" by (auto simp: in_set_conv_nth)
  then have "?i \<le> k" using p(1) by (metis leI less_irrefl)
  moreover then have "xs ! ?i \<le> t" using k sorted_nth_mono [OF assms] by fastforce
  ultimately show "snd (BinarySearch xs t)" using p(2) k by (auto simp: BinarySearch_def Let_def intro: antisym)
qed

lemma names_ascending: "successively (<) names"
  unfolding names_def by code_simp

lemma names_strict: "sorted_wrt (<) names"
  using names_ascending by (simp add: successively_conv_sorted_wrt)

lemma names_sorted: "sorted names"
  using names_strict strict_sorted_imp_sorted by blast

section \<open>Properties\<close>

text \<open>
  The catalogue is sorted and free of duplicates, and \<open>Contains\<close>, a binary search over it,
  accepts exactly the names it lists.
\<close>

theorem Contains_iff_listed: "sorted Names \<and> distinct Names \<and> (Contains name \<longleftrightarrow> name \<in> set Names)"
proof -
  have "distinct names" using names_strict strict_sorted_iff by blast
  then show ?thesis using names_sorted BinarySearch_member [OF names_sorted, of name] by (simp add: Names_def Contains_def)
qed

text \<open>
  C34: a credential template is accepted exactly when, at any depth of any of its named templates, it
  calls no function but \<open>lower\<close> and \<open>upper\<close> and contains no template call without an argument; a
  refusal always names a real forbidden function.  A template that calls only the permitted
  functions but has a template call without an argument (and no other) makes \<open>Parse\<close> panic on the nil pipe.
\<close>

theorem Parse_template_outcome:
  "(Parse_template (Some ts) = Some (Inr ts) \<longleftrightarrow>
      (\<forall>t \<in> set ts. identifiers t \<subseteq> {''lower'', ''upper''} \<and> \<not> bare_call t))
   \<and> (Parse_template (Some ts) = Some (Inl ErrUnsupportedFunction) \<longrightarrow>
        (\<exists>t \<in> set ts. \<not> identifiers t \<subseteq> {''lower'', ''upper''}))
   \<and> (Parse_template (Some ts) = None \<longrightarrow> (\<exists>t \<in> set ts. bare_call t))
   \<and> ((\<forall>t \<in> set ts. identifiers t \<subseteq> {''lower'', ''upper''}) \<and> (\<exists>t \<in> set ts. bare_call t) \<longrightarrow>
        Parse_template (Some ts) = None)"
proof (intro conjI impI)
  show "Parse_template (Some ts) = Some (Inr ts) \<longleftrightarrow>
      (\<forall>t \<in> set ts. identifiers t \<subseteq> {''lower'', ''upper''} \<and> \<not> bare_call t)"
    using all_valid_True [of "map validNode ts"] by (auto simp: Parse_template_def validNode_True split: option.splits)
next
  assume "Parse_template (Some ts) = Some (Inl ErrUnsupportedFunction)"
  then have "all_valid (map validNode ts) = Some False" by (auto simp: Parse_template_def split: option.splits if_splits)
  then obtain t where "t \<in> set ts" "validNode t = Some False" using all_valid_stop(2) [of validNode ts "Some False"] by auto
  then show "\<exists>t \<in> set ts. \<not> identifiers t \<subseteq> {''lower'', ''upper''}" using validNode_refusal by blast
next
  assume "Parse_template (Some ts) = None"
  then have "all_valid (map validNode ts) = None" by (auto simp: Parse_template_def split: option.splits)
  then obtain t where "t \<in> set ts" "validNode t = None" using all_valid_stop(2) [of validNode ts None] by auto
  then show "\<exists>t \<in> set ts. bare_call t" using validNode_panic by blast
next
  assume a: "(\<forall>t \<in> set ts. identifiers t \<subseteq> {''lower'', ''upper''}) \<and> (\<exists>t \<in> set ts. bare_call t)"
  then have "all_valid (map validNode ts) \<noteq> Some False" using all_valid_stop(2) [of validNode ts "Some False"] validNode_refusal by fastforce
  moreover have "all_valid (map validNode ts) \<noteq> Some True" using a by (auto simp: all_valid_True validNode_True)
  ultimately have "all_valid (map validNode ts) = None" by (metis (full_types) not_None_eq)
  then show "Parse_template (Some ts) = None" by (simp add: Parse_template_def)
qed

lemma Parse_template_outcome_witness:
  "Parse_template (Some [ListN (Some [TemplateN None])]) = None
   \<and> Parse_template (Some [ListN (Some [ActionN (PipeN [CommandN [IdentifierN ''lower'', LeafN]])])]) \<noteq> None"
  using Parse_template_outcome [of "[ListN (Some [TemplateN None])]"]
    Parse_template_outcome [of "[ListN (Some [ActionN (PipeN [CommandN [IdentifierN ''lower'', LeafN]])])]"]
  by simp

end
