(* ===== verification/Nats_Subjects.thy ===== *)
theory Nats_Subjects
  imports Net_IP
begin

text \<open>
  NATS subjects and limits (\<open>internal/natsx/natsx.go\<close>).  A subject token is checked rune by rune;
  \<open>uni\<close> stands for Unicode's letter and digit tables, applied to the runes outside ASCII of a token
  (no such rune can be a separator or a wildcard).
\<close>

section \<open>Definitions\<close>

definition ascii_token_char :: "char \<Rightarrow> bool" where
  "ascii_token_char c \<longleftrightarrow> is_upper c \<or> is_lower c \<or> is_digit c \<or> c = CHR ''-'' \<or> c = CHR ''_''"

datatype subject_error = SubjectTokenRequired | SubjectTokenUnsafe | UnsupportedStreamDirection

definition validateSubjectToken :: "(string \<Rightarrow> bool) \<Rightarrow> string \<Rightarrow> subject_error option" where
  "validateSubjectToken uni token =
     (if token = [] then Some SubjectTokenRequired
      else if list_all (\<lambda>c. ascii_token_char c \<or> (of_char c :: nat) \<ge> 128) token \<and> uni token then None
      else Some SubjectTokenUnsafe)"

definition RegistrationSubject :: string where
  "RegistrationSubject = ''straw.v1.control.register''"

definition HeartbeatSubject :: string where
  "HeartbeatSubject = ''straw.v1.control.heartbeat''"

definition WorkerInboxPrefix :: "(string \<Rightarrow> bool) \<Rightarrow> string \<Rightarrow> subject_error + string" where
  "WorkerInboxPrefix uni workerID = (case validateSubjectToken uni workerID of
     Some e \<Rightarrow> Inl e | None \<Rightarrow> Inr (''_INBOX.wrk.'' @ workerID))"

definition AssignmentSubject :: "(string \<Rightarrow> bool) \<Rightarrow> string \<Rightarrow> string \<Rightarrow> subject_error + string" where
  "AssignmentSubject uni workerID sessionID = (case validateSubjectToken uni workerID of
     Some e \<Rightarrow> Inl e
   | None \<Rightarrow> (case validateSubjectToken uni sessionID of
        Some e \<Rightarrow> Inl e
      | None \<Rightarrow> Inr (''straw.v1.executor.'' @ workerID @ ''.'' @ sessionID @ ''.assign'')))"

definition StreamSubject :: "(string \<Rightarrow> bool) \<Rightarrow> string \<Rightarrow> string \<Rightarrow> string \<Rightarrow> string \<Rightarrow> subject_error + string" where
  "StreamSubject uni requestID workerID sessionID direction =
     (case validateSubjectToken uni requestID of
        Some e \<Rightarrow> Inl e
      | None \<Rightarrow> (case validateSubjectToken uni workerID of
           Some e \<Rightarrow> Inl e
         | None \<Rightarrow> (case validateSubjectToken uni sessionID of
              Some e \<Rightarrow> Inl e
            | None \<Rightarrow>
                if direction = ''c2e'' \<or> direction = ''e2c''
                then Inr (''straw.v1.req.'' @ requestID @ ''.'' @ workerID @ ''.'' @ sessionID @ ''.'' @ direction)
                else Inl UnsupportedStreamDirection)))"

abbreviation payloadSafetyMargin :: uint64 where
  "payloadSafetyMargin \<equiv> 65536"

datatype payload_error = MaxPayloadTooSmall | FrameBodyLimitTooLarge

definition ValidateMaxPayload :: "uint64 option \<Rightarrow> uint64 \<Rightarrow> uint64 \<Rightarrow> uint64 \<Rightarrow> payload_error option" where
  "ValidateMaxPayload maxPayloadBytes maxFrameDataBytes maxInlineRequest maxInlineResponse =
     (case maxPayloadBytes of
        None \<Rightarrow> None
      | Some mp \<Rightarrow>
          if mp \<le> payloadSafetyMargin then Some MaxPayloadTooSmall
          else if max (max maxInlineRequest maxFrameDataBytes) maxInlineResponse > mp - payloadSafetyMargin
          then Some FrameBodyLimitTooLarge
          else None)"

datatype servers_error = NATSServersRequired | NATSServerEmpty nat

fun first_blank :: "nat \<Rightarrow> string list \<Rightarrow> nat option" where
  "first_blank i [] = None"
| "first_blank i (s # ss) = (if trim_space s = [] then Some i else first_blank (Suc i) ss)"

definition ValidateServers :: "string list \<Rightarrow> servers_error option" where
  "ValidateServers servers =
     (if servers = [] then Some NATSServersRequired else map_option NATSServerEmpty (first_blank 0 servers))"

definition plain_token :: "string \<Rightarrow> bool" where
  "plain_token t \<longleftrightarrow> t \<noteq> [] \<and> CHR ''.'' \<notin> set t \<and> CHR ''*'' \<notin> set t \<and> CHR ''>'' \<notin> set t"

section \<open>Lemmas\<close>

lemma token_plain: "validateSubjectToken uni t = None \<Longrightarrow> plain_token t"
proof -
  assume "validateSubjectToken uni t = None"
  then have "list_all (\<lambda>c. ascii_token_char c \<or> (of_char c :: nat) \<ge> 128) t" "t \<noteq> []"
    by (auto simp: validateSubjectToken_def split: if_splits)
  moreover have "\<not> ascii_token_char CHR ''.''" "\<not> (of_char CHR ''.'' :: nat) \<ge> 128"
    "\<not> ascii_token_char CHR ''*''" "\<not> (of_char CHR ''*'' :: nat) \<ge> 128"
    "\<not> ascii_token_char CHR ''>''" "\<not> (of_char CHR ''>'' :: nat) \<ge> 128" by code_simp+
  ultimately show ?thesis by (auto simp: list_all_iff plain_token_def)
qed

lemma StreamSubject_Inr:
  assumes "StreamSubject uni r w s d = Inr subject"
  shows "subject = join CHR ''.'' [''straw'', ''v1'', ''req'', r, w, s, d]"
    and "plain_token r" "plain_token w" "plain_token s" "d = ''c2e'' \<or> d = ''e2c''"
  using assms by (auto simp: StreamSubject_def token_plain split: option.splits if_splits)

lemma AssignmentSubject_Inr:
  assumes "AssignmentSubject uni w s = Inr subject"
  shows "subject = join CHR ''.'' [''straw'', ''v1'', ''executor'', w, s, ''assign'']"
    and "plain_token w" "plain_token s"
  using assms by (auto simp: AssignmentSubject_def token_plain split: option.splits if_splits)

lemma StreamSubject_parts:
  assumes "StreamSubject uni r w s d = Inr subject"
  shows "split_on CHR ''.'' subject = [''straw'', ''v1'', ''req'', r, w, s, d]"
  using StreamSubject_Inr [OF assms] by (auto simp: plain_token_def intro!: split_on_join simp del: join.simps)

lemma AssignmentSubject_parts:
  assumes "AssignmentSubject uni w s = Inr subject"
  shows "split_on CHR ''.'' subject = [''straw'', ''v1'', ''executor'', w, s, ''assign'']"
  using AssignmentSubject_Inr [OF assms] by (auto simp: plain_token_def intro!: split_on_join simp del: join.simps)

section \<open>Properties\<close>

text \<open>
  C25: subjects keep conversations apart.  Two stream subjects are equal only for the same request,
  worker, session and direction, two assignment subjects only for the same worker and session, and
  no stream subject is an assignment, registration or heartbeat subject.
\<close>

theorem subjects_separate:
  assumes "StreamSubject uni r w s d = Inr subject"
  shows "(StreamSubject uni r' w' s' d' = Inr subject \<longrightarrow> r' = r \<and> w' = w \<and> s' = s \<and> d' = d)
    \<and> (AssignmentSubject uni w' s' = AssignmentSubject uni w'' s'' \<and> AssignmentSubject uni w' s' = Inr a
         \<longrightarrow> w' = w'' \<and> s' = s'')
    \<and> AssignmentSubject uni w' s' \<noteq> Inr subject \<and> subject \<noteq> RegistrationSubject \<and> subject \<noteq> HeartbeatSubject"
proof -
  note parts = StreamSubject_parts [OF assms]
  have "split_on CHR ''.'' RegistrationSubject = [''straw'', ''v1'', ''control'', ''register'']"
    "split_on CHR ''.'' HeartbeatSubject = [''straw'', ''v1'', ''control'', ''heartbeat'']" by code_simp+
  then have "subject \<noteq> RegistrationSubject" "subject \<noteq> HeartbeatSubject" using parts by auto
  moreover have "AssignmentSubject uni w' s' \<noteq> Inr subject" using AssignmentSubject_parts parts by fastforce
  moreover have "r' = r \<and> w' = w \<and> s' = s \<and> d' = d" if "StreamSubject uni r' w' s' d' = Inr subject"
    using StreamSubject_parts [OF that] parts by simp
  moreover have "w' = w'' \<and> s' = s''"
    if "AssignmentSubject uni w' s' = AssignmentSubject uni w'' s''" "AssignmentSubject uni w' s' = Inr a"
    using AssignmentSubject_parts [of uni w' s' a] AssignmentSubject_parts [of uni w'' s'' a] that by simp
  ultimately show ?thesis by blast
qed

lemma subjects_separate_witness:
  "StreamSubject (\<lambda>_. True) ''r1'' ''w1'' ''s1'' ''c2e'' = Inr ''straw.v1.req.r1.w1.s1.c2e''
   \<and> StreamSubject (\<lambda>_. True) ''r1'' ''w1'' ''s1'' ''e2c'' \<noteq> Inr ''straw.v1.req.r1.w1.s1.c2e''"
proof -
  have e: "StreamSubject (\<lambda>_. True) ''r1'' ''w1'' ''s1'' ''c2e'' = Inr ''straw.v1.req.r1.w1.s1.c2e''" by code_simp
  show ?thesis using e subjects_separate [OF e, of "''r1''" "''w1''" "''s1''" "''e2c''"] by simp
qed

text \<open>
  C37: a configuration that passes the payload check leaves the safety margin: no configured frame
  or inline body limit plus the margin exceeds what the NATS server accepts, also in 64-bit
  arithmetic at the boundary.
\<close>

theorem payload_limits_leave_margin:
  "ValidateMaxPayload (Some mp) f rq rs = None \<longleftrightarrow>
     2 ^ 16 < unat mp \<and> unat f + 2 ^ 16 \<le> unat mp \<and> unat rq + 2 ^ 16 \<le> unat mp \<and> unat rs + 2 ^ 16 \<le> unat mp"
proof -
  have gt: "payloadSafetyMargin < mp \<longleftrightarrow> 2 ^ 16 < unat mp" by (simp add: word_less_nat_alt)
  have sub: "x \<le> mp - payloadSafetyMargin \<longleftrightarrow> unat x + 2 ^ 16 \<le> unat mp" if "payloadSafetyMargin < mp" for x
    using that unat_sub_le_64 [of "2 ^ 16" mp] by (auto simp: word_le_nat_alt word_less_nat_alt)
  show ?thesis
  proof (cases "payloadSafetyMargin < mp")
    case True
    have "ValidateMaxPayload (Some mp) f rq rs = None \<longleftrightarrow>
        rq \<le> mp - payloadSafetyMargin \<and> f \<le> mp - payloadSafetyMargin \<and> rs \<le> mp - payloadSafetyMargin"
      using True by (simp add: ValidateMaxPayload_def linorder_not_less less_max_iff_disj) (meson leD leI)
    then show ?thesis using True gt sub [OF True] by auto
  next
    case False
    then show ?thesis using gt by (auto simp: ValidateMaxPayload_def)
  qed
qed

end
