(* ===== verification/Worker_Registry.thy ===== *)
theory Worker_Registry
  imports Config_Types Fingerprint Nats_Subjects
begin

text \<open>
  The in-process worker registry (\<open>internal/control/worker_registry.go\<close>): registration, heartbeats,
  the failure circuit breaker, the runtime state of a session and the candidates it offers for a
  pool.  Go maps are HOL maps; where the code ranges over the worker map, the iteration order is an
  argument.  \<open>sid\<close> is the outcome of reading random bytes for a session id.
\<close>

section \<open>State\<close>

abbreviation ProtocolMajor :: uint32 where "ProtocolMajor \<equiv> 1"
abbreviation ControlSupportedMinor :: uint32 where "ControlSupportedMinor \<equiv> 2"
abbreviation upstreamProxyProtocolMinor :: uint32 where "upstreamProxyProtocolMinor \<equiv> 2"

datatype WorkerRuntimeState = RuntimeRegistered | RuntimeReady | RuntimeDegraded | RuntimeUnavailable
  | RuntimeDead | RuntimeDraining | RuntimeCooldown | RuntimeUnhealthy | RuntimeDisabled

datatype WorkerHealth = HEALTH_UNSPECIFIED | HEALTH_READY | HEALTH_DEGRADED | HEALTH_UNHEALTHY | HEALTH_OTHER

record WorkerTimings =
  wt_AvailabilityTimeout :: int
  wt_DeadTimeout :: int
  wt_CooldownFailureCount :: int
  wt_CooldownWindow :: int
  wt_CooldownDuration :: int

definition DefaultWorkerTimings :: WorkerTimings where
  "DefaultWorkerTimings = \<lparr>wt_AvailabilityTimeout = 15000, wt_DeadTimeout = 30000, wt_CooldownFailureCount = 3,
     wt_CooldownWindow = 60000, wt_CooldownDuration = 30000\<rparr>"

record AllowedPool =
  al_PoolID :: string
  al_UpstreamProxyID :: string

record workerSession =
  s_sessionID :: string
  s_executorType :: string
  s_supportedProtocolMinor :: uint32
  s_protocolMinor :: uint32
  s_pools :: "AllowedPool list"
  s_tags :: "string list"
  s_countries :: "string list"
  s_regions :: "string list"
  s_ipTypes :: "string list"
  s_ingressModes :: "string list"
  s_supportedFingerprintProfiles :: "string list"
  s_maxConcurrency :: uint32
  s_activeRequests :: uint32
  s_availableCapacity :: uint32
  s_health :: WorkerHealth
  s_draining :: bool
  s_registeredAt :: instant
  s_lastHeartbeat :: instant
  s_hasHeartbeat :: bool
  s_failures :: "instant list"
  s_cooldownUntil :: instant

record WorkerRegistry =
  wr_timings :: WorkerTimings
  wr_workers :: "string \<rightharpoonup> workerSession"
  wr_settings :: "string \<rightharpoonup> WorkerSetting"
  wr_pools :: "string \<rightharpoonup> ExecutorPool"

definition default_pool :: ExecutorPool where
  "default_pool = \<lparr>ep_ID = ''default'', ep_ExecutorType = ''egress'', ep_Tags = [], ep_Enabled = True,
     ep_AllowDegradedWorkers = False, ep_AllowedIPTypes = [], ep_AllowedCountries = [], ep_AllowedRegions = [],
     ep_UpstreamProxy = None\<rparr>"

definition NewDeploymentWorkerRegistry :: "WorkerTimings \<Rightarrow> WorkerRegistry" where
  "NewDeploymentWorkerRegistry timings = \<lparr>wr_timings = timings, wr_workers = Map.empty, wr_settings = Map.empty,
     wr_pools = [''default'' \<mapsto> default_pool]\<rparr>"

section \<open>Registration\<close>

record PoolRef =
  ref_DeploymentId :: string
  ref_PoolId :: string
  ref_UpstreamProxyId :: string

record RegisterRequest =
  rq_WorkerId :: string
  rq_ProtocolMajor :: uint32
  rq_ProtocolMinor :: uint32
  rq_ExecutorType :: string
  rq_AllowedPools :: "PoolRef option list"
  rq_Tags :: "string list"
  rq_Countries :: "string list"
  rq_Regions :: "string list"
  rq_IpTypes :: "string list"
  rq_SupportedIngressModes :: "string list"
  rq_SupportedFingerprintProfiles :: "string list"
  rq_MaxConcurrency :: uint32
  rq_InitialDraining :: bool

datatype RegisterOutcome = Registered string | Rejected string | RegisterFailed

fun check_profiles :: "string list \<Rightarrow> string list \<Rightarrow> bool" where
  "check_profiles [] seen = True"
| "check_profiles (p # ps) seen = (if \<not> Contains p then False else if p \<in> set seen then False else check_profiles ps (p # seen))"

definition rejectFingerprintProfileCapabilities :: "RegisterRequest \<Rightarrow> string option" where
  "rejectFingerprintProfileCapabilities req =
     (let profiles = rq_SupportedFingerprintProfiles req in
      if profiles = [] then None
      else if rq_ProtocolMinor req < 1 \<or> length profiles > length Names then Some ''capability_out_of_scope''
      else if check_profiles profiles [] then None else Some ''capability_out_of_scope'')"

definition deploymentPoolIDs :: "PoolRef option \<Rightarrow> string \<times> string \<times> bool" where
  "deploymentPoolIDs ref = (case ref of
     None \<Rightarrow> ([], [], False)
   | Some r \<Rightarrow>
      (let deploymentID = (if ref_DeploymentId r = [] then ''default'' else ref_DeploymentId r);
           poolID = (if ref_PoolId r = [] then ''default'' else ref_PoolId r)
       in (deploymentID, poolID, deploymentID = ''default'')))"

definition configuredUpstreamProxyID :: "ExecutorPool \<Rightarrow> string" where
  "configuredUpstreamProxyID pool = (case ep_UpstreamProxy pool of None \<Rightarrow> [] | Some p \<Rightarrow> up_ID p)"

definition allowedDeploymentPool ::
    "PoolRef option \<Rightarrow> string \<Rightarrow> (string \<rightharpoonup> ExecutorPool) \<Rightarrow> uint32 \<Rightarrow> string + AllowedPool" where
  "allowedDeploymentPool ref poolID configured protocolMinor = (case configured poolID of
     None \<Rightarrow> Inl ''invalid_pool_membership''
   | Some pool \<Rightarrow>
      (let upstreamProxyID = (case ref of None \<Rightarrow> [] | Some r \<Rightarrow> ref_UpstreamProxyId r) in
       if upstreamProxyID \<noteq> [] \<and> protocolMinor < upstreamProxyProtocolMinor then Inl ''incompatible_protocol''
       else if upstreamProxyID \<noteq> configuredUpstreamProxyID pool then Inl ''invalid_pool_membership''
       else Inr \<lparr>al_PoolID = poolID, al_UpstreamProxyID = upstreamProxyID\<rparr>))"

fun pool_loop ::
    "(string \<rightharpoonup> ExecutorPool) \<Rightarrow> uint32 \<Rightarrow> PoolRef option list \<Rightarrow> string list \<Rightarrow> string + AllowedPool list" where
  "pool_loop configured minor [] seen = Inr []"
| "pool_loop configured minor (ref # refs) seen =
     (case deploymentPoolIDs ref of (_, poolID, ok) \<Rightarrow>
        if \<not> ok then Inl ''invalid_pool_membership''
        else if poolID \<in> set seen then Inl ''invalid_pool_membership''
        else case allowedDeploymentPool ref poolID configured minor of
          Inl reason \<Rightarrow> Inl reason
        | Inr allowed \<Rightarrow> (case pool_loop configured minor refs (poolID # seen) of
             Inl reason \<Rightarrow> Inl reason | Inr pools \<Rightarrow> Inr (allowed # pools)))"

definition deploymentPools ::
    "PoolRef option list \<Rightarrow> (string \<rightharpoonup> ExecutorPool) \<Rightarrow> uint32 \<Rightarrow> string + AllowedPool list" where
  "deploymentPools refs configured minor =
     pool_loop configured minor
       (if refs = [] then [Some \<lparr>ref_DeploymentId = ''default'', ref_PoolId = ''default'', ref_UpstreamProxyId = []\<rparr>]
        else refs) []"

definition new_session :: "string \<Rightarrow> RegisterRequest \<Rightarrow> AllowedPool list \<Rightarrow> instant \<Rightarrow> workerSession" where
  "new_session sid req pools now =
     \<lparr>s_sessionID = sid, s_executorType = rq_ExecutorType req, s_supportedProtocolMinor = rq_ProtocolMinor req,
      s_protocolMinor = min ControlSupportedMinor (rq_ProtocolMinor req), s_pools = pools, s_tags = rq_Tags req,
      s_countries = rq_Countries req, s_regions = rq_Regions req, s_ipTypes = rq_IpTypes req,
      s_ingressModes = rq_SupportedIngressModes req,
      s_supportedFingerprintProfiles = rq_SupportedFingerprintProfiles req,
      s_maxConcurrency = rq_MaxConcurrency req, s_activeRequests = 0, s_availableCapacity = 0,
      s_health = HEALTH_READY, s_draining = rq_InitialDraining req, s_registeredAt = now, s_lastHeartbeat = 0,
      s_hasHeartbeat = False, s_failures = [], s_cooldownUntil = 0\<rparr>"

definition Register ::
    "(string \<Rightarrow> bool) \<Rightarrow> string option \<Rightarrow> instant \<Rightarrow> RegisterRequest option \<Rightarrow> WorkerRegistry
      \<Rightarrow> WorkerRegistry \<times> RegisterOutcome" where
  "Register uni sid now mreq r = (case mreq of
     None \<Rightarrow> (r, Rejected ''invalid_worker_id'')
   | Some req \<Rightarrow>
      if validateSubjectToken uni (rq_WorkerId req) \<noteq> None then (r, Rejected ''invalid_worker_id'')
      else if rq_ProtocolMajor req \<noteq> ProtocolMajor \<or> rq_ProtocolMinor req > ControlSupportedMinor
      then (r, Rejected ''incompatible_protocol'')
      else case rejectFingerprintProfileCapabilities req of
        Some reason \<Rightarrow> (r, Rejected reason)
      | None \<Rightarrow> (case sid of
          None \<Rightarrow> (r, RegisterFailed)
        | Some sessionID \<Rightarrow>
           (case deploymentPools (rq_AllowedPools req) (wr_pools r) (rq_ProtocolMinor req) of
              Inl reason \<Rightarrow> (r, Rejected reason)
            | Inr pools \<Rightarrow>
                (r\<lparr>wr_workers := (wr_workers r)(rq_WorkerId req \<mapsto> new_session sessionID req pools now)\<rparr>,
                 Registered sessionID))))"

section \<open>Heartbeats and failures\<close>

record HeartbeatRequest =
  hb_WorkerId :: string
  hb_SessionId :: string
  hb_Health :: WorkerHealth
  hb_ActiveRequests :: uint32
  hb_AvailableCapacity :: uint32
  hb_MaxConcurrency :: uint32
  hb_Draining :: bool

definition applyHeartbeat :: "HeartbeatRequest \<Rightarrow> instant \<Rightarrow> workerSession \<Rightarrow> workerSession" where
  "applyHeartbeat hb now s =
     s\<lparr>s_hasHeartbeat := True, s_lastHeartbeat := now,
       s_health := (if hb_Health hb \<noteq> HEALTH_OTHER \<and> hb_Health hb \<noteq> HEALTH_UNSPECIFIED then hb_Health hb else s_health s),
       s_activeRequests := hb_ActiveRequests hb, s_availableCapacity := hb_AvailableCapacity hb,
       s_maxConcurrency := (if hb_MaxConcurrency hb > 0 then hb_MaxConcurrency hb else s_maxConcurrency s),
       s_draining := hb_Draining hb\<rparr>"

definition Heartbeat :: "instant \<Rightarrow> HeartbeatRequest option \<Rightarrow> WorkerRegistry \<Rightarrow> WorkerRegistry \<times> bool" where
  "Heartbeat now mhb r = (case mhb of
     None \<Rightarrow> (r, False)
   | Some hb \<Rightarrow> (case wr_workers r (hb_WorkerId hb) of
        None \<Rightarrow> (r, False)
      | Some s \<Rightarrow>
          if s_sessionID s \<noteq> hb_SessionId hb then (r, False)
          else (r\<lparr>wr_workers := (wr_workers r)(hb_WorkerId hb \<mapsto> applyHeartbeat hb now s)\<rparr>, True)))"

definition session_failure :: "WorkerTimings \<Rightarrow> instant \<Rightarrow> workerSession \<Rightarrow> workerSession" where
  "session_failure t now s =
     (let kept = filter (\<lambda>f. f > now - wt_CooldownWindow t) (s_failures s) @ [now] in
      if int (length kept) \<ge> wt_CooldownFailureCount t
      then s\<lparr>s_failures := [], s_cooldownUntil := now + wt_CooldownDuration t\<rparr>
      else s\<lparr>s_failures := kept\<rparr>)"

definition RecordFailure :: "instant \<Rightarrow> string \<Rightarrow> WorkerRegistry \<Rightarrow> WorkerRegistry" where
  "RecordFailure now workerID r = (case wr_workers r workerID of
     None \<Rightarrow> r
   | Some s \<Rightarrow> r\<lparr>wr_workers := (wr_workers r)(workerID \<mapsto> session_failure (wr_timings r) now s)\<rparr>)"

definition ApplySnapshot :: "Snapshot \<Rightarrow> WorkerRegistry \<Rightarrow> WorkerRegistry" where
  "ApplySnapshot snapshot r =
     r\<lparr>wr_settings := foldl (\<lambda>m w. m(ws_WorkerID w \<mapsto> w)) Map.empty (sn_WorkerSettings snapshot),
       wr_pools := foldl (\<lambda>m p. m(ep_ID p \<mapsto> p)) Map.empty (sn_ExecutorPools snapshot)\<rparr>"

section \<open>Runtime state and candidates\<close>

definition lastSeen :: "workerSession \<Rightarrow> instant" where
  "lastSeen s = (if s_hasHeartbeat s then s_lastHeartbeat s else s_registeredAt s)"

definition healthRuntimeState :: "WorkerHealth \<Rightarrow> WorkerRuntimeState" where
  "healthRuntimeState h = (case h of HEALTH_UNSPECIFIED \<Rightarrow> RuntimeRegistered | HEALTH_READY \<Rightarrow> RuntimeReady
     | HEALTH_DEGRADED \<Rightarrow> RuntimeDegraded | HEALTH_UNHEALTHY \<Rightarrow> RuntimeUnhealthy | HEALTH_OTHER \<Rightarrow> RuntimeRegistered)"

definition runtimeStateForSession :: "WorkerTimings \<Rightarrow> workerSession \<Rightarrow> instant \<Rightarrow> WorkerRuntimeState" where
  "runtimeStateForSession t s now =
     (let staleness = now - lastSeen s in
      if staleness > wt_DeadTimeout t then RuntimeDead
      else if staleness > wt_AvailabilityTimeout t then RuntimeUnavailable
      else if \<not> s_hasHeartbeat s then RuntimeRegistered
      else if s_draining s then RuntimeDraining
      else if now < s_cooldownUntil s then RuntimeCooldown
      else healthRuntimeState (s_health s))"

definition runtimeStateWithSettings ::
    "WorkerTimings \<Rightarrow> (string \<rightharpoonup> WorkerSetting) \<Rightarrow> string \<Rightarrow> workerSession \<Rightarrow> instant \<Rightarrow> WorkerRuntimeState" where
  "runtimeStateWithSettings t settings workerID s now = (case settings workerID of
     Some setting \<Rightarrow>
       if \<not> ws_Enabled setting then RuntimeDisabled
       else if ws_Draining setting then RuntimeDraining
       else runtimeStateForSession t s now
   | None \<Rightarrow> runtimeStateForSession t s now)"

definition sessionPool :: "workerSession \<Rightarrow> string \<Rightarrow> AllowedPool option" where
  "sessionPool s poolID = find (\<lambda>p. al_PoolID p = poolID) (s_pools s)"

record PoolCandidate =
  pc_WorkerID :: string
  pc_SessionID :: string
  pc_AssignSubject :: string
  pc_ExecutorType :: string
  pc_SupportedProtocolMinor :: uint32
  pc_ProtocolMinor :: uint32
  pc_UpstreamProxyID :: string
  pc_Degraded :: bool
  pc_Tags :: "string list"
  pc_Countries :: "string list"
  pc_Regions :: "string list"
  pc_IPTypes :: "string list"
  pc_IngressModes :: "string list"
  pc_SupportedFingerprintProfiles :: "string list"
  pc_ActiveRequests :: uint32
  pc_MaxConcurrency :: uint32
  pc_AvailableCap :: uint32

definition candidateFromSession :: "string \<Rightarrow> string \<Rightarrow> workerSession \<Rightarrow> AllowedPool \<Rightarrow> bool \<Rightarrow> PoolCandidate" where
  "candidateFromSession workerID subject s pool degraded =
     \<lparr>pc_WorkerID = workerID, pc_SessionID = s_sessionID s, pc_AssignSubject = subject,
      pc_ExecutorType = s_executorType s, pc_SupportedProtocolMinor = s_supportedProtocolMinor s,
      pc_ProtocolMinor = s_protocolMinor s, pc_UpstreamProxyID = al_UpstreamProxyID pool, pc_Degraded = degraded,
      pc_Tags = s_tags s, pc_Countries = s_countries s, pc_Regions = s_regions s, pc_IPTypes = s_ipTypes s,
      pc_IngressModes = s_ingressModes s, pc_SupportedFingerprintProfiles = s_supportedFingerprintProfiles s,
      pc_ActiveRequests = s_activeRequests s, pc_MaxConcurrency = s_maxConcurrency s,
      pc_AvailableCap = s_availableCapacity s\<rparr>"

definition worker_candidate ::
    "(string \<Rightarrow> bool) \<Rightarrow> instant \<Rightarrow> WorkerRegistry \<Rightarrow> string \<Rightarrow> string \<Rightarrow> PoolCandidate option" where
  "worker_candidate uni now r poolID workerID = (case wr_workers r workerID of
     None \<Rightarrow> None
   | Some s \<Rightarrow>
      (let state = runtimeStateWithSettings (wr_timings r) (wr_settings r) workerID s now in
       case sessionPool s poolID of
         None \<Rightarrow> None
       | Some pool \<Rightarrow>
          if state \<noteq> RuntimeReady \<and> state \<noteq> RuntimeDegraded then None
          else case AssignmentSubject uni workerID (s_sessionID s) of
            Inl _ \<Rightarrow> None
          | Inr subject \<Rightarrow> Some (candidateFromSession workerID subject s pool (state = RuntimeDegraded))))"

definition CandidatesForPool ::
    "(string \<Rightarrow> bool) \<Rightarrow> string list \<Rightarrow> instant \<Rightarrow> WorkerRegistry \<Rightarrow> string \<Rightarrow> PoolCandidate list" where
  "CandidatesForPool uni order now r poolID = List.map_filter (worker_candidate uni now r poolID) order"

record WorkerInfo =
  wi_WorkerID :: string
  wi_SessionID :: string
  wi_State :: WorkerRuntimeState
  wi_Enabled :: bool
  wi_Draining :: bool
  wi_ExecutorType :: string
  wi_ActiveRequests :: uint32
  wi_AvailableCapacity :: uint32
  wi_MaxConcurrency :: uint32
  wi_LastSeen :: instant
  wi_Pools :: "string list"

definition worker_info :: "instant \<Rightarrow> WorkerRegistry \<Rightarrow> string \<Rightarrow> WorkerInfo option" where
  "worker_info now r workerID = (case wr_workers r workerID of
     None \<Rightarrow> None
   | Some s \<Rightarrow>
      (case (case wr_settings r workerID of
               Some st \<Rightarrow> (ws_Enabled st, ws_Draining st \<or> s_draining s)
             | None \<Rightarrow> (True, s_draining s)) of (enabled, draining) \<Rightarrow>
       Some \<lparr>wi_WorkerID = workerID, wi_SessionID = s_sessionID s,
         wi_State = runtimeStateWithSettings (wr_timings r) (wr_settings r) workerID s now,
         wi_Enabled = enabled, wi_Draining = draining, wi_ExecutorType = s_executorType s,
         wi_ActiveRequests = s_activeRequests s, wi_AvailableCapacity = s_availableCapacity s,
         wi_MaxConcurrency = s_maxConcurrency s, wi_LastSeen = lastSeen s, wi_Pools = map al_PoolID (s_pools s)\<rparr>))"

text \<open>Worker ids are map keys, hence distinct, so the instability of \<open>slices.SortFunc\<close> does not show.\<close>

definition Workers :: "string list \<Rightarrow> instant \<Rightarrow> WorkerRegistry \<Rightarrow> WorkerInfo list" where
  "Workers order now r = sort_key wi_WorkerID (List.map_filter (worker_info now r) order)"

record WorkerRegistryStats =
  st_Sessions :: nat
  st_Available :: nat
  st_MaxHeartbeatAge :: int
  st_ActiveRequests :: uint64
  st_MaxConcurrency :: uint64
  st_AvailableCapacity :: uint64

definition stats_step :: "instant \<Rightarrow> WorkerRegistry \<Rightarrow> WorkerRegistryStats \<Rightarrow> string \<Rightarrow> WorkerRegistryStats" where
  "stats_step now r st workerID = (case wr_workers r workerID of
     None \<Rightarrow> st
   | Some s \<Rightarrow>
      (let state = runtimeStateWithSettings (wr_timings r) (wr_settings r) workerID s now in
       st\<lparr>st_Available := st_Available st + (if state = RuntimeReady \<or> state = RuntimeDegraded then 1 else 0),
          st_MaxHeartbeatAge := (if s_hasHeartbeat s then max (st_MaxHeartbeatAge st) (now - s_lastHeartbeat s)
                                 else st_MaxHeartbeatAge st),
          st_ActiveRequests := st_ActiveRequests st + ucast (s_activeRequests s),
          st_MaxConcurrency := st_MaxConcurrency st + ucast (s_maxConcurrency s),
          st_AvailableCapacity := st_AvailableCapacity st + ucast (s_availableCapacity s)\<rparr>))"

definition Stats :: "string list \<Rightarrow> instant \<Rightarrow> WorkerRegistry \<Rightarrow> WorkerRegistryStats" where
  "Stats order now r = foldl (stats_step now r)
     \<lparr>st_Sessions = length order, st_Available = 0, st_MaxHeartbeatAge = 0, st_ActiveRequests = 0,
      st_MaxConcurrency = 0, st_AvailableCapacity = 0\<rparr> order"

section \<open>Histories\<close>


text \<open>
  A history of the registry: each operation with the instant it happened at.  Registrations carry the
  session id drawn for them.
\<close>

datatype registry_op =
    OpRegister string "RegisterRequest"
  | OpHeartbeat "HeartbeatRequest"
  | OpFailure string
  | OpSnapshot Snapshot

fun registry_step :: "(string \<Rightarrow> bool) \<Rightarrow> WorkerRegistry \<Rightarrow> instant \<times> registry_op \<Rightarrow> WorkerRegistry" where
  "registry_step uni r (t, OpRegister sid req) = fst (Register uni (Some sid) t (Some req) r)"
| "registry_step uni r (t, OpHeartbeat hb) = fst (Heartbeat t (Some hb) r)"
| "registry_step uni r (t, OpFailure w) = RecordFailure t w r"
| "registry_step uni r (t, OpSnapshot s) = ApplySnapshot s r"

definition registry_run :: "(string \<Rightarrow> bool) \<Rightarrow> WorkerRegistry \<Rightarrow> (instant \<times> registry_op) list \<Rightarrow> WorkerRegistry" where
  "registry_run uni = foldl (registry_step uni)"

text \<open>The session a worker holds by the history alone: the id of its last accepted registration.\<close>

fun last_session :: "(string \<Rightarrow> bool) \<Rightarrow> string \<Rightarrow> WorkerRegistry \<Rightarrow> (instant \<times> registry_op) list \<Rightarrow> string option \<Rightarrow> string option" where
  "last_session uni w r [] acc = acc"
| "last_session uni w r ((t, OpRegister sid req) # ops) acc =
     last_session uni w (registry_step uni r (t, OpRegister sid req)) ops
       (if rq_WorkerId req = w \<and> snd (Register uni (Some sid) t (Some req) r) = Registered sid then Some sid else acc)"
| "last_session uni w r (op # ops) acc = last_session uni w (registry_step uni r op) ops acc"

fun failures_of :: "string \<Rightarrow> (instant \<times> registry_op) list \<Rightarrow> instant list" where
  "failures_of w [] = []"
| "failures_of w ((t, OpFailure v) # ops) = (if v = w then t # failures_of w ops else failures_of w ops)"
| "failures_of w (_ # ops) = failures_of w ops"

fun registers :: "string \<Rightarrow> instant \<times> registry_op \<Rightarrow> bool" where
  "registers w (t, OpRegister sid req) = (rq_WorkerId req = w)"
| "registers w _ = False"

definition fail_state :: "WorkerTimings \<Rightarrow> instant list \<times> instant \<Rightarrow> instant \<Rightarrow> instant list \<times> instant" where
  "fail_state tm st now = (case st of (fs, cd) \<Rightarrow>
     (let kept = filter (\<lambda>f. f > now - wt_CooldownWindow tm) fs @ [now] in
      if int (length kept) \<ge> wt_CooldownFailureCount tm then ([], now + wt_CooldownDuration tm) else (kept, cd)))"

definition usable_session :: "WorkerRegistry \<Rightarrow> string \<Rightarrow> instant \<Rightarrow> workerSession \<Rightarrow> bool" where
  "usable_session r w now s \<longleftrightarrow>
     s_hasHeartbeat s \<and> now - s_lastHeartbeat s \<le> wt_AvailabilityTimeout (wr_timings r) \<and> \<not> s_draining s
   \<and> s_cooldownUntil s \<le> now \<and> s_health s \<in> {HEALTH_READY, HEALTH_DEGRADED}
   \<and> (\<forall>st. wr_settings r w = Some st \<longrightarrow> ws_Enabled st \<and> \<not> ws_Draining st)"

definition ex_register :: "string \<Rightarrow> RegisterRequest" where
  "ex_register w = \<lparr>rq_WorkerId = w, rq_ProtocolMajor = 1, rq_ProtocolMinor = 2, rq_ExecutorType = ''egress'',
     rq_AllowedPools = [], rq_Tags = [], rq_Countries = [], rq_Regions = [], rq_IpTypes = [],
     rq_SupportedIngressModes = [''rest''], rq_SupportedFingerprintProfiles = [], rq_MaxConcurrency = 4,
     rq_InitialDraining = False\<rparr>"

definition ex_heartbeat :: "string \<Rightarrow> string \<Rightarrow> HeartbeatRequest" where
  "ex_heartbeat w s = \<lparr>hb_WorkerId = w, hb_SessionId = s, hb_Health = HEALTH_READY, hb_ActiveRequests = 1,
     hb_AvailableCapacity = 3, hb_MaxConcurrency = 4, hb_Draining = False\<rparr>"

definition ex_session :: workerSession where
  "ex_session = applyHeartbeat (ex_heartbeat ''w1'' ''s1'') 5
     (new_session ''s1'' (ex_register ''w1'') [\<lparr>al_PoolID = ''default'', al_UpstreamProxyID = []\<rparr>] 0)"

definition ex_registry :: WorkerRegistry where
  "ex_registry = (NewDeploymentWorkerRegistry DefaultWorkerTimings)\<lparr>wr_workers := [''w1'' \<mapsto> ex_session]\<rparr>"

section \<open>Lemmas\<close>

lemma AssignmentSubject_ex: "AssignmentSubject (\<lambda>_. True) ''w1'' ''s1'' = Inr ''straw.v1.executor.w1.s1.assign''"
  by code_simp

lemma runtime_usable:
  "runtimeStateWithSettings (wr_timings r) (wr_settings r) w s now \<in> {RuntimeReady, RuntimeDegraded} \<Longrightarrow>
   usable_session r w now s"
  by (auto simp: runtimeStateWithSettings_def runtimeStateForSession_def usable_session_def lastSeen_def Let_def
      healthRuntimeState_def not_less split: option.splits if_splits WorkerHealth.splits)

lemma worker_candidate_Some:
  assumes "worker_candidate uni now r poolID w = Some c"
  obtains s p where "wr_workers r w = Some s" "usable_session r w now s" "p \<in> set (s_pools s)" "al_PoolID p = poolID"
    "AssignmentSubject uni w (s_sessionID s) = Inr (pc_AssignSubject c)"
    "c = candidateFromSession w (pc_AssignSubject c) s p (pc_Degraded c)"
    "pc_Degraded c \<longleftrightarrow> s_health s = HEALTH_DEGRADED"
proof -
  obtain s p subj where s: "wr_workers r w = Some s" "sessionPool s poolID = Some p"
      "AssignmentSubject uni w (s_sessionID s) = Inr subj"
      "runtimeStateWithSettings (wr_timings r) (wr_settings r) w s now \<in> {RuntimeReady, RuntimeDegraded}"
      "c = candidateFromSession w subj s p (runtimeStateWithSettings (wr_timings r) (wr_settings r) w s now = RuntimeDegraded)"
    using assms by (auto simp: worker_candidate_def Let_def split: option.splits sum.splits if_splits)
  have "runtimeStateWithSettings (wr_timings r) (wr_settings r) w s now = RuntimeDegraded \<longleftrightarrow> s_health s = HEALTH_DEGRADED"
    using s(4) by (auto simp: runtimeStateWithSettings_def runtimeStateForSession_def Let_def
        healthRuntimeState_def split: option.splits if_splits WorkerHealth.splits)
  then show ?thesis
    using that [OF s(1) runtime_usable [OF s(4)], of p] s
    by (auto simp: sessionPool_def find_Some_iff candidateFromSession_def in_set_conv_nth)
qed

lemma CandidatesForPool_in:
  "c \<in> set (CandidatesForPool uni order now r poolID) \<longleftrightarrow> (\<exists>w \<in> set order. worker_candidate uni now r poolID w = Some c)"
  by (force simp: CandidatesForPool_def List.map_filter_def)

lemma candidate_id: "worker_candidate uni now r poolID w = Some c \<Longrightarrow> pc_WorkerID c = w"
  by (auto simp: worker_candidate_def candidateFromSession_def Let_def split: option.splits sum.splits if_splits)

lemma Register_cases:
  obtains (refused) "fst (Register uni (Some sid) t (Some req) r) = r"
      "snd (Register uni (Some sid) t (Some req) r) \<noteq> Registered sid"
  | (accepted) pools where
      "deploymentPools (rq_AllowedPools req) (wr_pools r) (rq_ProtocolMinor req) = Inr pools"
      "Register uni (Some sid) t (Some req) r =
        (r\<lparr>wr_workers := (wr_workers r)(rq_WorkerId req \<mapsto> new_session sid req pools t)\<rparr>, Registered sid)"
  by (cases "Register uni (Some sid) t (Some req) r")
     (fastforce simp: Register_def split: if_splits option.splits sum.splits)

lemma registry_step_session:
  "map_option s_sessionID (wr_workers (registry_step uni r op) w) =
     last_session uni w r [op] (map_option s_sessionID (wr_workers r w))"
proof (cases op)
  case (Pair t o')
  show ?thesis
  proof (cases o')
    case (OpRegister sid req)
    show ?thesis unfolding Pair OpRegister
      by (rule Register_cases [of uni sid t req r]) (auto simp: new_session_def)
  qed (auto simp: Pair Heartbeat_def applyHeartbeat_def RecordFailure_def session_failure_def ApplySnapshot_def Let_def
      split: option.splits)
qed

lemma last_session_Cons:
  "last_session uni w r (op # ops) acc = last_session uni w (registry_step uni r op) ops (last_session uni w r [op] acc)"
proof (cases op)
  case (Pair t o')
  then show ?thesis by (cases o') auto
qed

lemma registry_run_session:
  "map_option s_sessionID (wr_workers (registry_run uni r ops) w) =
     last_session uni w r ops (map_option s_sessionID (wr_workers r w))"
proof (induction ops arbitrary: r)
  case (Cons op ops)
  show ?case unfolding last_session_Cons [of uni w r op ops]
    using Cons.IH [of "registry_step uni r op"] registry_step_session [of uni r op w] by (simp add: registry_run_def)
qed (simp add: registry_run_def)

lemma registry_step_failures:
  assumes "\<not> registers w op"
  shows "wr_timings (registry_step uni r op) = wr_timings r
    \<and> map_option (\<lambda>s. (s_failures s, s_cooldownUntil s)) (wr_workers (registry_step uni r op) w) =
        map_option (\<lambda>s. foldl (fail_state (wr_timings r)) (s_failures s, s_cooldownUntil s) (failures_of w [op])) (wr_workers r w)"
proof (cases op)
  case (Pair t o')
  show ?thesis
  proof (cases o')
    case (OpRegister sid req)
    show ?thesis unfolding Pair OpRegister
      using assms by (cases rule: Register_cases [of uni sid t req r]) (auto simp: Pair OpRegister)
  qed (auto simp: Pair Heartbeat_def applyHeartbeat_def RecordFailure_def session_failure_def fail_state_def ApplySnapshot_def
      Let_def split: option.splits)
qed

lemma failures_of_Cons: "failures_of w (op # ops) = failures_of w [op] @ failures_of w ops"
proof (cases op)
  case (Pair t o')
  then show ?thesis by (cases o') auto
qed

lemma registry_run_failures:
  assumes "\<forall>op \<in> set ops. \<not> registers w op"
  shows "wr_timings (registry_run uni r ops) = wr_timings r
    \<and> map_option (\<lambda>s. (s_failures s, s_cooldownUntil s)) (wr_workers (registry_run uni r ops) w) =
        map_option (\<lambda>s. foldl (fail_state (wr_timings r)) (s_failures s, s_cooldownUntil s) (failures_of w ops)) (wr_workers r w)"
  using assms
proof (induction ops arbitrary: r)
  case (Cons op ops)
  let ?r = "registry_step uni r op"
  have st: "wr_timings ?r = wr_timings r"
      "map_option (\<lambda>s. (s_failures s, s_cooldownUntil s)) (wr_workers ?r w) =
        map_option (\<lambda>s. foldl (fail_state (wr_timings r)) (s_failures s, s_cooldownUntil s) (failures_of w [op])) (wr_workers r w)"
    using registry_step_failures [of w op uni r] Cons.prems by auto
  have ih: "wr_timings (registry_run uni ?r ops) = wr_timings r"
      "map_option (\<lambda>s. (s_failures s, s_cooldownUntil s)) (wr_workers (registry_run uni ?r ops) w) =
        map_option (\<lambda>st. foldl (fail_state (wr_timings r)) st (failures_of w ops))
          (map_option (\<lambda>s. (s_failures s, s_cooldownUntil s)) (wr_workers ?r w))"
    using Cons.IH [of ?r] Cons.prems st(1) by (auto simp: option.map_comp comp_def)
  have run: "registry_run uni r (op # ops) = registry_run uni ?r ops" by (simp add: registry_run_def)
  show ?case unfolding run failures_of_Cons [of w op ops] using ih unfolding st(2)
    by (simp add: option.map_comp comp_def)
qed (simp add: registry_run_def option.map_ident)

lemma fail_state_window:
  assumes "int (length fs + length ts) < wt_CooldownFailureCount tm" "\<forall>f \<in> set (fs @ ts). \<forall>t \<in> set ts. f > t - wt_CooldownWindow tm"
  shows "foldl (fail_state tm) (fs, cd) ts = (fs @ ts, cd)"
  using assms
proof (induction ts arbitrary: fs)
  case (Cons t ts)
  have keep: "filter (\<lambda>f. f > t - wt_CooldownWindow tm) fs = fs" using Cons.prems(2) by (simp add: filter_id_conv)
  then have "fail_state tm (fs, cd) t = (fs @ [t], cd)"
    using Cons.prems(1) by (simp add: fail_state_def Let_def)
  moreover have "foldl (fail_state tm) (fs @ [t], cd) ts = ((fs @ [t]) @ ts, cd)"
    using Cons.prems by (intro Cons.IH) auto
  ultimately show ?case by simp
qed simp

lemma fail_state_trips:
  assumes "int (length ts) = wt_CooldownFailureCount tm" "ts \<noteq> []" "\<forall>f \<in> set ts. \<forall>t \<in> set ts. f > t - wt_CooldownWindow tm"
  shows "foldl (fail_state tm) ([], cd) ts = ([], last ts + wt_CooldownDuration tm)"
proof -
  obtain us t where ts: "ts = us @ [t]" using assms(2) by (metis rev_exhaust)
  have "foldl (fail_state tm) ([], cd) us = (us, cd)"
    using fail_state_window [of "[]" us tm cd] assms ts by auto
  moreover have "filter (\<lambda>f. f > t - wt_CooldownWindow tm) us = us" using assms(3) ts by (simp add: filter_id_conv)
  ultimately show ?thesis using assms(1) ts by (simp add: fail_state_def Let_def)
qed

lemma registry_step_timings: "wr_timings (registry_step uni r op) = wr_timings r"
proof (cases op)
  case (Pair t o')
  show ?thesis
  proof (cases o')
    case (OpRegister sid req)
    show ?thesis unfolding Pair OpRegister by (cases rule: Register_cases [of uni sid t req r]) auto
  qed (auto simp: Pair Heartbeat_def RecordFailure_def ApplySnapshot_def split: option.splits)
qed

lemma registry_run_timings: "wr_timings (registry_run uni r ops) = wr_timings r"
  by (induction ops arbitrary: r) (simp_all add: registry_run_def registry_step_timings)

lemma candidate_ids_distinct:
  "distinct order \<Longrightarrow> distinct (map pc_WorkerID (CandidatesForPool uni order now r poolID))"
proof -
  have "map pc_WorkerID (List.map_filter (worker_candidate uni now r poolID) ws) =
      filter (\<lambda>w. worker_candidate uni now r poolID w \<noteq> None) ws" for ws
    by (induction ws) (auto simp: List.map_filter_def candidate_id)
  then show "distinct order \<Longrightarrow> distinct (map pc_WorkerID (CandidatesForPool uni order now r poolID))"
    by (simp add: CandidatesForPool_def)
qed

section \<open>Properties\<close>

text \<open>
  C18: session fencing.  After any history of registrations, heartbeats, failures and configuration
  changes a worker holds the session of its last accepted registration; a heartbeat is accepted
  exactly when it names that session, and a heartbeat from any other session changes nothing.
\<close>

theorem heartbeat_session_fenced:
  assumes "registry_run uni (NewDeploymentWorkerRegistry tm) ops = r"
  shows "(snd (Heartbeat now (Some hb) r) \<longleftrightarrow>
           last_session uni (hb_WorkerId hb) (NewDeploymentWorkerRegistry tm) ops None = Some (hb_SessionId hb))
    \<and> (\<not> snd (Heartbeat now (Some hb) r) \<longrightarrow> fst (Heartbeat now (Some hb) r) = r)"
proof -
  have "map_option s_sessionID (wr_workers r (hb_WorkerId hb)) =
      last_session uni (hb_WorkerId hb) (NewDeploymentWorkerRegistry tm) ops None"
    using registry_run_session [of uni "NewDeploymentWorkerRegistry tm" ops "hb_WorkerId hb"] assms
    by (simp add: NewDeploymentWorkerRegistry_def)
  then have "snd (Heartbeat now (Some hb) r) \<longleftrightarrow>
           last_session uni (hb_WorkerId hb) (NewDeploymentWorkerRegistry tm) ops None = Some (hb_SessionId hb)"
    by (auto simp: Heartbeat_def split: option.splits)
  moreover have "\<not> snd (Heartbeat now (Some hb) r) \<longrightarrow> fst (Heartbeat now (Some hb) r) = r"
    by (auto simp: Heartbeat_def split: option.splits)
  ultimately show ?thesis by blast
qed

lemma heartbeat_session_fenced_witness:
  "\<not> snd (Heartbeat 9 (Some (ex_heartbeat ''w1'' ''s1''))
       (registry_run (\<lambda>_. True) (NewDeploymentWorkerRegistry DefaultWorkerTimings)
          [(0, OpRegister ''s1'' (ex_register ''w1'')), (5, OpRegister ''s2'' (ex_register ''w1''))]))"
proof -
  let ?ops = "[(0, OpRegister ''s1'' (ex_register ''w1'')), (5, OpRegister ''s2'' (ex_register ''w1''))]"
  have "last_session (\<lambda>_. True) ''w1'' (NewDeploymentWorkerRegistry DefaultWorkerTimings) ?ops None = Some ''s2''" by code_simp
  then show ?thesis
    using heartbeat_session_fenced [of "\<lambda>_. True" DefaultWorkerTimings ?ops _ 9 "ex_heartbeat ''w1'' ''s1''", OF refl]
    by (simp add: ex_heartbeat_def)
qed

text \<open>
  C19: a candidate the registry offers for a pool is a registered worker whose session advertises
  the pool, heartbeated within the availability timeout, is neither draining nor disabled by the
  operator nor cooling down, and is healthy or degraded; the candidate is addressed by the
  assignment subject of that very session, and no worker is offered twice.
\<close>

theorem candidates_live:
  assumes "c \<in> set (CandidatesForPool uni order now r poolID)" "distinct order"
  shows "(\<exists>s. wr_workers r (pc_WorkerID c) = Some s \<and> usable_session r (pc_WorkerID c) now s
      \<and> poolID \<in> al_PoolID ` set (s_pools s) \<and> pc_SessionID c = s_sessionID s
      \<and> AssignmentSubject uni (pc_WorkerID c) (s_sessionID s) = Inr (pc_AssignSubject c)
      \<and> (pc_Degraded c \<longleftrightarrow> s_health s = HEALTH_DEGRADED))
    \<and> distinct (map pc_WorkerID (CandidatesForPool uni order now r poolID))"
proof -
  obtain w where w: "worker_candidate uni now r poolID w = Some c" using assms(1) CandidatesForPool_in by blast
  have id: "pc_WorkerID c = w" by (rule candidate_id [OF w])
  from w have "\<exists>s. wr_workers r (pc_WorkerID c) = Some s \<and> usable_session r (pc_WorkerID c) now s
      \<and> poolID \<in> al_PoolID ` set (s_pools s) \<and> pc_SessionID c = s_sessionID s
      \<and> AssignmentSubject uni (pc_WorkerID c) (s_sessionID s) = Inr (pc_AssignSubject c)
      \<and> (pc_Degraded c \<longleftrightarrow> s_health s = HEALTH_DEGRADED)"
  proof (rule worker_candidate_Some)
    fix s p
    assume h: "wr_workers r w = Some s" "usable_session r w now s" "p \<in> set (s_pools s)" "al_PoolID p = poolID"
      "AssignmentSubject uni w (s_sessionID s) = Inr (pc_AssignSubject c)"
      "c = candidateFromSession w (pc_AssignSubject c) s p (pc_Degraded c)" "pc_Degraded c \<longleftrightarrow> s_health s = HEALTH_DEGRADED"
    have "pc_SessionID c = s_sessionID s" by (subst h(6)) (simp add: candidateFromSession_def)
    then show ?thesis using h(1-5,7) id by (intro exI [of _ s]) auto
  qed
  moreover have "distinct (map pc_WorkerID (CandidatesForPool uni order now r poolID))"
    using assms(2) by (rule candidate_ids_distinct)
  ultimately show ?thesis by blast
qed

lemma candidates_live_witness:
  "\<exists>s. wr_workers ex_registry ''w1'' = Some s \<and> usable_session ex_registry ''w1'' 9 s"
proof -
  obtain c where c: "worker_candidate (\<lambda>_. True) 9 ex_registry ''default'' ''w1'' = Some c"
    using AssignmentSubject_ex
    by (simp add: worker_candidate_def ex_registry_def ex_session_def sessionPool_def runtimeStateWithSettings_def
        runtimeStateForSession_def lastSeen_def DefaultWorkerTimings_def NewDeploymentWorkerRegistry_def healthRuntimeState_def
        new_session_def ex_register_def applyHeartbeat_def ex_heartbeat_def)
  then have m: "c \<in> set (CandidatesForPool (\<lambda>_. True) [''w1''] 9 ex_registry ''default'')" by (simp add: CandidatesForPool_in)
  show ?thesis using candidates_live [OF m] candidate_id [OF c] by auto
qed

text \<open>
  C26: the circuit breaker.  When a session without recorded failures fails as often as the
  threshold says within one window, whatever heartbeats, failures of other workers or
  configuration changes happen in between, the worker is offered for no pool until the cooldown
  after the last of these failures has passed.
\<close>

theorem cooldown_excludes_worker:
  assumes "wr_workers r w = Some s" "s_failures s = []" "\<forall>op \<in> set ops. \<not> registers w op"
    and "int (length (failures_of w ops)) = wt_CooldownFailureCount (wr_timings r)" "failures_of w ops \<noteq> []"
    and "\<forall>f \<in> set (failures_of w ops). \<forall>t \<in> set (failures_of w ops). f > t - wt_CooldownWindow (wr_timings r)"
    and "now < last (failures_of w ops) + wt_CooldownDuration (wr_timings r)"
  shows "w \<notin> pc_WorkerID ` set (CandidatesForPool uni order now (registry_run uni r ops) poolID)"
proof
  assume "w \<in> pc_WorkerID ` set (CandidatesForPool uni order now (registry_run uni r ops) poolID)"
  then obtain c v where v: "worker_candidate uni now (registry_run uni r ops) poolID v = Some c" "pc_WorkerID c = w"
    by (auto simp: CandidatesForPool_in)
  then have c: "worker_candidate uni now (registry_run uni r ops) poolID w = Some c" using candidate_id by blast
  obtain s' where s': "wr_workers (registry_run uni r ops) w = Some s'" "s_cooldownUntil s' \<le> now"
    using c by (rule worker_candidate_Some) (auto simp: usable_session_def)
  have "map_option (\<lambda>s. (s_failures s, s_cooldownUntil s)) (wr_workers (registry_run uni r ops) w) =
      Some (foldl (fail_state (wr_timings r)) ([], s_cooldownUntil s) (failures_of w ops))"
    using registry_run_failures [OF assms(3), THEN conjunct2, of uni r] assms(1,2) by simp
  then have "s_cooldownUntil s' = last (failures_of w ops) + wt_CooldownDuration (wr_timings r)"
    unfolding fail_state_trips [OF assms(4-6)] using s'(1) by simp
  then show False using s'(2) assms(7) by simp
qed

lemma cooldown_excludes_worker_witness:
  "''w1'' \<notin> pc_WorkerID ` set (CandidatesForPool (\<lambda>_. True) [''w1''] 1500
     (registry_run (\<lambda>_. True) (registry_run (\<lambda>_. True) (NewDeploymentWorkerRegistry DefaultWorkerTimings)
         [(0, OpRegister ''s1'' (ex_register ''w1'')), (5, OpHeartbeat (ex_heartbeat ''w1'' ''s1''))])
       [(10, OpFailure ''w1''), (20, OpFailure ''w1''), (25, OpHeartbeat (ex_heartbeat ''w1'' ''s1'')), (30, OpFailure ''w1'')]) ''default'')"
proof -
  define r where "r = registry_run (\<lambda>_. True) (NewDeploymentWorkerRegistry DefaultWorkerTimings)
         [(0, OpRegister ''s1'' (ex_register ''w1'')), (5, OpHeartbeat (ex_heartbeat ''w1'' ''s1''))]"
  have "map_option s_failures (wr_workers r ''w1'') = Some []" unfolding r_def by code_simp
  then obtain s where s: "wr_workers r ''w1'' = Some s" "s_failures s = []" by auto
  have t: "wr_timings r = DefaultWorkerTimings"
    by (simp add: r_def registry_run_timings) (simp add: NewDeploymentWorkerRegistry_def)
  show ?thesis unfolding r_def [symmetric]
    by (rule cooldown_excludes_worker [OF s]) (simp_all add: t DefaultWorkerTimings_def)
qed
end
