(* ===== verification/Routing.thy ===== *)
theory Routing
  imports Worker_Registry Straw_Errors
begin

text \<open>
  The router (\<open>internal/control/routing.go\<close>, \<open>helpers.go\<close>, the rule and policy conversions of
  \<open>dispatch_types.go\<close> and \<open>assignment.go\<close>): rule matching, candidate eligibility, least-loaded
  selection and sticky sessions.  The sticky backend is an interface with two implementations, so
  its operations are arguments of the router; the in-process store is the one modelled here.
\<close>

section \<open>Types\<close>

record CtlRule = RoutingRule +
  cr_DeploymentID :: string

record PoolPolicy =
  pp_DeploymentID :: string
  pp_PoolID :: string
  pp_Enabled :: bool
  pp_ExecutorType :: string
  pp_Tags :: "string list"
  pp_AllowDegradedWorkers :: bool
  pp_AllowedCountries :: "string list"
  pp_AllowedRegions :: "string list"
  pp_AllowedIPTypes :: "string list"
  pp_UpstreamProxyID :: string
  pp_TrustedRemoteResolution :: bool

definition zero_policy :: PoolPolicy where
  "zero_policy = \<lparr>pp_DeploymentID = [], pp_PoolID = [], pp_Enabled = False, pp_ExecutorType = [], pp_Tags = [],
     pp_AllowDegradedWorkers = False, pp_AllowedCountries = [], pp_AllowedRegions = [], pp_AllowedIPTypes = [],
     pp_UpstreamProxyID = [], pp_TrustedRemoteResolution = False\<rparr>"

record RouteRequest =
  q_DeploymentID :: string
  q_Tags :: "string list"
  q_Country :: string
  q_Region :: string
  q_IPType :: string
  q_IngressType :: string
  q_TargetHost :: string
  q_StickySessionID :: string
  q_FingerprintProfile :: string

record RouteOutcome =
  o_OK :: bool
  o_ErrorCode :: string
  o_RuleID :: string
  o_PoolID :: string
  o_WorkerID :: string
  o_ExecutorType :: string
  o_SessionID :: string
  o_AssignSubject :: string
  o_Sticky :: bool
  o_UpstreamProxyID :: string
  o_TrustedRemoteResolution :: bool
  o_StickySessionTTLSeconds :: uint32
  o_ProtocolMinor :: uint32

definition route_failed :: "string \<Rightarrow> RouteOutcome" where
  "route_failed code = \<lparr>o_OK = False, o_ErrorCode = code, o_RuleID = [], o_PoolID = [], o_WorkerID = [],
     o_ExecutorType = [], o_SessionID = [], o_AssignSubject = [], o_Sticky = False, o_UpstreamProxyID = [],
     o_TrustedRemoteResolution = False, o_StickySessionTTLSeconds = 0, o_ProtocolMinor = 0\<rparr>"

section \<open>Matching\<close>

definition subset_str :: "string list \<Rightarrow> string list \<Rightarrow> bool" where
  "subset_str values allowed = (if allowed = [] then True else list_all (\<lambda>v. v \<in> set allowed) values)"

definition matchesField :: "string \<Rightarrow> string \<Rightarrow> bool" where
  "matchesField want got \<longleftrightarrow> want = [] \<or> (got \<noteq> [] \<and> want = got)"

definition matchesTags :: "string list \<Rightarrow> string list \<Rightarrow> bool" where
  "matchesTags want got \<longleftrightarrow> want = [] \<or> subset_str want got"

definition hostMatches :: "string \<Rightarrow> string \<Rightarrow> bool" where
  "hostMatches pattern host =
     (if length pattern > 2 \<and> take 2 pattern = ''*.'' then
        (let suffix = tl pattern in
         length host > length suffix \<and> drop (length host - length suffix) host = suffix)
      else pattern = host)"

definition matchesHost :: "string \<Rightarrow> string \<Rightarrow> bool" where
  "matchesHost pattern host \<longleftrightarrow> pattern = [] \<or> (host \<noteq> [] \<and> hostMatches pattern host)"

definition rule_matches :: "MatchConditions \<Rightarrow> RouteRequest \<Rightarrow> bool" where
  "rule_matches m req \<longleftrightarrow> list_all id
     [matchesTags (mc_Tags m) (q_Tags req),
      matchesField (mc_Country m) (q_Country req),
      matchesField (mc_Region m) (q_Region req),
      matchesField (mc_IPType m) (q_IPType req),
      matchesField (mc_IngressType m) (q_IngressType req),
      matchesHost (mc_TargetHost m) (q_TargetHost req)]"

definition sortRulesByPriority :: "CtlRule list \<Rightarrow> CtlRule list" where
  "sortRulesByPriority = sort_by (\<lambda>a b. rr_Priority a < rr_Priority b)"

definition matchingRules :: "CtlRule list \<Rightarrow> RouteRequest \<Rightarrow> CtlRule list" where
  "matchingRules all req = sortRulesByPriority
     (filter (\<lambda>r. cr_DeploymentID r = q_DeploymentID req \<and> rr_Enabled r \<and> rule_matches (rr_Match r) req) all)"

section \<open>Eligibility\<close>

definition capabilitySatisfies :: "PoolCandidate \<Rightarrow> RouteRequest \<Rightarrow> bool" where
  "capabilitySatisfies c req \<longleftrightarrow> list_all id
     [q_Tags req = [] \<or> subset_str (q_Tags req) (pc_Tags c),
      q_Country req = [] \<or> (pc_Countries c \<noteq> [] \<and> q_Country req \<in> set (pc_Countries c)),
      q_Region req = [] \<or> (pc_Regions c \<noteq> [] \<and> q_Region req \<in> set (pc_Regions c)),
      q_IPType req = [] \<or> (pc_IPTypes c \<noteq> [] \<and> q_IPType req \<in> set (pc_IPTypes c)),
      q_IngressType req = [] \<or> (pc_IngressModes c \<noteq> [] \<and> q_IngressType req \<in> set (pc_IngressModes c))]"

definition poolClaimsAllowed :: "PoolCandidate \<Rightarrow> PoolPolicy \<Rightarrow> bool" where
  "poolClaimsAllowed c policy =
     (if pp_ExecutorType policy \<noteq> [] \<and> pc_ExecutorType c \<noteq> pp_ExecutorType policy then False
      else if pc_UpstreamProxyID c \<noteq> pp_UpstreamProxyID policy then False
      else if pp_UpstreamProxyID policy \<noteq> [] \<and> pc_ProtocolMinor c < upstreamProxyProtocolMinor then False
      else subset_str (pp_Tags policy) (pc_Tags c))"

definition poolAllows :: "PoolCandidate \<Rightarrow> PoolPolicy \<Rightarrow> bool" where
  "poolAllows c policy =
     (if pp_PoolID policy \<noteq> [] \<and> \<not> poolClaimsAllowed c policy then False
      else list_all id
        [pp_AllowedCountries policy = [] \<or> subset_str (pc_Countries c) (pp_AllowedCountries policy),
         pp_AllowedRegions policy = [] \<or> subset_str (pc_Regions c) (pp_AllowedRegions policy),
         pp_AllowedIPTypes policy = [] \<or> subset_str (pc_IPTypes c) (pp_AllowedIPTypes policy)])"

definition admissible :: "RouteRequest \<Rightarrow> PoolPolicy \<Rightarrow> PoolCandidate \<Rightarrow> bool" where
  "admissible req policy c \<longleftrightarrow>
     \<not> (pc_Degraded c \<and> \<not> pp_AllowDegradedWorkers policy) \<and> capabilitySatisfies c req \<and> poolAllows c policy"

definition eligibleCandidates ::
    "RouteRequest \<Rightarrow> PoolPolicy \<Rightarrow> PoolCandidate list \<Rightarrow> PoolCandidate list \<times> bool" where
  "eligibleCandidates req policy all =
     (if pp_PoolID policy \<noteq> [] \<and> \<not> pp_Enabled policy then ([], False)
      else let capacityEligible = filter (admissible req policy) all;
               out = filter (\<lambda>c. pc_AvailableCap c \<noteq> 0) capacityEligible
           in (out, length capacityEligible > 0 \<and> out = []))"

definition namedFingerprintRequested :: "string \<Rightarrow> bool" where
  "namedFingerprintRequested profile \<longleftrightarrow> profile \<noteq> [] \<and> profile \<noteq> ''default''"

definition filterFingerprintCandidates :: "PoolCandidate list \<Rightarrow> string \<Rightarrow> PoolCandidate list" where
  "filterFingerprintCandidates candidates requested =
     (if \<not> namedFingerprintRequested requested then candidates
      else filter (\<lambda>c. requested \<in> set (pc_SupportedFingerprintProfiles c)) candidates)"

section \<open>Selection\<close>

text \<open>
  \<open>load\<close> divides two \<open>uint32\<close> values as \<open>float64\<close>: the exact quotient rounded to 53 significant
  bits, ties to even.  The model scales by \<open>2 ^ 85\<close>, which makes every such quotient an integer.
\<close>

fun bitlen :: "nat \<Rightarrow> nat" where
  "bitlen n = (if n = 0 then 0 else Suc (bitlen (n div 2)))"

declare bitlen.simps [simp del]

definition round_half_even :: "nat \<Rightarrow> nat \<Rightarrow> nat" where
  "round_half_even n d =
     (let q = n div d; r = n mod d in
      if 2 * r < d then q else if 2 * r > d then Suc q else if even q then q else Suc q)"

definition float_div :: "nat \<Rightarrow> nat \<Rightarrow> nat" where
  "float_div a b =
     (let n = a * 2 ^ 85; k = bitlen (n div b) - 53 in round_half_even n (b * 2 ^ k) * 2 ^ k)"

definition load :: "PoolCandidate \<Rightarrow> nat" where
  "load c = (if pc_MaxConcurrency c = 0 then 0 else float_div (unat (pc_ActiveRequests c)) (unat (pc_MaxConcurrency c)))"

definition sortCandidatesByWorkerID :: "PoolCandidate list \<Rightarrow> PoolCandidate list" where
  "sortCandidatesByWorkerID = sort_by (\<lambda>a b. pc_WorkerID a < pc_WorkerID b)"

definition min_load :: "PoolCandidate list \<Rightarrow> nat" where
  "min_load cs = foldl (\<lambda>m c. if load c < m then load c else m) (load (hd cs)) (tl cs)"

definition tied_candidates :: "PoolCandidate list \<Rightarrow> PoolCandidate list" where
  "tied_candidates cs = sortCandidatesByWorkerID (filter (\<lambda>c. load c = min_load cs) cs)"

type_synonym rr_index = "string \<Rightarrow> nat"

definition selectExecutor ::
    "string \<Rightarrow> string \<Rightarrow> PoolCandidate list \<Rightarrow> rr_index \<Rightarrow> rr_index \<times> PoolCandidate option" where
  "selectExecutor deploymentID poolID candidates rr =
     (if candidates = [] then (rr, None)
      else let tied = tied_candidates candidates;
               key = deploymentID @ CHR 0x00 # poolID;
               idx = rr key mod length tied
           in (rr(key := Suc idx), Some (tied ! idx)))"

section \<open>Evaluation\<close>

definition successfulRouteOutcome :: "CtlRule \<Rightarrow> PoolPolicy \<Rightarrow> PoolCandidate \<Rightarrow> bool \<Rightarrow> RouteOutcome" where
  "successfulRouteOutcome rule policy c sticky =
     \<lparr>o_OK = True, o_ErrorCode = [], o_RuleID = rr_ID rule, o_PoolID = rr_TargetPoolID rule,
      o_WorkerID = pc_WorkerID c, o_ExecutorType = pc_ExecutorType c, o_SessionID = pc_SessionID c,
      o_AssignSubject = pc_AssignSubject c, o_Sticky = sticky, o_UpstreamProxyID = pp_UpstreamProxyID policy,
      o_TrustedRemoteResolution = pp_TrustedRemoteResolution policy,
      o_StickySessionTTLSeconds = rr_StickySessionTTLSeconds rule, o_ProtocolMinor = pc_ProtocolMinor c\<rparr>"

text \<open>\<open>stickyTTL\<close> in the unit of instants, milliseconds.\<close>

definition stickyTTL :: "CtlRule \<Rightarrow> int" where
  "stickyTTL rule = uint (rr_StickySessionTTLSeconds rule) * 1000"

text \<open>
  A sticky backend: \<open>sget\<close> and \<open>sset\<close> on its state.  \<open>Refresh\<close> is \<open>Set\<close> in both implementations.
\<close>

type_synonym 's sticky_get = "instant \<Rightarrow> string \<Rightarrow> string \<Rightarrow> 's \<Rightarrow> string option"
type_synonym 's sticky_set = "instant \<Rightarrow> string \<Rightarrow> string \<Rightarrow> string \<Rightarrow> int \<Rightarrow> 's \<Rightarrow> 's"

record 's router =
  rt_sticky :: 's
  rt_rrIdx :: rr_index

definition fresh_sticky_selection ::
    "'s sticky_set \<Rightarrow> instant \<Rightarrow> RouteRequest \<Rightarrow> CtlRule \<Rightarrow> PoolPolicy \<Rightarrow> PoolCandidate list \<Rightarrow> 's router
      \<Rightarrow> 's router \<times> RouteOutcome option" where
  "fresh_sticky_selection sset now req rule policy candidates rt =
     (case selectExecutor (q_DeploymentID req) (rr_TargetPoolID rule) candidates (rt_rrIdx rt) of
        (rr, None) \<Rightarrow> (rt\<lparr>rt_rrIdx := rr\<rparr>, None)
      | (rr, Some picked) \<Rightarrow>
          (\<lparr>rt_sticky = sset now (q_DeploymentID req) (q_StickySessionID req) (pc_WorkerID picked) (stickyTTL rule) (rt_sticky rt),
            rt_rrIdx = rr\<rparr>,
           Some (successfulRouteOutcome rule policy picked True)))"

definition evaluateSticky ::
    "'s sticky_get \<Rightarrow> 's sticky_set \<Rightarrow> instant \<Rightarrow> RouteRequest \<Rightarrow> CtlRule \<Rightarrow> PoolPolicy \<Rightarrow> PoolCandidate list
      \<Rightarrow> 's router \<Rightarrow> 's router \<times> RouteOutcome option" where
  "evaluateSticky sget sset now req rule policy candidates rt =
     (case sget now (q_DeploymentID req) (q_StickySessionID req) (rt_sticky rt) of
        Some pinned \<Rightarrow>
          (case find (\<lambda>c. pc_WorkerID c = pinned) candidates of
             Some c \<Rightarrow>
               (rt\<lparr>rt_sticky := sset now (q_DeploymentID req) (q_StickySessionID req) pinned (stickyTTL rule) (rt_sticky rt)\<rparr>,
                Some (successfulRouteOutcome rule policy c True))
           | None \<Rightarrow>
               if \<not> rr_AllowStickyFallback rule then (rt, Some (route_failed ''sticky_session_unavailable''))
               else fresh_sticky_selection sset now req rule policy candidates rt)
      | None \<Rightarrow> fresh_sticky_selection sset now req rule policy candidates rt)"

record ruleEvaluation =
  re_outcome :: "RouteOutcome option"
  re_profileRejected :: bool
  re_capacityExhausted :: bool

definition evaluateRule ::
    "'s sticky_get \<Rightarrow> 's sticky_set \<Rightarrow> (string \<Rightarrow> PoolPolicy) \<Rightarrow> (string \<Rightarrow> PoolCandidate list) \<Rightarrow> instant
      \<Rightarrow> RouteRequest \<Rightarrow> CtlRule \<Rightarrow> 's router \<Rightarrow> 's router \<times> ruleEvaluation" where
  "evaluateRule sget sset policies cands now req rule rt =
     (let policy = policies (rr_TargetPoolID rule);
          (ordinary, atCapacity) = eligibleCandidates req policy (cands (rr_TargetPoolID rule));
          candidates = filterFingerprintCandidates ordinary (q_FingerprintProfile req);
          ev = \<lparr>re_outcome = None, re_profileRejected = False, re_capacityExhausted = atCapacity\<rparr>
      in if ordinary \<noteq> [] \<and> candidates = [] \<and> namedFingerprintRequested (q_FingerprintProfile req)
         then (rt, ev\<lparr>re_profileRejected := True\<rparr>)
         else if q_StickySessionID req \<noteq> [] then
           (case evaluateSticky sget sset now req rule policy candidates rt of
              (rt', outcome) \<Rightarrow> (rt', ev\<lparr>re_outcome := outcome\<rparr>))
         else
           (case selectExecutor (q_DeploymentID req) (rr_TargetPoolID rule) candidates (rt_rrIdx rt) of
              (rr, None) \<Rightarrow> (rt\<lparr>rt_rrIdx := rr\<rparr>, ev)
            | (rr, Some picked) \<Rightarrow>
                (rt\<lparr>rt_rrIdx := rr\<rparr>, ev\<lparr>re_outcome := Some (successfulRouteOutcome rule policy picked False)\<rparr>)))"

fun evaluate_rules ::
    "'s sticky_get \<Rightarrow> 's sticky_set \<Rightarrow> (string \<Rightarrow> PoolPolicy) \<Rightarrow> (string \<Rightarrow> PoolCandidate list) \<Rightarrow> instant
      \<Rightarrow> RouteRequest \<Rightarrow> CtlRule list \<Rightarrow> bool \<Rightarrow> bool \<Rightarrow> 's router \<Rightarrow> 's router \<times> RouteOutcome" where
  "evaluate_rules sget sset policies cands now req [] profileRejected capacityRejected rt =
     (rt, if profileRejected then route_failed ''unsupported_fingerprint''
          else if capacityRejected then route_failed ''executor_capacity_exhausted''
          else route_failed ''route_unavailable'')"
| "evaluate_rules sget sset policies cands now req (rule # rules) profileRejected capacityRejected rt =
     (case evaluateRule sget sset policies cands now req rule rt of
        (rt', ev) \<Rightarrow>
          (case re_outcome ev of
             Some outcome \<Rightarrow> (rt', outcome)
           | None \<Rightarrow> evaluate_rules sget sset policies cands now req rules
                       (profileRejected \<or> re_profileRejected ev) (capacityRejected \<or> re_capacityExhausted ev) rt'))"

definition Evaluate ::
    "'s sticky_get \<Rightarrow> 's sticky_set \<Rightarrow> CtlRule list \<Rightarrow> (string \<Rightarrow> PoolPolicy) \<Rightarrow> (string \<Rightarrow> PoolCandidate list) \<Rightarrow> instant
      \<Rightarrow> RouteRequest \<Rightarrow> 's router \<Rightarrow> 's router \<times> RouteOutcome" where
  "Evaluate sget sset all policies cands now req rt =
     (let rules = matchingRules all req in
      if rules = [] then (rt, route_failed ''route_no_match'')
      else evaluate_rules sget sset policies cands now req rules False False rt)"

text \<open>\<open>sha\<close> stands for SHA-256; the id is its first 16 bytes in hexadecimal.\<close>

definition deriveProviderSessionID ::
    "(bytes \<Rightarrow> bytes) \<Rightarrow> string \<Rightarrow> RouteOutcome \<Rightarrow> string \<Rightarrow> string \<Rightarrow> string \<Rightarrow> string \<Rightarrow> string" where
  "deriveProviderSessionID sha deploymentID route country region ipType stickyID =
     (if stickyID = [] \<or> o_StickySessionTTLSeconds route = 0 \<or> o_UpstreamProxyID route = [] then []
      else hex_encode (take 16 (sha (join CHR 0x00 [''straw-provider-session-v1'', deploymentID, o_PoolID route,
             o_UpstreamProxyID route, country, region, ipType, stickyID]))))"

section \<open>Rules and policies from a snapshot\<close>

definition RulesForDeployment :: "string \<Rightarrow> RoutingRule list \<Rightarrow> string \<Rightarrow> CtlRule list" where
  "RulesForDeployment own rules deploymentID =
     (if deploymentID \<noteq> own then []
      else map (\<lambda>r. RoutingRule.extend r (CtlRule.fields deploymentID)) rules)"

definition poolPoliciesFromSnapshot :: "string \<Rightarrow> ExecutorPool list \<Rightarrow> PoolPolicy list" where
  "poolPoliciesFromSnapshot deploymentID pools = map (\<lambda>p.
     \<lparr>pp_DeploymentID = deploymentID, pp_PoolID = ep_ID p, pp_Enabled = ep_Enabled p,
      pp_ExecutorType = ep_ExecutorType p, pp_Tags = ep_Tags p, pp_AllowDegradedWorkers = ep_AllowDegradedWorkers p,
      pp_AllowedCountries = ep_AllowedCountries p, pp_AllowedRegions = ep_AllowedRegions p,
      pp_AllowedIPTypes = ep_AllowedIPTypes p,
      pp_UpstreamProxyID = (case ep_UpstreamProxy p of None \<Rightarrow> [] | Some u \<Rightarrow> up_ID u),
      pp_TrustedRemoteResolution = (case ep_UpstreamProxy p of None \<Rightarrow> False | Some u \<Rightarrow> up_TrustedRemoteResolution u)\<rparr>) pools"

definition StaticPoolPolicy :: "PoolPolicy list \<Rightarrow> string \<Rightarrow> string \<Rightarrow> PoolPolicy" where
  "StaticPoolPolicy policies deploymentID poolID =
     (let m = foldl (\<lambda>m p. m(pp_DeploymentID p @ CHR 0x00 # pp_PoolID p \<mapsto> p)) Map.empty policies in
      case m (deploymentID @ CHR 0x00 # poolID) of Some p \<Rightarrow> p | None \<Rightarrow> zero_policy)"

definition routeError :: "string \<Rightarrow> PipelineError" where
  "routeError code =
     (if code = ''route_no_match'' then pipeline_error RouteNoMatch
      else if code = ''sticky_session_unavailable'' then pipeline_error StickySessionUnavailable
      else if code = ''executor_capacity_exhausted'' then pipeline_error ExecutorCapacityExhausted
      else if code = ''unsupported_fingerprint'' then pipeline_error UnsupportedFingerprint
      else pipeline_error RouteUnavailable)"

section \<open>The in-process sticky store\<close>

record stickyEntry =
  se_workerID :: string
  se_expiresAt :: instant

type_synonym StickyStore = "string \<rightharpoonup> stickyEntry"

definition stickyKey :: "string \<Rightarrow> string \<Rightarrow> string" where
  "stickyKey deploymentID sessionID = ''straw:sticky:'' @ deploymentID @ '':'' @ sessionID"

definition sticky_Get :: "StickyStore sticky_get" where
  "sticky_Get now deploymentID sessionID s = (case s (stickyKey deploymentID sessionID) of
     None \<Rightarrow> None
   | Some e \<Rightarrow> if now > se_expiresAt e then None else Some (se_workerID e))"

definition sticky_Set :: "StickyStore sticky_set" where
  "sticky_Set now deploymentID sessionID workerID ttl s =
     s(stickyKey deploymentID sessionID \<mapsto> \<lparr>se_workerID = workerID, se_expiresAt = now + ttl\<rparr>)"

section \<open>Specification\<close>


definition usable_candidates :: "RouteRequest \<Rightarrow> PoolPolicy \<Rightarrow> PoolCandidate list \<Rightarrow> PoolCandidate list" where
  "usable_candidates req policy all = filterFingerprintCandidates (fst (eligibleCandidates req policy all)) (q_FingerprintProfile req)"

definition serves :: "RouteRequest \<Rightarrow> PoolPolicy \<Rightarrow> PoolCandidate \<Rightarrow> bool" where
  "serves req policy c \<longleftrightarrow> (pp_PoolID policy = [] \<or> pp_Enabled policy) \<and> admissible req policy c \<and> pc_AvailableCap c \<noteq> 0
     \<and> (namedFingerprintRequested (q_FingerprintProfile req) \<longrightarrow> q_FingerprintProfile req \<in> set (pc_SupportedFingerprintProfiles c))"

text \<open>The outcome names a usable candidate of the rule's pool, the least loaded one unless the request is sticky.\<close>

definition picks :: "(string \<Rightarrow> PoolPolicy) \<Rightarrow> (string \<Rightarrow> PoolCandidate list) \<Rightarrow> RouteRequest \<Rightarrow> CtlRule \<Rightarrow> RouteOutcome \<Rightarrow> bool" where
  "picks policies cands req rule out \<longleftrightarrow>
     (\<exists>c \<in> set (cands (rr_TargetPoolID rule)). serves req (policies (rr_TargetPoolID rule)) c
       \<and> out = successfulRouteOutcome rule (policies (rr_TargetPoolID rule)) c (q_StickySessionID req \<noteq> [])
       \<and> (q_StickySessionID req = [] \<longrightarrow>
            (\<forall>c' \<in> set (cands (rr_TargetPoolID rule)). serves req (policies (rr_TargetPoolID rule)) c' \<longrightarrow> load c \<le> load c')))"

definition unserved :: "(string \<Rightarrow> PoolPolicy) \<Rightarrow> (string \<Rightarrow> PoolCandidate list) \<Rightarrow> RouteRequest \<Rightarrow> CtlRule \<Rightarrow> bool" where
  "unserved policies cands req rule \<longleftrightarrow>
     (\<forall>c \<in> set (cands (rr_TargetPoolID rule)). \<not> serves req (policies (rr_TargetPoolID rule)) c)"

definition ex_candidate :: "string \<Rightarrow> uint32 \<Rightarrow> PoolCandidate" where
  "ex_candidate w active = \<lparr>pc_WorkerID = w, pc_SessionID = ''s'', pc_AssignSubject = ''subject'', pc_ExecutorType = ''egress'',
     pc_SupportedProtocolMinor = 2, pc_ProtocolMinor = 2, pc_UpstreamProxyID = [], pc_Degraded = False, pc_Tags = [],
     pc_Countries = [], pc_Regions = [], pc_IPTypes = [], pc_IngressModes = [''rest''], pc_SupportedFingerprintProfiles = [],
     pc_ActiveRequests = active, pc_MaxConcurrency = 4, pc_AvailableCap = 1\<rparr>"

definition ex_match :: MatchConditions where
  "ex_match = \<lparr>mc_Tags = [], mc_Country = [], mc_Region = [], mc_IPType = [], mc_IngressType = [], mc_TargetHost = []\<rparr>"

definition ex_ctl_rule :: CtlRule where
  "ex_ctl_rule = \<lparr>rr_ID = ''r'', rr_Priority = 1, rr_Enabled = True, rr_Match = ex_match, rr_TargetPoolID = ''default'',
     rr_StickySessionTTLSeconds = 60, rr_AllowStickyFallback = False, cr_DeploymentID = ''default''\<rparr>"

definition ex_route_request :: "string \<Rightarrow> RouteRequest" where
  "ex_route_request sticky = \<lparr>q_DeploymentID = ''default'', q_Tags = [], q_Country = [], q_Region = [], q_IPType = [],
     q_IngressType = ''rest'', q_TargetHost = ''example.com'', q_StickySessionID = sticky, q_FingerprintProfile = []\<rparr>"

definition ex_router :: "StickyStore router" where
  "ex_router = \<lparr>rt_sticky = Map.empty, rt_rrIdx = (\<lambda>_. 0)\<rparr>"

definition ex_cands :: "string \<Rightarrow> PoolCandidate list" where
  "ex_cands p = [ex_candidate ''w2'' 0, ex_candidate ''w1'' 0]"

fun select_times :: "nat \<Rightarrow> string \<Rightarrow> string \<Rightarrow> PoolCandidate list \<Rightarrow> rr_index \<Rightarrow> PoolCandidate option list" where
  "select_times 0 d p cs rr = []"
| "select_times (Suc n) d p cs rr = (case selectExecutor d p cs rr of (rr', c) \<Rightarrow> c # select_times n d p cs rr')"

section \<open>The sticky backend contract\<close>

locale sticky_backend =
  fixes sget :: "'s sticky_get" and sset :: "'s sticky_set"
  assumes get_set: "now \<le> t + ttl \<Longrightarrow> t \<le> now \<Longrightarrow> sget now d k (sset t d k w ttl s) = Some w"
    and get_set_other: "k \<noteq> k' \<Longrightarrow> sget now d k (sset t d k' w ttl s) = sget now d k s"
    and get_expired: "now > t + ttl \<Longrightarrow> sget now d k (sset t d k w ttl s) = None"
begin

lemma evaluateSticky_pins:
  assumes "evaluateSticky sget sset now req rule policy cs rt = (rt', Some out)" "o_OK out"
    and "now \<le> later" "later \<le> now + stickyTTL rule"
  shows "sget later (q_DeploymentID req) (q_StickySessionID req) (rt_sticky rt') = Some (o_WorkerID out)"
  using assms
  by (auto simp: evaluateSticky_def fresh_sticky_selection_def successfulRouteOutcome_def route_failed_def get_set find_Some_iff
      split: option.splits prod.splits if_splits)

lemma evaluateSticky_others:
  assumes "evaluateSticky sget sset now req rule policy cs rt = (rt', out)" "k \<noteq> q_StickySessionID req"
  shows "sget later (q_DeploymentID req) k (rt_sticky rt') = sget later (q_DeploymentID req) k (rt_sticky rt)"
  using assms
  by (auto simp: evaluateSticky_def fresh_sticky_selection_def get_set_other split: option.splits prod.splits if_splits)

lemma evaluateSticky_reuses:
  assumes "sget now (q_DeploymentID req) (q_StickySessionID req) (rt_sticky rt) = Some w"
    and "c \<in> set cs" "pc_WorkerID c = w" "distinct (map pc_WorkerID cs)"
  shows "snd (evaluateSticky sget sset now req rule policy cs rt) = Some (successfulRouteOutcome rule policy c True)"
proof -
  have "find (\<lambda>c. pc_WorkerID c = w) cs = Some c"
    using assms(2-4) by (induction cs) auto
  then show ?thesis using assms(1) by (simp add: evaluateSticky_def)
qed

end

interpretation sticky_store: sticky_backend sticky_Get sticky_Set
  by unfold_locales (auto simp: sticky_Get_def sticky_Set_def stickyKey_def)

section \<open>Lemmas\<close>

lemma usable_candidates_filter: "usable_candidates req policy all = filter (serves req policy) all"
  by (auto simp: usable_candidates_def eligibleCandidates_def serves_def filterFingerprintCandidates_def Let_def
      intro!: filter_cong)

lemma min_load_fold:
  "foldl (\<lambda>m c. if load c < m then load c else m) m cs \<in> insert m (load ` set cs)
   \<and> (\<forall>x \<in> insert m (load ` set cs). foldl (\<lambda>m c. if load c < m then load c else m) m cs \<le> x)"
proof (induction cs arbitrary: m)
  case (Cons c cs)
  from Cons.IH [of "if load c < m then load c else m"] show ?case by (auto split: if_splits)
qed simp

lemma min_load_le: "c \<in> set cs \<Longrightarrow> min_load cs \<le> load c"
  using min_load_fold [of "load (hd cs)" "tl cs"] by (cases cs) (auto simp: min_load_def)

lemma min_load_attained: "cs \<noteq> [] \<Longrightarrow> \<exists>c \<in> set cs. load c = min_load cs"
  using min_load_fold [of "load (hd cs)" "tl cs"] by (cases cs) (auto simp: min_load_def)

lemma tied_candidates_in: "c \<in> set (tied_candidates cs) \<longleftrightarrow> c \<in> set cs \<and> load c = min_load cs"
  by (simp add: tied_candidates_def sortCandidatesByWorkerID_def)

lemma tied_candidates_ne: "cs \<noteq> [] \<Longrightarrow> tied_candidates cs \<noteq> []"
proof -
  assume "cs \<noteq> []"
  then obtain c where "c \<in> set cs" "load c = min_load cs" using min_load_attained by blast
  then have "c \<in> set (tied_candidates cs)" by (simp add: tied_candidates_in)
  then show ?thesis by (cases "tied_candidates cs") auto
qed

lemma selectExecutor_Some:
  assumes "selectExecutor d p cs rr = (rr', Some c)"
  shows "c \<in> set cs" "\<forall>c' \<in> set cs. load c \<le> load c'" "c = tied_candidates cs ! (rr (d @ CHR 0x00 # p) mod length (tied_candidates cs))"
proof -
  have ne: "cs \<noteq> []" and c: "c = tied_candidates cs ! (rr (d @ CHR 0x00 # p) mod length (tied_candidates cs))"
    using assms by (simp_all add: selectExecutor_def Let_def split: if_splits)
  have "length (tied_candidates cs) > 0" using tied_candidates_ne [OF ne] by simp
  then have "c \<in> set (tied_candidates cs)" unfolding c by (intro nth_mem mod_less_divisor)
  then have m: "c \<in> set cs" "load c = min_load cs" by (simp_all add: tied_candidates_in)
  show "c \<in> set cs" by (fact m)
  show "\<forall>c' \<in> set cs. load c \<le> load c'" unfolding m(2) using min_load_le by blast
  show "c = tied_candidates cs ! (rr (d @ CHR 0x00 # p) mod length (tied_candidates cs))" by (fact c)
qed

lemma selectExecutor_None: "snd (selectExecutor d p cs rr) = None \<longleftrightarrow> cs = []"
  by (simp add: selectExecutor_def Let_def)

text \<open>The outcome of one rule: what it can be, and when the rule is passed over.\<close>

lemma evaluateRule_None:
  assumes "evaluateRule sget sset policies cands now req rule rt = (rt', ev)" "re_outcome ev = None"
  shows "unserved policies cands req rule"
proof -
  let ?policy = "policies (rr_TargetPoolID rule)"
  obtain ordinary cap where e: "eligibleCandidates req ?policy (cands (rr_TargetPoolID rule)) = (ordinary, cap)" by fastforce
  let ?cs = "filterFingerprintCandidates ordinary (q_FingerprintProfile req)"
  have "?cs = []"
  proof (rule ccontr)
    assume ne: "?cs \<noteq> []"
    then have "snd (selectExecutor (q_DeploymentID req) (rr_TargetPoolID rule) ?cs (rt_rrIdx rt)) \<noteq> None"
      by (simp add: selectExecutor_None)
    then obtain rr c where s: "selectExecutor (q_DeploymentID req) (rr_TargetPoolID rule) ?cs (rt_rrIdx rt) = (rr, Some c)"
      by (cases "selectExecutor (q_DeploymentID req) (rr_TargetPoolID rule) ?cs (rt_rrIdx rt)") auto
    show False using assms ne
      by (auto simp: evaluateRule_def e Let_def evaluateSticky_def fresh_sticky_selection_def s
          split: if_splits option.splits prod.splits)
  qed
  then have "filter (serves req ?policy) (cands (rr_TargetPoolID rule)) = []"
    using usable_candidates_filter [of req ?policy "cands (rr_TargetPoolID rule)"] by (simp add: usable_candidates_def e)
  then show ?thesis unfolding unserved_def filter_empty_conv by blast
qed

lemma evaluateRule_Some:
  assumes "evaluateRule sget sset policies cands now req rule rt = (rt', ev)" "re_outcome ev = Some out"
  shows "out = route_failed ''sticky_session_unavailable'' \<and> q_StickySessionID req \<noteq> [] \<or> picks policies cands req rule out"
proof -
  let ?policy = "policies (rr_TargetPoolID rule)"
  obtain ordinary cap where e: "eligibleCandidates req ?policy (cands (rr_TargetPoolID rule)) = (ordinary, cap)" by fastforce
  let ?cs = "filterFingerprintCandidates ordinary (q_FingerprintProfile req)"
  have cs: "?cs = filter (serves req ?policy) (cands (rr_TargetPoolID rule))"
    using usable_candidates_filter [of req ?policy "cands (rr_TargetPoolID rule)"] by (simp add: usable_candidates_def e)
  show ?thesis
  proof (cases "q_StickySessionID req = []")
    case True
    then obtain rr c where c: "selectExecutor (q_DeploymentID req) (rr_TargetPoolID rule) ?cs (rt_rrIdx rt) = (rr, Some c)"
        "out = successfulRouteOutcome rule ?policy c False"
      using assms by (auto simp: evaluateRule_def e Let_def split: if_splits option.splits prod.splits)
    then show ?thesis using selectExecutor_Some(1,2) [OF c(1)] True unfolding cs picks_def by auto
  next
    case False
    then have st: "evaluateSticky sget sset now req rule ?policy ?cs rt = (rt', Some out)"
      using assms by (auto simp: evaluateRule_def e Let_def split: if_splits prod.splits)
    have "out = route_failed ''sticky_session_unavailable'' \<or> (\<exists>c \<in> set ?cs. out = successfulRouteOutcome rule ?policy c True)"
      using st unfolding evaluateSticky_def fresh_sticky_selection_def
      by (auto simp: find_Some_iff dest: selectExecutor_Some(1) split: option.splits if_splits prod.splits)
    then show ?thesis using False unfolding cs picks_def by auto
  qed
qed

lemma evaluate_rules_OK:
  assumes "evaluate_rules sget sset policies cands now req rules p c rt = (rt', out)" "o_OK out"
  shows "\<exists>before rule after. rules = before @ rule # after
    \<and> (\<forall>r \<in> set before. unserved policies cands req r) \<and> picks policies cands req rule out"
  using assms
proof (induction rules arbitrary: p c rt)
  case Nil
  then show ?case by (auto simp: route_failed_def split: if_splits)
next
  case (Cons rule rules)
  obtain rt1 ev where ev: "evaluateRule sget sset policies cands now req rule rt = (rt1, ev)" by fastforce
  show ?case
  proof (cases "re_outcome ev")
    case None
    then have "evaluate_rules sget sset policies cands now req rules (p \<or> re_profileRejected ev) (c \<or> re_capacityExhausted ev) rt1 = (rt', out)"
      using Cons.prems(1) ev by simp
    from Cons.IH [OF this Cons.prems(2)] obtain before r after where
      "rules = before @ r # after" "\<forall>r \<in> set before. unserved policies cands req r" "picks policies cands req r out" by blast
    then show ?thesis using evaluateRule_None [OF ev None]
      by (intro exI [of _ "rule # before"] exI [of _ r] exI [of _ after]) simp
  next
    case (Some out')
    then have "out' = out" using Cons.prems(1) ev by simp
    then have "picks policies cands req rule out"
      using evaluateRule_Some [OF ev Some] Cons.prems(2) by (auto simp: route_failed_def)
    then show ?thesis by (intro exI [of _ "[]"] exI [of _ rule] exI [of _ rules]) simp
  qed
qed

lemma matchingRules_in:
  "r \<in> set (matchingRules all req) \<longleftrightarrow>
     r \<in> set all \<and> cr_DeploymentID r = q_DeploymentID req \<and> rr_Enabled r \<and> rule_matches (rr_Match r) req"
  by (auto simp: matchingRules_def sortRulesByPriority_def)

lemma matchingRules_sorted: "sorted_wrt (\<lambda>a b. rr_Priority a \<le> rr_Priority b) (matchingRules all req)"
  unfolding matchingRules_def sortRulesByPriority_def by (rule sorted_sort_by) simp

lemma evaluateRule_OK_iff:
  assumes "evaluateRule sget sset policies cands now req rule rt = (rt', ev)" "q_StickySessionID req = []"
  shows "(\<exists>out. re_outcome ev = Some out) \<longleftrightarrow> \<not> unserved policies cands req rule"
  using evaluateRule_None [OF assms(1)] evaluateRule_Some [OF assms(1)] assms(2)
  by (cases "re_outcome ev") (auto simp: picks_def unserved_def)

lemma evaluate_rules_OK_iff:
  assumes "evaluate_rules sget sset policies cands now req rules p c rt = (rt', out)" "q_StickySessionID req = []"
  shows "o_OK out \<longleftrightarrow> (\<exists>r \<in> set rules. \<not> unserved policies cands req r)"
  using assms(1)
proof (induction rules arbitrary: p c rt)
  case Nil
  then show ?case by (auto simp: route_failed_def split: if_splits)
next
  case (Cons rule rules)
  obtain rt1 ev where ev: "evaluateRule sget sset policies cands now req rule rt = (rt1, ev)" by fastforce
  show ?case
  proof (cases "re_outcome ev")
    case None
    then have "evaluate_rules sget sset policies cands now req rules (p \<or> re_profileRejected ev) (c \<or> re_capacityExhausted ev) rt1 = (rt', out)"
      using Cons.prems(1) ev by simp
    from Cons.IH [OF this] show ?thesis using evaluateRule_None [OF ev None] by simp
  next
    case (Some out')
    then have "out' = out" using Cons.prems(1) ev by simp
    then have "picks policies cands req rule out" using evaluateRule_Some [OF ev Some] assms(2) by blast
    then show ?thesis by (auto simp: picks_def unserved_def successfulRouteOutcome_def)
  qed
qed

lemma sorted_before:
  assumes "sorted_wrt (\<lambda>a b. rr_Priority a \<le> rr_Priority b) (before @ rule # after)" "r \<in> set (before @ rule # after)"
    and "rr_Priority r < rr_Priority rule"
  shows "r \<in> set before"
  using assms by (auto simp: sorted_wrt_append)

lemma tied_candidates_perm:
  assumes "mset cs = mset cs'" "distinct (map pc_WorkerID cs)"
  shows "tied_candidates cs = tied_candidates cs'"
proof -
  have set: "set cs = set cs'" using assms(1) by (metis set_mset_mset)
  have len: "length cs = length cs'" using assms(1) by (metis size_mset)
  have "min_load cs = min_load cs'"
  proof (cases "cs = []")
    case False
    then have "cs' \<noteq> []" using len by auto
    then show ?thesis using min_load_attained min_load_le False set by (metis le_antisym)
  qed (use len in simp)
  then have m: "mset (tied_candidates cs) = mset (tied_candidates cs')"
    using assms(1) by (simp add: tied_candidates_def sortCandidatesByWorkerID_def mset_filter)
  have sorted: "sorted (map pc_WorkerID (tied_candidates xs))" for xs
    unfolding tied_candidates_def sortCandidatesByWorkerID_def sorted_map by (rule sorted_sort_by) simp
  have "inj_on pc_WorkerID (set (tied_candidates cs))"
    using assms(2) by (auto simp: distinct_map inj_on_def tied_candidates_in)
  then have "sort_key pc_WorkerID (tied_candidates cs) = tied_candidates cs'" "sort_key pc_WorkerID (tied_candidates cs) = tied_candidates cs"
    using sort_key_inj_key_eq [OF m _ sorted] sort_key_inj_key_eq [OF refl _ sorted] by auto
  then show ?thesis by simp
qed

lemma mset_rotate_list: "mset (rotate n xs) = mset xs"
  by (metis append_take_drop_id mset_append rotate_drop_take union_commute)

lemma select_times_nth:
  assumes "cs \<noteq> []" "i < n"
  shows "select_times n d p cs rr ! i = Some (tied_candidates cs ! ((rr (d @ CHR 0x00 # p) + i) mod length (tied_candidates cs)))"
  using assms(2)
proof (induction n arbitrary: i rr)
  case (Suc n)
  let ?k = "d @ CHR 0x00 # p" and ?m = "length (tied_candidates cs)"
  have sel: "selectExecutor d p cs rr = (rr(?k := Suc (rr ?k mod ?m)), Some (tied_candidates cs ! (rr ?k mod ?m)))"
    using assms(1) by (simp add: selectExecutor_def Let_def)
  show ?case
  proof (cases i)
    case 0
    then show ?thesis by (simp add: sel)
  next
    case (Suc j)
    have "(Suc (rr ?k mod ?m) + j) mod ?m = (rr ?k + Suc j) mod ?m"
      by (metis add_Suc_shift mod_add_left_eq)
    then show ?thesis using Suc.IH [of j "rr(?k := Suc (rr ?k mod ?m))"] Suc Suc.prems by (simp add: sel fun_upd_def)
  qed
qed simp

context sticky_backend
begin

lemma evaluate_rules_pins:
  assumes "evaluate_rules sget sset policies cands now req rules p c rt = (rt', out)" "o_OK out" "q_StickySessionID req \<noteq> []"
    and "now \<le> later" "later \<le> now + uint (o_StickySessionTTLSeconds out) * 1000"
  shows "sget later (q_DeploymentID req) (q_StickySessionID req) (rt_sticky rt') = Some (o_WorkerID out)"
  using assms(1)
proof (induction rules arbitrary: p c rt)
  case Nil
  then show ?case using assms(2) by (auto simp: route_failed_def split: if_splits)
next
  case (Cons rule rules)
  obtain rt1 ev where ev: "evaluateRule sget sset policies cands now req rule rt = (rt1, ev)" by fastforce
  show ?case
  proof (cases "re_outcome ev")
    case None
    then show ?thesis using Cons ev by simp
  next
    case (Some out')
    then have o: "out' = out" "rt1 = rt'" using Cons.prems(1) ev by simp_all
    obtain cs where st: "evaluateSticky sget sset now req rule (policies (rr_TargetPoolID rule)) cs rt = (rt', Some out)"
      using ev Some assms(3) o by (auto simp: evaluateRule_def Let_def split: if_splits prod.splits)
    have "o_StickySessionTTLSeconds out = rr_StickySessionTTLSeconds rule"
      using evaluateRule_Some [OF ev Some] o assms(2) by (auto simp: picks_def successfulRouteOutcome_def route_failed_def)
    then show ?thesis using evaluateSticky_pins [OF st assms(2,4)] assms(5) by (simp add: stickyTTL_def)
  qed
qed

lemma evaluate_rules_reuses:
  assumes "sget now (q_DeploymentID req) (q_StickySessionID req) (rt_sticky rt) = Some w" "q_StickySessionID req \<noteq> []"
    and "c \<in> set (cands (rr_TargetPoolID rule))" "serves req (policies (rr_TargetPoolID rule)) c" "pc_WorkerID c = w"
    and "distinct (map pc_WorkerID (cands (rr_TargetPoolID rule)))"
  shows "snd (evaluate_rules sget sset policies cands now req (rule # rules) p q rt) =
    successfulRouteOutcome rule (policies (rr_TargetPoolID rule)) c True"
proof -
  let ?policy = "policies (rr_TargetPoolID rule)"
  obtain ordinary cap where e: "eligibleCandidates req ?policy (cands (rr_TargetPoolID rule)) = (ordinary, cap)" by fastforce
  let ?cs = "filterFingerprintCandidates ordinary (q_FingerprintProfile req)"
  have cs: "?cs = filter (serves req ?policy) (cands (rr_TargetPoolID rule))"
    using usable_candidates_filter [of req ?policy "cands (rr_TargetPoolID rule)"] by (simp add: usable_candidates_def e)
  have mem: "c \<in> set ?cs" using assms(3,4) unfolding cs by simp
  have dist: "distinct (map pc_WorkerID ?cs)" using assms(6) unfolding cs by (rule distinct_map_filter)
  obtain rt' where "evaluateSticky sget sset now req rule ?policy ?cs rt = (rt', Some (successfulRouteOutcome rule ?policy c True))"
    using evaluateSticky_reuses [OF assms(1) mem assms(5) dist] by (metis prod.collapse)
  moreover have "?cs \<noteq> []" using mem by auto
  ultimately show ?thesis using assms(2) by (simp add: evaluateRule_def e Let_def)
qed

lemma affinity:
  assumes "Evaluate sget sset all policies cands now req rt = (rt1, out)" "o_OK out" "q_StickySessionID req \<noteq> []"
    and "now \<le> later" "later \<le> now + uint (o_StickySessionTTLSeconds out) * 1000"
    and "matchingRules all' req = rule # rules" "c \<in> set (cands' (rr_TargetPoolID rule))"
    and "serves req (policies' (rr_TargetPoolID rule)) c" "pc_WorkerID c = o_WorkerID out"
    and "distinct (map pc_WorkerID (cands' (rr_TargetPoolID rule)))"
  shows "snd (Evaluate sget sset all' policies' cands' later req rt1) = successfulRouteOutcome rule (policies' (rr_TargetPoolID rule)) c True"
proof -
  have "matchingRules all req \<noteq> []" using assms(1,2) by (auto simp: Evaluate_def route_failed_def)
  then have "evaluate_rules sget sset policies cands now req (matchingRules all req) False False rt = (rt1, out)"
    using assms(1) by (simp add: Evaluate_def)
  then have "sget later (q_DeploymentID req) (q_StickySessionID req) (rt_sticky rt1) = Some (o_WorkerID out)"
    using assms(2-5) by (rule evaluate_rules_pins)
  from evaluate_rules_reuses [where cands = cands' and policies = policies', OF this assms(3,7-10), of rules False False]
  show ?thesis by (simp only: Evaluate_def assms(6) Let_def list.distinct if_False)
qed

end

section \<open>Properties\<close>



text \<open>
  C11: the router misses nothing: a request without sticky session is routed exactly when some
  enabled matching rule has a candidate that can serve it.
\<close>

theorem route_found_iff:
  assumes "Evaluate sget sset all policies cands now req rt = (rt', out)" "q_StickySessionID req = []"
  shows "o_OK out \<longleftrightarrow> (\<exists>rule \<in> set (matchingRules all req). \<exists>c \<in> set (cands (rr_TargetPoolID rule)).
    serves req (policies (rr_TargetPoolID rule)) c)"
proof (cases "matchingRules all req = []")
  case True
  then show ?thesis using assms by (auto simp: Evaluate_def route_failed_def)
next
  case False
  then have "evaluate_rules sget sset policies cands now req (matchingRules all req) False False rt = (rt', out)"
    using assms by (simp add: Evaluate_def Let_def)
  from evaluate_rules_OK_iff [OF this assms(2)] show ?thesis by (simp add: unserved_def)
qed

lemma route_found_iff_witness:
  "o_OK (snd (Evaluate sticky_Get sticky_Set [ex_ctl_rule] (\<lambda>_. zero_policy) (\<lambda>_. []) 0 (ex_route_request []) ex_router)) = False"
  using route_found_iff [OF prod.collapse [symmetric], of "ex_route_request []" sticky_Get sticky_Set "[ex_ctl_rule]" "\<lambda>_. zero_policy" "\<lambda>_. []" 0 ex_router]
  by (simp add: ex_route_request_def)

text \<open>
  C30: which executor is selected does not depend on the order in which the registry enumerates its
  workers, an order Go leaves unspecified.
\<close>

theorem selection_order_independent:
  assumes "mset cs = mset cs'" "distinct (map pc_WorkerID cs)"
  shows "selectExecutor d p cs rr = selectExecutor d p cs' rr"
proof -
  have "cs = [] \<longleftrightarrow> cs' = []" using assms(1) by (metis mset_zero_iff)
  then show ?thesis using tied_candidates_perm [OF assms] by (simp add: selectExecutor_def)
qed

lemma selection_order_independent_witness:
  "selectExecutor ''d'' ''p'' [ex_candidate ''w2'' 0, ex_candidate ''w1'' 0] (\<lambda>_. 0)
   = selectExecutor ''d'' ''p'' [ex_candidate ''w1'' 0, ex_candidate ''w2'' 0] (\<lambda>_. 0)"
  by (rule selection_order_independent) (simp_all add: ex_candidate_def)

text \<open>
  C32: on one router the round-robin cursor spreads equally loaded workers evenly: as many
  consecutive selections as there are least-loaded candidates pick each of them once.
\<close>

theorem round_robin_fair:
  assumes "cs \<noteq> []"
  shows "mset (select_times (length (tied_candidates cs)) d p cs rr) = mset (map Some (tied_candidates cs))"
proof -
  let ?m = "length (tied_candidates cs)" and ?r = "rr (d @ CHR 0x00 # p)"
  have pos: "?m > 0" using tied_candidates_ne [OF assms] by simp
  have "length (select_times n d p cs rr) = n" for n
    by (induction n arbitrary: rr) (auto split: prod.splits)
  then have "select_times ?m d p cs rr = map (\<lambda>i. Some (tied_candidates cs ! ((?r + i) mod ?m))) [0..<?m]"
    using select_times_nth [OF assms] by (intro nth_equalityI) auto
  also have "\<dots> = map Some (rotate ?r (tied_candidates cs))"
    using pos by (intro nth_equalityI) (auto simp: nth_rotate add.commute)
  finally show ?thesis by (metis mset_map mset_rotate_list)
qed

lemma round_robin_fair_witness:
  "mset (select_times (length (tied_candidates (ex_cands ''p''))) ''d'' ''p'' (ex_cands ''p'') (\<lambda>_. 0))
   = mset (map Some (tied_candidates (ex_cands ''p'')))"
  by (rule round_robin_fair) (simp add: ex_cands_def)



text \<open>
  C38: required tags do not bind an executor that declares none: a worker without tags satisfies
  every tag the request demands and every tag the pool demands, and a rule restricted to tags also
  matches requests that carry no tag.
\<close>

theorem untagged_worker_accepted:
  assumes "pc_Tags c = []"
  shows "capabilitySatisfies c req = capabilitySatisfies c (req\<lparr>q_Tags := []\<rparr>)
    \<and> poolAllows c policy = poolAllows c (policy\<lparr>pp_Tags := []\<rparr>)
    \<and> (q_Tags req = [] \<longrightarrow> rule_matches m req = rule_matches (m\<lparr>mc_Tags := []\<rparr>) req)"
  using assms
  by (simp add: capabilitySatisfies_def poolAllows_def poolClaimsAllowed_def rule_matches_def matchesTags_def subset_str_def)

lemma untagged_worker_accepted_witness:
  "capabilitySatisfies (ex_candidate ''w1'' 0) ((ex_route_request [])\<lparr>q_Tags := [''gpu'']\<rparr>)"
proof -
  have u: "pc_Tags (ex_candidate ''w1'' 0) = []" by (simp add: ex_candidate_def)
  have "capabilitySatisfies (ex_candidate ''w1'' 0) ((ex_route_request [])\<lparr>q_Tags := []\<rparr>)" by code_simp
  then show ?thesis using untagged_worker_accepted [OF u, of "(ex_route_request [])\<lparr>q_Tags := [''gpu'']\<rparr>"] by simp
qed

end
