(* ===== verification/Object_Store.thy ===== *)
theory Object_Store
  imports Go_Encoding
begin

text \<open>
  The object store of receipts: the \<open>Store\<close> interface (\<open>internal/objectstore/store.go\<close>), its
  implementation on a private directory (\<open>internal/objectstore/local.go\<close>), the parts of
  \<open>path/filepath\<close> and \<open>net/url\<close> that build and clean object keys, and the contract the receipt
  service relies on, as a locale that the local store is shown to satisfy.

  An object is either raw bytes or a record document, the JSON text of a value of type \<open>'d\<close> together
  with the length of that text.  Every call into the operating system may fail: the store carries a
  sequence of verdicts, one per call, and all statements hold for every sequence.  A failure while
  reading an opened object is counted as a failure to open it.
\<close>

section \<open>Objects and the Store interface\<close>

datatype 'd content = Raw bytes | Doc nat 'd

fun content_len :: "'d content \<Rightarrow> nat" where
  "content_len (Raw b) = length b"
| "content_len (Doc n _) = n"

datatype store_error = ObjectNotFound | InvalidKey | LocalRootRequired | ObjectSize | IOFailure

type_synonym metadata = "(string \<times> string) option"

text \<open>The body of a \<open>Put\<close> is what its reader delivers: a read error, or the whole content.\<close>

type_synonym 'd body = "store_error + 'd content"

record ('d, 's) Store =
  Store_Put :: "string \<Rightarrow> 'd body \<Rightarrow> int \<Rightarrow> metadata \<Rightarrow> 's \<Rightarrow> 's \<times> store_error option"
  Store_Open :: "string \<Rightarrow> 's \<Rightarrow> 's \<times> (store_error + 'd content)"
  Store_Delete :: "string \<Rightarrow> 's \<Rightarrow> 's \<times> store_error option"
  Store_List :: "string \<Rightarrow> 's \<Rightarrow> 's \<times> (store_error + string list)"

section \<open>Paths and path segments\<close>

text \<open>
  \<open>filepath.Clean\<close> on a slash-separated system: empty and \<open>.\<close> elements vanish, \<open>..\<close> removes the element
  before it, and a rooted path has no element above its root.
\<close>

fun clean_step :: "bool \<Rightarrow> string list \<Rightarrow> string \<Rightarrow> string list" where
  "clean_step rooted stack e =
     (if e = [] \<or> e = ''.'' then stack
      else if e = ''..'' then
        (if stack \<noteq> [] \<and> last stack \<noteq> ''..'' then butlast stack
         else if rooted then stack else stack @ [e])
      else stack @ [e])"

definition filepath_Clean :: "string \<Rightarrow> string" where
  "filepath_Clean p =
     (let rooted = has_prefix p ''/''; es = foldl (clean_step rooted) [] (split_on CHR ''/'' p) in
      if rooted then CHR ''/'' # join CHR ''/'' es
      else if es = [] then ''.'' else join CHR ''/'' es)"

definition cleanKey :: "string \<Rightarrow> string \<Rightarrow> store_error + string" where
  "cleanKey root key =
     (if root = [] then Inl LocalRootRequired
      else let clean = filepath_Clean key in
        if clean = ''.'' \<or> has_prefix clean ''/'' \<or> clean = ''..'' \<or> has_prefix clean ''../'' then Inl InvalidKey
        else Inr clean)"

text \<open>\<open>url.PathEscape\<close> and \<open>url.PathUnescape\<close> of one path segment.\<close>

definition unreserved :: "char \<Rightarrow> bool" where
  "unreserved c \<longleftrightarrow> is_upper c \<or> is_lower c \<or> is_digit c \<or> c \<in> {CHR ''-'', CHR ''_'', CHR ''.'', CHR ''~''}"

definition segment_safe :: "char \<Rightarrow> bool" where
  "segment_safe c \<longleftrightarrow> unreserved c \<or> c \<in> {CHR ''$'', CHR ''&'', CHR ''+'', CHR ''='', CHR '':'', CHR ''@''}"

definition upper_hex :: "nat \<Rightarrow> char" where
  "upper_hex d = char_of (if d < 10 then 48 + d else 55 + d)"

definition percent :: "char \<Rightarrow> string" where
  "percent c = [CHR ''%'', upper_hex (of_char c div 16), upper_hex (of_char c mod 16)]"

definition PathEscape :: "string \<Rightarrow> string" where
  "PathEscape s = concat (map (\<lambda>c. if segment_safe c then [c] else percent c) s)"

definition hex_digit_val :: "char \<Rightarrow> nat" where
  "hex_digit_val c = (if is_digit c then of_char c - 48 else if is_lower c then of_char c - 87 else of_char c - 55)"

fun PathUnescape :: "string \<Rightarrow> string option" where
  "PathUnescape [] = Some []"
| "PathUnescape (c # s) =
     (if c = CHR ''%'' then
        (case s of
           a # b # t \<Rightarrow> if is_hex a \<and> is_hex b
              then map_option (Cons (char_of (hex_digit_val a * 16 + hex_digit_val b))) (PathUnescape t) else None
         | _ \<Rightarrow> None)
      else map_option (Cons c) (PathUnescape s))"

section \<open>The local store\<close>

text \<open>
  The files under the root by cleaned path, the most recent first, and the verdicts of the coming
  system calls (\<open>True\<close> fails; when the list is used up every call succeeds).
\<close>

record 'd LocalFS =
  lf_files :: "(string \<times> 'd content) list"
  lf_faults :: "bool list"

definition syscall :: "'d LocalFS \<Rightarrow> 'd LocalFS \<times> bool" where
  "syscall s = (case lf_faults s of [] \<Rightarrow> (s, False) | f # fs \<Rightarrow> (s\<lparr>lf_faults := fs\<rparr>, f))"

definition write_file :: "string \<Rightarrow> 'd content \<Rightarrow> 'd LocalFS \<Rightarrow> 'd LocalFS" where
  "write_file p c s = s\<lparr>lf_files := (p, c) # filter (\<lambda>f. fst f \<noteq> p) (lf_files s)\<rparr>"

definition remove_file :: "string \<Rightarrow> 'd LocalFS \<Rightarrow> 'd LocalFS" where
  "remove_file p s = s\<lparr>lf_files := filter (\<lambda>f. fst f \<noteq> p) (lf_files s)\<rparr>"

definition meta_suffix :: string where
  "meta_suffix = ''.metadata.json''"

definition meta_path :: "string \<Rightarrow> string" where
  "meta_path p = p @ meta_suffix"

text \<open>\<open>copyContext\<close> fails when the reader or the context does; the size is checked unless negative.\<close>

definition writeTemporaryObject :: "'d body \<Rightarrow> int \<Rightarrow> 'd LocalFS \<Rightarrow> 'd LocalFS \<times> (store_error + 'd content)" where
  "writeTemporaryObject body n s =
     (let (s, failed) = syscall s in
      if failed then (s, Inl IOFailure)
      else (s, case body of
          Inl e \<Rightarrow> Inl e
        | Inr c \<Rightarrow> if 0 \<le> n \<and> int (content_len c) \<noteq> n then Inl ObjectSize else Inr c))"

text \<open>The metadata the sources pass are nil or one pair whose strings need no JSON escapes.\<close>

definition metadata_json :: "metadata \<Rightarrow> bytes" where
  "metadata_json m = (case m of
     None \<Rightarrow> ''null''
   | Some (k, v) \<Rightarrow> ''{'' @ [CHR 0x22] @ k @ [CHR 0x22] @ '':'' @ [CHR 0x22] @ v @ [CHR 0x22] @ ''}'')"

definition writeObjectMetadata :: "string \<Rightarrow> metadata \<Rightarrow> 'd LocalFS \<Rightarrow> 'd LocalFS \<times> store_error option" where
  "writeObjectMetadata path m s =
     (let (s, failed) = syscall s in
      if failed then (s, Some IOFailure) else (write_file (meta_path path) (Raw (metadata_json m)) s, None))"

definition Local_Put :: "string \<Rightarrow> string \<Rightarrow> 'd body \<Rightarrow> int \<Rightarrow> metadata \<Rightarrow> 'd LocalFS \<Rightarrow> 'd LocalFS \<times> store_error option" where
  "Local_Put root key body n m s = (case cleanKey root key of
     Inl e \<Rightarrow> (s, Some e)
   | Inr path \<Rightarrow>
      (let (s, failed) = syscall s in
       if failed then (s, Some IOFailure)
       else case writeTemporaryObject body n s of
         (s, Inl e) \<Rightarrow> (s, Some e)
       | (s, Inr c) \<Rightarrow>
          (let (s, failed) = syscall s in
           if failed then (s, Some IOFailure) else writeObjectMetadata path m (write_file path c s))))"

definition openRoot :: "string \<Rightarrow> string \<Rightarrow> 'd LocalFS \<Rightarrow> 'd LocalFS \<times> (store_error + string)" where
  "openRoot root key s = (case cleanKey root key of
     Inl e \<Rightarrow> (s, Inl e)
   | Inr clean \<Rightarrow> (let (s, failed) = syscall s in (s, if failed then Inl IOFailure else Inr clean)))"

definition Local_Open :: "string \<Rightarrow> string \<Rightarrow> 'd LocalFS \<Rightarrow> 'd LocalFS \<times> (store_error + 'd content)" where
  "Local_Open root key s = (case openRoot root key s of
     (s, Inl e) \<Rightarrow> (s, Inl e)
   | (s, Inr clean) \<Rightarrow>
      (case map_of (lf_files s) clean of
         None \<Rightarrow> (s, Inl ObjectNotFound)
       | Some c \<Rightarrow> (let (s, failed) = syscall s in (s, if failed then Inl IOFailure else Inr c))))"

definition Local_Delete :: "string \<Rightarrow> string \<Rightarrow> 'd LocalFS \<Rightarrow> 'd LocalFS \<times> store_error option" where
  "Local_Delete root key s = (case openRoot root key s of
     (s, Inl e) \<Rightarrow> (s, Some e)
   | (s, Inr clean) \<Rightarrow>
      (let (s, failed) = syscall s in
       if failed then (s, Some IOFailure)
       else let s = remove_file clean s; (s, failed) = syscall s in
         (if failed then s else remove_file (meta_path clean) s, None)))"

text \<open>\<open>fs.WalkDir\<close> visits the files in the order of their path elements.\<close>

definition Local_List :: "string \<Rightarrow> string \<Rightarrow> 'd LocalFS \<Rightarrow> 'd LocalFS \<times> (store_error + string list)" where
  "Local_List root p s = (case cleanKey root p of
     Inl e \<Rightarrow> (s, Inl e)
   | Inr _ \<Rightarrow>
      (let (s, failed) = syscall s in
       if failed then (s, Inl IOFailure)
       else (s, Inr (filter (\<lambda>q. \<not> has_suffix q meta_suffix \<and> has_prefix q p)
              (sort_key (split_on CHR ''/'') (map fst (lf_files s)))))))"

definition Local :: "string \<Rightarrow> ('d, 'd LocalFS) Store" where
  "Local root = \<lparr>Store_Put = Local_Put root, Store_Open = Local_Open root, Store_Delete = Local_Delete root,
     Store_List = Local_List root\<rparr>"

text \<open>
  Keys on which the local store is a map: already clean, and not the name of a metadata file.
  \<open>local_contents\<close> is the map it implements.
\<close>

definition plain_key :: "string \<Rightarrow> bool" where
  "plain_key k \<longleftrightarrow> cleanKey ''/'' k = Inr k \<and> \<not> has_suffix k meta_suffix"

definition local_contents :: "'d LocalFS \<Rightarrow> string \<Rightarrow> 'd content option" where
  "local_contents s k = (if plain_key k then map_of (lf_files s) k else None)"

definition no_faults :: "'d LocalFS \<Rightarrow> bool" where
  "no_faults s \<longleftrightarrow> list_all Not (lf_faults s)"

definition local_wf :: "'d LocalFS \<Rightarrow> bool" where
  "local_wf s \<longleftrightarrow> (\<forall>(p, c) \<in> set (lf_files s). plain_key p \<or> has_suffix p meta_suffix)"

section \<open>The contract of a store\<close>

text \<open>
  What receipts rely on: a failed \<open>Put\<close> leaves the store as it was or has written the object (its
  metadata failed), an object is only ever replaced as a whole and only by a content of the declared
  size, \<open>Open\<close> tells a missing object from a failure, and the keys \<open>List\<close> returns can be used.
\<close>

locale object_store =
  fixes S :: "('d, 's) Store"
    and contents :: "'s \<Rightarrow> string \<Rightarrow> 'd content option"
    and okkey :: "string \<Rightarrow> bool"
    and wf :: "'s \<Rightarrow> bool"
    and healthy :: "'s \<Rightarrow> bool"
  assumes put_effect: "okkey k \<Longrightarrow> Store_Put S k body n m s = (s', r) \<Longrightarrow> wf s \<Longrightarrow>
      wf s' \<and> (contents s' = contents s \<and> r \<noteq> None
      \<or> (\<exists>c. body = Inr c \<and> (0 \<le> n \<longrightarrow> int (content_len c) = n) \<and> contents s' = (contents s)(k \<mapsto> c)))"
    and put_healthy: "okkey k \<Longrightarrow> Store_Put S k (Inr c) n m s = (s', r) \<Longrightarrow> healthy s \<Longrightarrow> n < 0 \<or> int (content_len c) = n \<Longrightarrow>
      healthy s' \<and> r = None"
    and open_effect: "Store_Open S k s = (s', ro) \<Longrightarrow> wf s \<Longrightarrow>
      wf s' \<and> contents s' = contents s
      \<and> (okkey k \<longrightarrow> (case ro of Inr c \<Rightarrow> contents s k = Some c | Inl e \<Rightarrow> e = ObjectNotFound \<longrightarrow> contents s k = None))"
    and open_healthy: "okkey k \<Longrightarrow> Store_Open S k s = (s', ro) \<Longrightarrow> healthy s \<Longrightarrow>
      healthy s' \<and> ro = (case contents s k of None \<Rightarrow> Inl ObjectNotFound | Some c \<Rightarrow> Inr c)"
    and delete_effect: "okkey k \<Longrightarrow> Store_Delete S k s = (s', r) \<Longrightarrow> wf s \<Longrightarrow>
      wf s' \<and> (contents s' = contents s \<and> r \<noteq> None \<or> contents s' = (contents s)(k := None))"
    and delete_healthy: "okkey k \<Longrightarrow> Store_Delete S k s = (s', r) \<Longrightarrow> healthy s \<Longrightarrow> healthy s' \<and> r = None"
    and list_effect: "Store_List S p s = (s', rl) \<Longrightarrow> wf s \<Longrightarrow>
      wf s' \<and> contents s' = contents s \<and> (case rl of Inl e \<Rightarrow> True | Inr ks \<Rightarrow> \<forall>k \<in> set ks. okkey k)"
    and list_healthy: "Store_List S p s = (s', rl) \<Longrightarrow> healthy s \<Longrightarrow> healthy s'"

section \<open>Lemmas\<close>

lemma join_split [simp]: "join c (split_on c s) = s"
proof (induction s)
  case (Cons x s)
  then show ?case by (cases "split_on c s"; cases "tl (split_on c s)") auto
qed simp

lemma in_split_on: "w \<in> set (split_on c s) \<Longrightarrow> c \<notin> set w"
  by (induction s arbitrary: w) (auto split: list.splits if_splits)

text \<open>Every element left by \<open>filepath.Clean\<close> is a real name, but for leading \<open>..\<close> of a relative path.\<close>

definition clean_elems :: "bool \<Rightarrow> string list \<Rightarrow> bool" where
  "clean_elems rooted es \<longleftrightarrow> (\<forall>e \<in> set es. e \<noteq> [] \<and> e \<noteq> ''.'' \<and> CHR ''/'' \<notin> set e)
     \<and> (\<exists>n ns. es = replicate n ''..'' @ ns \<and> ''..'' \<notin> set ns \<and> (rooted \<longrightarrow> n = 0))"

lemma clean_elemsI:
  "\<forall>e \<in> set (replicate n ''..'' @ ns). e \<noteq> [] \<and> e \<noteq> ''.'' \<and> CHR ''/'' \<notin> set e \<Longrightarrow> ''..'' \<notin> set ns \<Longrightarrow>
   (rooted \<Longrightarrow> n = 0) \<Longrightarrow> clean_elems rooted (replicate n ''..'' @ ns)"
  by (auto simp: clean_elems_def)

lemma clean_step_elems:
  assumes "clean_elems rooted es" "CHR ''/'' \<notin> set e"
  shows "clean_elems rooted (clean_step rooted es e)"
proof -
  from assms(1) obtain n ns where es: "es = replicate n ''..'' @ ns" "''..'' \<notin> set ns" "rooted \<longrightarrow> n = 0"
    and ok: "\<forall>e \<in> set es. e \<noteq> [] \<and> e \<noteq> ''.'' \<and> CHR ''/'' \<notin> set e" by (auto simp: clean_elems_def)
  show ?thesis
  proof (cases "e = ''..'' \<and> ns = []")
    case True
    then have "es = replicate n ''..''" using es by simp
    then have "clean_step rooted es e = (if rooted then es else replicate (Suc n) ''..'')"
      using True by (cases n) (auto simp: replicate_append_same)
    then show ?thesis using assms(1) clean_elemsI [of "Suc n" "[]" False] by (cases rooted) auto
  next
    case nn: False
    show ?thesis
    proof (cases "e = ''..''")
      case True
      then have "ns \<noteq> []" using nn by blast
      then have "ns \<noteq> []" "last ns \<noteq> ''..''" using es(2) last_in_set [of ns] by metis+
      then have "clean_step rooted es e = replicate n ''..'' @ butlast ns" using True es by (simp add: butlast_append)
      moreover have "clean_elems rooted (replicate n ''..'' @ butlast ns)"
      proof (rule clean_elemsI)
        show "\<forall>e \<in> set (replicate n ''..'' @ butlast ns). e \<noteq> [] \<and> e \<noteq> ''.'' \<and> CHR ''/'' \<notin> set e"
          using ok unfolding es(1) set_append by (meson Un_iff in_set_butlastD)
        show "''..'' \<notin> set (butlast ns)" using es(2) in_set_butlastD by metis
      qed (use es(3) in blast)
      ultimately show ?thesis by simp
    next
      case False
      have "clean_elems rooted (es @ [e])" if "e \<noteq> []" "e \<noteq> ''.''"
        using clean_elemsI [of n "ns @ [e]" rooted] ok assms(2) es False that by auto
      then show ?thesis using False assms(1) by auto
    qed
  qed
qed

lemma clean_fold_elems:
  "clean_elems rooted es \<Longrightarrow> \<forall>w \<in> set ws. CHR ''/'' \<notin> set w \<Longrightarrow> clean_elems rooted (foldl (clean_step rooted) es ws)"
proof (induction ws arbitrary: es)
  case (Cons w ws)
  then have "clean_elems rooted (clean_step rooted es w)" by (simp add: clean_step_elems del: clean_step.simps)
  then show ?case using Cons by (simp del: clean_step.simps)
qed simp

lemma clean_fold_plain:
  "\<forall>w \<in> set ws. w \<notin> {[], ''.'', ''..''} \<Longrightarrow> foldl (clean_step rooted) es ws = es @ ws"
  by (induction ws arbitrary: es) auto

lemma filepath_Clean_plain:
  assumes "ws \<noteq> []" "\<forall>w \<in> set ws. w \<notin> {[], ''.'', ''..''} \<and> CHR ''/'' \<notin> set w"
  shows "filepath_Clean (join CHR ''/'' ws) = join CHR ''/'' ws"
proof -
  have s: "split_on CHR ''/'' (join CHR ''/'' ws) = ws" using assms by (intro split_on_join) auto
  obtain w ws' where ws: "ws = w # ws'" using assms(1) by (cases ws) auto
  then obtain c w' where w: "w = c # w'" "c \<noteq> CHR ''/''" using assms(2) by (cases w) auto
  have "\<not> has_prefix (join CHR ''/'' ws) ''/''" using w ws by (cases ws') (auto simp: has_prefix_def)
  then show ?thesis using clean_fold_plain [of ws False "[]"] assms s by (simp add: filepath_Clean_def Let_def)
qed

lemma cleanKey_plain:
  assumes "ws \<noteq> []" "\<forall>w \<in> set ws. w \<notin> {[], ''.'', ''..''} \<and> CHR ''/'' \<notin> set w" "root \<noteq> []"
  shows "cleanKey root (join CHR ''/'' ws) = Inr (join CHR ''/'' ws)"
proof -
  let ?k = "join CHR ''/'' ws"
  have s: "split_on CHR ''/'' ?k = ws" using assms by (intro split_on_join) auto
  have no: "p \<notin> set (split_on CHR ''/'' ?k)" if "p \<in> {[], ''.'', ''..''}" for p
    unfolding s using assms(2) that by blast
  have "?k \<noteq> ''.''" using no [of "''.''"] by (intro notI) simp
  moreover have "?k \<noteq> ''..''" using no [of "''..''"] by (intro notI) simp
  moreover have p: "\<not> has_prefix ?k (p @ ''/'')" if "p \<in> {[], ''..''}" for p
  proof
    assume "has_prefix ?k (p @ ''/'')"
    then obtain q where "?k = p @ CHR ''/'' # q" by (auto simp: has_prefix_iff)
    moreover have "CHR ''/'' \<notin> set p" "p \<in> {[], ''.'', ''..''}" using that by auto
    ultimately show False using no [of p] split_on_append [of "CHR ''/''" p q] by simp
  qed
  have "\<not> has_prefix ?k ''/''" "\<not> has_prefix ?k ''../''" using p [of "[]"] p [of "''..''"] by simp_all
  then show ?thesis using calculation assms(3) filepath_Clean_plain [OF assms(1,2)] by (simp add: cleanKey_def)
qed

lemma cleanKey_root: "root \<noteq> [] \<Longrightarrow> cleanKey root k = cleanKey ''/'' k"
  by (simp add: cleanKey_def)

lemma cleanKey_elems:
  assumes "cleanKey root key = Inr c"
  obtains es where "clean_elems False es" "es \<noteq> []" "c = join CHR ''/'' es" "hd es \<noteq> ''..''"
proof -
  let ?r = "has_prefix key ''/''"
  define es where "es = foldl (clean_step ?r) [] (split_on CHR ''/'' key)"
  have c: "c = filepath_Clean key" "c \<noteq> ''.''" "\<not> has_prefix c ''/''" "c \<noteq> ''..''" "\<not> has_prefix c ''../''"
    using assms by (auto simp: cleanKey_def Let_def split: if_splits)
  have rel: "\<not> ?r"
  proof
    assume r: ?r
    have "c = CHR ''/'' # join CHR ''/'' es" unfolding c(1) filepath_Clean_def Let_def es_def using r by (simp only: if_True)
    then show False using c(3) by (simp add: has_prefix_def)
  qed
  then have cj: "c = (if es = [] then ''.'' else join CHR ''/'' es)"
    unfolding c(1) filepath_Clean_def Let_def es_def by (simp only: if_False)
  have "clean_elems ?r es" unfolding es_def
  proof (rule clean_fold_elems)
    show "clean_elems ?r []" using clean_elemsI [of 0 "[]" ?r] by simp
  qed (use in_split_on in blast)
  then have ce: "clean_elems False es" using rel by simp
  have ne: "es \<noteq> []"
  proof
    assume "es = []"
    then have "c = ''.''" using cj by simp
    then show False using c(2) by contradiction
  qed
  then have cj: "c = join CHR ''/'' es" using cj by simp
  have "hd es \<noteq> ''..''"
  proof
    assume h: "hd es = ''..''"
    obtain e es' where e: "es = e # es'" using ne by (cases es) auto
    show False
    proof (cases es')
      case Nil
      then show ?thesis using c(4) cj e h by simp
    next
      case (Cons x xs)
      then show ?thesis using c(5) cj e h by (simp add: has_prefix_def)
    qed
  qed
  then show ?thesis using that [OF ce ne cj] by blast
qed

lemma plain_key_join:
  assumes "ws \<noteq> []" "\<forall>w \<in> set ws. w \<notin> {[], ''.'', ''..''} \<and> CHR ''/'' \<notin> set w" "\<not> has_suffix (last ws) meta_suffix"
  shows "plain_key (join CHR ''/'' ws)"
proof -
  have "\<not> has_suffix (join CHR ''/'' ws) meta_suffix" using assms(1,3)
  proof (induction "CHR ''/''" ws rule: join.induct)
    case (3 w v ws)
    have "has_suffix (join CHR ''/'' (v # ws)) meta_suffix" if s: "has_suffix (w @ CHR ''/'' # join CHR ''/'' (v # ws)) meta_suffix"
    proof -
      from s obtain q where q: "w @ CHR ''/'' # join CHR ''/'' (v # ws) = q @ meta_suffix" unfolding has_suffix_iff by blast
      have "\<exists>us. join CHR ''/'' (v # ws) = us @ meta_suffix \<or> us @ CHR ''/'' # join CHR ''/'' (v # ws) = meta_suffix"
        using q unfolding append_eq_append_conv2 by (auto simp: Cons_eq_append_conv)
      moreover have "us @ CHR ''/'' # zs \<noteq> meta_suffix" for us zs
      proof
        assume "us @ CHR ''/'' # zs = meta_suffix"
        then have "CHR ''/'' \<in> set meta_suffix" by (metis in_set_conv_decomp)
        then show False by (simp add: meta_suffix_def)
      qed
      ultimately show ?thesis unfolding has_suffix_iff by blast
    qed
    then show ?case using 3 by auto
  qed auto
  then show ?thesis using cleanKey_plain [OF assms(1,2), of "''/''"] by (simp add: plain_key_def)
qed

lemma plain_not_meta: "plain_key k \<Longrightarrow> k \<noteq> meta_path p"
  by (auto simp: plain_key_def meta_path_def has_suffix_iff)

lemma map_of_filter_neq: "map_of (filter (\<lambda>f. fst f \<noteq> p) fs) = (map_of fs)(p := None)"
  by (induction fs) (auto simp: fun_eq_iff)

lemma files_write_file: "map_of (lf_files (write_file p c s)) = (map_of (lf_files s))(p \<mapsto> c)"
  by (simp add: write_file_def map_of_filter_neq)

lemma files_remove_file: "map_of (lf_files (remove_file p s)) = (map_of (lf_files s))(p := None)"
  by (simp add: remove_file_def map_of_filter_neq)

lemma contents_write [simp]: "plain_key k \<Longrightarrow> local_contents (write_file k c s) = (local_contents s)(k \<mapsto> c)"
  by (auto simp: local_contents_def files_write_file fun_eq_iff)

lemma contents_write_meta [simp]: "local_contents (write_file (meta_path p) c s) = local_contents s"
  by (auto simp: local_contents_def files_write_file fun_eq_iff dest: plain_not_meta)

lemma contents_remove [simp]: "plain_key k \<Longrightarrow> local_contents (remove_file k s) = (local_contents s)(k := None)"
  by (auto simp: local_contents_def files_remove_file fun_eq_iff)

lemma contents_remove_meta [simp]: "local_contents (remove_file (meta_path p) s) = local_contents s"
  by (auto simp: local_contents_def files_remove_file fun_eq_iff dest: plain_not_meta)

lemma syscall_keeps: "syscall s = (s', b) \<Longrightarrow> local_contents s' = local_contents s \<and> (no_faults s \<longrightarrow> no_faults s' \<and> \<not> b) \<and> lf_files s' = lf_files s"
  by (auto simp: syscall_def local_contents_def no_faults_def fun_eq_iff split: list.splits)

lemma no_faults_files [simp]: "no_faults (write_file p c s) = no_faults s" "no_faults (remove_file p s) = no_faults s"
  by (simp_all add: no_faults_def write_file_def remove_file_def)

lemma syscall_wf [simp]: "syscall s = (s', b) \<Longrightarrow> local_wf s' = local_wf s"
  by (auto simp: syscall_def local_wf_def split: list.splits)

lemma local_wf_files [simp]:
  "plain_key k \<Longrightarrow> local_wf s \<Longrightarrow> local_wf (write_file k c s)" "local_wf s \<Longrightarrow> local_wf (write_file (meta_path k) c s)"
  "local_wf s \<Longrightarrow> local_wf (remove_file p s)"
  by (auto simp: local_wf_def write_file_def remove_file_def meta_path_def has_suffix_iff)

lemma plain_cleanKey: "plain_key k \<Longrightarrow> root \<noteq> [] \<Longrightarrow> cleanKey root k = Inr k"
  using cleanKey_root [of root k] by (simp add: plain_key_def)

lemma writeTemporaryObject_keeps:
  "writeTemporaryObject body n s = (s', r) \<Longrightarrow> local_contents s' = local_contents s
   \<and> (\<forall>c. r = Inr c \<longrightarrow> body = Inr c \<and> (0 \<le> n \<longrightarrow> int (content_len c) = n))
   \<and> (no_faults s \<longrightarrow> no_faults s' \<and> (\<forall>c. body = Inr c \<and> (n < 0 \<or> int (content_len c) = n) \<longrightarrow> r = Inr c))"
  by (auto simp: writeTemporaryObject_def Let_def split: prod.splits if_splits sum.splits dest!: syscall_keeps)

lemma writeObjectMetadata_keeps:
  "writeObjectMetadata p m s = (s', r) \<Longrightarrow> local_contents s' = local_contents s \<and> (no_faults s \<longrightarrow> no_faults s' \<and> r = None)"
  by (auto simp: writeObjectMetadata_def Let_def split: prod.splits if_splits dest!: syscall_keeps)

lemmas local_keeps = syscall_keeps writeTemporaryObject_keeps writeObjectMetadata_keeps

lemma Local_Put_effect:
  assumes "plain_key k" "Local_Put (CHR ''/'' # d) k body n m s = (s', r)"
  shows "local_contents s' = local_contents s \<and> r \<noteq> None
    \<or> (\<exists>c. body = Inr c \<and> (0 \<le> n \<longrightarrow> int (content_len c) = n) \<and> local_contents s' = (local_contents s)(k \<mapsto> c))"
proof -
  have k: "cleanKey (CHR ''/'' # d) k = Inr k" using plain_cleanKey assms(1) by simp
  obtain s1 b1 where 1: "syscall s = (s1, b1)" by fastforce
  obtain s2 r2 where 2: "writeTemporaryObject body n s1 = (s2, r2)" by fastforce
  obtain s3 b3 where 3: "syscall s2 = (s3, b3)" by fastforce
  have same: "local_contents s1 = local_contents s" "local_contents s2 = local_contents s" "local_contents s3 = local_contents s"
    using syscall_keeps [OF 1] writeTemporaryObject_keeps [OF 2] syscall_keeps [OF 3] by simp_all
  show ?thesis
  proof (cases "b1 \<or> b3 \<or> (\<exists>e. r2 = Inl e)")
    case True
    then have "local_contents s' = local_contents s \<and> r \<noteq> None"
      using assms(2) same unfolding Local_Put_def k by (auto simp: 1 2 3 split: sum.splits if_splits)
    then show ?thesis by blast
  next
    case False
    then obtain c where c: "r2 = Inr c" by (cases r2) auto
    have "writeObjectMetadata k m (write_file k c s3) = (s', r)"
      using assms(2) False unfolding Local_Put_def k by (simp add: 1 2 3 c)
    then have "local_contents s' = (local_contents s)(k \<mapsto> c)" using writeObjectMetadata_keeps same(3) assms(1) by fastforce
    then show ?thesis using writeTemporaryObject_keeps [OF 2] c by blast
  qed
qed

lemma Local_Put_healthy:
  assumes "plain_key k" "Local_Put (CHR ''/'' # d) k (Inr c) n m s = (s', r)" "no_faults s" "n < 0 \<or> int (content_len c) = n"
  shows "no_faults s' \<and> r = None"
proof -
  have k: "cleanKey (CHR ''/'' # d) k = Inr k" using plain_cleanKey assms(1) by simp
  show ?thesis using assms(2-4) unfolding Local_Put_def k
    by (auto simp: Let_def split: prod.splits if_splits sum.splits dest!: local_keeps)
qed

lemma openRoot_keeps:
  "plain_key k \<Longrightarrow> openRoot (CHR ''/'' # d) k s = (s', r) \<Longrightarrow> local_contents s' = local_contents s \<and> lf_files s' = lf_files s
   \<and> r \<in> {Inl IOFailure, Inr k} \<and> (no_faults s \<longrightarrow> no_faults s' \<and> r = Inr k)"
  by (auto simp: openRoot_def plain_cleanKey split: prod.splits if_splits dest!: syscall_keeps)

lemma Local_Open_effect:
  assumes "plain_key k" "Local_Open (CHR ''/'' # d) k s = (s', r)"
  shows "local_contents s' = local_contents s
    \<and> (case r of Inr c \<Rightarrow> local_contents s k = Some c | Inl e \<Rightarrow> e = ObjectNotFound \<longrightarrow> local_contents s k = None)
    \<and> (no_faults s \<longrightarrow> no_faults s' \<and> r = (case local_contents s k of None \<Rightarrow> Inl ObjectNotFound | Some c \<Rightarrow> Inr c))"
proof -
  obtain s1 r1 where o: "openRoot (CHR ''/'' # d) k s = (s1, r1)" by fastforce
  have c: "local_contents s k = map_of (lf_files s) k" using assms(1) by (simp add: local_contents_def)
  show ?thesis using assms(2) openRoot_keeps [OF assms(1) o] c
    by (auto simp: Local_Open_def o Let_def split: prod.splits if_splits option.splits sum.splits dest!: syscall_keeps)
qed

lemma Local_Open_keeps: "Local_Open root k s = (s', r) \<Longrightarrow> local_contents s' = local_contents s"
  by (auto simp: Local_Open_def openRoot_def Let_def split: prod.splits sum.splits option.splits if_splits dest!: syscall_keeps)

lemma Local_Delete_effect:
  assumes "plain_key k" "Local_Delete (CHR ''/'' # d) k s = (s', r)"
  shows "(local_contents s' = local_contents s \<and> r \<noteq> None \<or> local_contents s' = (local_contents s)(k := None))
    \<and> (no_faults s \<longrightarrow> no_faults s' \<and> r = None)"
proof -
  obtain s1 r1 where o: "openRoot (CHR ''/'' # d) k s = (s1, r1)" by fastforce
  show ?thesis using assms openRoot_keeps [OF assms(1) o]
    by (auto simp: Local_Delete_def o Let_def split: prod.splits if_splits dest!: syscall_keeps)
qed

lemma Local_List_effect:
  assumes "Local_List root p s = (s', r)"
  shows "local_contents s' = local_contents s \<and> (no_faults s \<longrightarrow> no_faults s')
    \<and> (local_wf s \<longrightarrow> local_wf s' \<and> (case r of Inl e \<Rightarrow> True | Inr ks \<Rightarrow> \<forall>k \<in> set ks. plain_key k))"
proof -
  obtain s1 b where 1: "syscall s = (s1, b)" by fastforce
  have "\<forall>q \<in> set (map fst (lf_files s)). plain_key q \<or> has_suffix q meta_suffix" if "local_wf s"
    using that by (auto simp: local_wf_def)
  moreover have "local_wf s1 = local_wf s" using syscall_keeps [OF 1] by (simp add: local_wf_def)
  ultimately show ?thesis using assms syscall_keeps [OF 1] unfolding Local_List_def Let_def 1
    by (auto split: if_splits sum.splits)
qed

lemma Local_Put_wf:
  assumes "plain_key k" "Local_Put (CHR ''/'' # d) k body n m s = (s', r)" "local_wf s"
  shows "local_wf s'"
proof -
  have k: "cleanKey (CHR ''/'' # d) k = Inr k" using plain_cleanKey assms(1) by simp
  show ?thesis using assms unfolding Local_Put_def k writeTemporaryObject_def writeObjectMetadata_def Let_def
    by (auto split: prod.splits if_splits sum.splits)
qed

lemma openRoot_wf: "openRoot root k s = (s', r) \<Longrightarrow> local_wf s' = local_wf s"
  by (auto simp: openRoot_def split: prod.splits sum.splits)

lemma Local_Open_wf: "Local_Open root k s = (s', r) \<Longrightarrow> local_wf s' = local_wf s"
  by (auto simp: Local_Open_def Let_def split: prod.splits sum.splits option.splits dest!: openRoot_wf)

lemma Local_Delete_wf: "Local_Delete root k s = (s', r) \<Longrightarrow> local_wf s \<Longrightarrow> local_wf s'"
  by (auto simp: Local_Delete_def Let_def split: prod.splits sum.splits if_splits dest!: openRoot_wf)

interpretation local_store: object_store "Local (CHR ''/'' # d)" local_contents plain_key local_wf no_faults for d
proof (unfold_locales, unfold Local_def Store.simps, goal_cases)
  case 1
  then show ?case using Local_Put_effect [OF 1(1,2)] Local_Put_wf [OF 1] by blast
next
  case 2
  then show ?case by (rule Local_Put_healthy)
next
  case 3
  then show ?case using Local_Open_effect [OF _ 3(1)] Local_Open_wf [OF 3(1)] Local_Open_keeps [OF 3(1)] by simp
next
  case 4
  then show ?case using Local_Open_effect [OF 4(1,2)] by simp
next
  case 5
  then show ?case using Local_Delete_effect [OF 5(1,2)] Local_Delete_wf [OF 5(2)] by simp
next
  case 6
  then show ?case using Local_Delete_effect [OF 6(1,2)] by simp
next
  case 7
  then show ?case using Local_List_effect [OF 7(1)] by simp
next
  case 8
  then show ?case using Local_List_effect [OF 8(1)] by simp
qed

lemma upper_hex_facts:
  assumes "d < 16"
  shows "is_hex (upper_hex d)" "hex_digit_val (upper_hex d) = d" "upper_hex d \<noteq> CHR ''/''"
proof -
  have "list_all (\<lambda>d. is_hex (upper_hex d) \<and> hex_digit_val (upper_hex d) = d \<and> upper_hex d \<noteq> CHR ''/'') [0..<16]" by code_simp
  then show "is_hex (upper_hex d)" "hex_digit_val (upper_hex d) = d" "upper_hex d \<noteq> CHR ''/''"
    using assms by (simp_all add: list_all_iff)
qed

lemma nibbles_less: "of_char c div 16 < (16::nat)" "of_char c mod 16 < (16::nat)"
  using nat_of_char_less_256 [of c] by (auto simp: less_mult_imp_div_less)

lemma PathUnescape_percent: "PathUnescape (percent c @ s) = map_option (Cons c) (PathUnescape s)"
  using upper_hex_facts [OF nibbles_less(1) [of c]] upper_hex_facts [OF nibbles_less(2) [of c]]
  by (simp add: percent_def)

lemma PathUnescape_PathEscape: "PathUnescape (PathEscape s) = Some s"
proof (induction s)
  case (Cons c s)
  have "segment_safe c \<Longrightarrow> c \<noteq> CHR ''%''" by (auto simp: segment_safe_def unreserved_def is_upper_def is_lower_def is_digit_def less_eq_char_def)
  then show ?case using Cons by (auto simp: PathEscape_def PathUnescape_percent)
qed (simp add: PathEscape_def)

lemma PathEscape_inj: "PathEscape a = PathEscape b \<longleftrightarrow> a = b"
  by (metis PathUnescape_PathEscape option.inject)

lemma PathEscape_no_slash: "CHR ''/'' \<notin> set (PathEscape s)"
proof -
  have "CHR ''/'' \<notin> set (percent c)" for c
    using upper_hex_facts(3) [OF nibbles_less(1) [of c]] upper_hex_facts(3) [OF nibbles_less(2) [of c]] by (auto simp: percent_def)
  then show ?thesis
    by (auto simp: PathEscape_def segment_safe_def unreserved_def is_upper_def is_lower_def is_digit_def less_eq_char_def)
qed

section \<open>Properties\<close>

text \<open>
  C39: no object key leaves the store's directory: whatever key is asked for, the path the local store
  uses is relative and has no empty, \<open>.\<close> or \<open>..\<close> element, and a path that is already of that form is
  used unchanged.
\<close>

theorem cleanKey_confined:
  "(cleanKey root key = Inr path \<longrightarrow> (\<forall>e \<in> set (split_on CHR ''/'' path). e \<notin> {[], ''.'', ''..''}))
   \<and> (root \<noteq> [] \<and> (\<forall>e \<in> set (split_on CHR ''/'' key). e \<notin> {[], ''.'', ''..''}) \<longrightarrow> cleanKey root key = Inr key)"
proof (intro conjI impI)
  assume "cleanKey root key = Inr path"
  then obtain es where es: "clean_elems False es" "es \<noteq> []" "path = join CHR ''/'' es" "hd es \<noteq> ''..''" by (rule cleanKey_elems)
  obtain n ns where n: "es = replicate n ''..'' @ ns" "''..'' \<notin> set ns" using es(1) unfolding clean_elems_def by blast
  have "n = 0" using es(4) n(1) by (cases n) auto
  then have "''..'' \<notin> set es" using n by simp
  moreover have "\<forall>e \<in> set es. e \<noteq> [] \<and> e \<noteq> ''.'' \<and> CHR ''/'' \<notin> set e" using es(1) unfolding clean_elems_def by blast
  moreover then have "split_on CHR ''/'' path = es" unfolding es(3) using es(2) split_on_join by blast
  ultimately show "\<forall>e \<in> set (split_on CHR ''/'' path). e \<notin> {[], ''.'', ''..''}" by blast
next
  assume a: "root \<noteq> [] \<and> (\<forall>e \<in> set (split_on CHR ''/'' key). e \<notin> {[], ''.'', ''..''})"
  then have "cleanKey root (join CHR ''/'' (split_on CHR ''/'' key)) = Inr (join CHR ''/'' (split_on CHR ''/'' key))"
    using in_split_on [of _ "CHR ''/''" key] by (intro cleanKey_plain) auto
  then show "cleanKey root key = Inr key" by simp
qed

lemma cleanKey_confined_witness:
  "cleanKey ''/data'' ''deployments/../x/./y'' = Inr ''x/y'' \<and> set (split_on CHR ''/'' ''x/y'') \<inter> {[], ''.'', ''..''} = {}
   \<and> cleanKey ''/data'' ''x/y'' = Inr ''x/y''"
proof -
  have "cleanKey ''/data'' ''deployments/../x/./y'' = Inr ''x/y''" by code_simp
  then show ?thesis
    using cleanKey_confined [of "''/data''" "''deployments/../x/./y''" "''x/y''"] cleanKey_confined [of "''/data''" "''x/y''" "''x/y''"]
    by auto
qed

end
