(* ===== verification/Receipts.thy ===== *)
theory Receipts
  imports Object_Store
begin

text \<open>
  Durable receipts (\<open>internal/receipt\<close>): bodies uploaded in parts, composed and verified against
  their declared size and checksum, claimed by one request at a time through a signed assignment,
  and expired by a periodic cleanup; and response bodies stored frame by frame.

  Every operation holds the service's mutex for all of its work, so a run of the service is a
  sequence of operations.  An operation reads one instant from its clock.  The store, the configuration,
  SHA-256, HMAC-SHA-256 and the length of a record's JSON text are the service's environment.  The
  JSON text of a record is the record with the fields tagged \<open>json:"-"\<close> cleared; optional fields that
  are absent decode to their zero values.
\<close>

section \<open>Records and environment\<close>

datatype ReceiptState = StateUploading | StateVerifying | StateVerified | StateAssigned | StateConsumed
  | StateRejected | StateCancelled | StateExpired

record Part =
  pt_Number :: int
  pt_SizeBytes :: int
  pt_SHA256Hex :: string

record Record =
  rd_ID :: string
  rd_DeploymentID :: string
  rd_Direction :: string
  rd_State :: ReceiptState
  rd_SizeBytes :: int
  rd_SHA256Hex :: string
  rd_Parts :: "Part list"
  rd_CreatedAt :: instant
  rd_UpdatedAt :: instant
  rd_ExpiresAt :: instant
  rd_AssignedRequestID :: string
  rd_AssignmentExpiresAt :: instant
  rd_Failure :: string
  rd_IdempotencyKey :: string

record CreateInput =
  ci_Direction :: string
  ci_SizeBytes :: int
  ci_SHA256Hex :: string
  ci_IdempotencyKey :: string

record ReceiptConfig =
  rc_DownloadBaseURL :: string
  rc_SigningKey :: bytes
  rc_MaxObjectBytes :: int
  rc_MaxPartBytes :: int
  rc_Retention :: int
  rc_AssignmentTTL :: int

record ReceiptStats =
  rs_Created :: uint64
  rs_Parts :: uint64
  rs_Verified :: uint64
  rs_Rejected :: uint64
  rs_Assigned :: uint64
  rs_Consumed :: uint64
  rs_Expired :: uint64

record 's Service =
  sv_store :: 's
  sv_stats :: ReceiptStats

record 's Env =
  en_store :: "(Record, 's) Store"
  en_cfg :: ReceiptConfig
  en_sha256 :: "bytes \<Rightarrow> 256 word"
  en_hmac :: "bytes \<Rightarrow> bytes \<Rightarrow> 256 word"
  en_json_len :: "Record \<Rightarrow> nat"

datatype receipt_error = ErrNotFound | ErrConflict | ErrInvalid | ErrUnauthorized | ErrStore store_error | ErrDecode

datatype config_error = ErrSigningKeyRequired | ErrDownloadURLRequired

text \<open>The table of legal transitions.  No operation of the service consults it.\<close>

fun legalTransitions :: "ReceiptState \<Rightarrow> ReceiptState list" where
  "legalTransitions StateUploading = [StateVerifying, StateCancelled, StateExpired]"
| "legalTransitions StateVerifying = [StateVerified, StateRejected, StateCancelled, StateExpired]"
| "legalTransitions StateVerified = [StateAssigned, StateCancelled, StateExpired]"
| "legalTransitions StateAssigned = [StateVerified, StateConsumed, StateExpired]"
| "legalTransitions _ = []"

definition canTransition :: "ReceiptState \<Rightarrow> ReceiptState \<Rightarrow> bool" where
  "canTransition from to \<longleftrightarrow> to \<in> set (legalTransitions from)"

definition transition :: "Record \<Rightarrow> ReceiptState \<Rightarrow> receipt_error + Record" where
  "transition r to = (if rd_State r = to then Inr r else if \<not> canTransition (rd_State r) to then Inl ErrConflict
     else Inr (r\<lparr>rd_State := to\<rparr>))"

abbreviation receiptIDPrefix :: string where "receiptIDPrefix \<equiv> ''rcpt_''"
abbreviation maxReceiptRecordBytes :: nat where "maxReceiptRecordBytes \<equiv> 1048576"
abbreviation maxStoredReceiptIDBytes :: nat where "maxStoredReceiptIDBytes \<equiv> 256"

text \<open>\<open>New\<close> for a given store: required fields, then defaults.\<close>

definition New_config :: "ReceiptConfig \<Rightarrow> config_error + ReceiptConfig" where
  "New_config cfg =
     (if length (rc_SigningKey cfg) < 32 then Inl ErrSigningKeyRequired
      else if rc_DownloadBaseURL cfg = [] then Inl ErrDownloadURLRequired
      else Inr (cfg\<lparr>rc_MaxObjectBytes := if rc_MaxObjectBytes cfg \<le> 0 then 1073741824 else rc_MaxObjectBytes cfg,
        rc_MaxPartBytes := if rc_MaxPartBytes cfg \<le> 0 then 16777216 else rc_MaxPartBytes cfg,
        rc_Retention := if rc_Retention cfg \<le> 0 then 86400000 else rc_Retention cfg,
        rc_AssignmentTTL := if rc_AssignmentTTL cfg \<le> 0 then 300000 else rc_AssignmentTTL cfg\<rparr>))"

section \<open>Identifiers and keys\<close>

text \<open>Go's fixed-size byte arrays (digests, random identifiers) are words, written out big-endian.\<close>

definition array_bytes :: "nat \<Rightarrow> 'a::len word \<Rightarrow> bytes" where
  "array_bytes n w = map (\<lambda>i. char_of (unat (drop_bit (8 * (n - 1 - i)) w))) [0..<n]"

text \<open>The same bytes by repeated division, for evaluation.\<close>

fun bytes_be :: "nat \<Rightarrow> nat \<Rightarrow> bytes \<Rightarrow> bytes" where
  "bytes_be n u acc = (if n = 0 then acc else bytes_be (n - 1) (u div 256) (char_of (u mod 256) # acc))"

declare bytes_be.simps [simp del]

lemma bytes_be_Suc: "bytes_be (Suc n) u acc = bytes_be n (u div 256) (char_of (u mod 256) # acc)" "bytes_be 0 u acc = acc"
  by (simp_all add: bytes_be.simps [of "Suc n"] bytes_be.simps [of 0])

lemma bytes_be_map: "bytes_be n u acc = map (\<lambda>i. char_of (u div 256 ^ (n - 1 - i))) [0..<n] @ acc"
proof (induction n arbitrary: u acc)
  case (Suc n)
  have "map (\<lambda>i. char_of (u div 256 div 256 ^ (n - 1 - i))) [0..<n] = map (\<lambda>i. char_of (u div 256 ^ (n - i)) :: char) [0..<n]"
  proof (rule map_cong [OF refl])
    fix i assume "i \<in> set [0..<n]"
    then have "n - i = Suc (n - 1 - i)" by auto
    then show "char_of (u div 256 div 256 ^ (n - 1 - i)) = (char_of (u div 256 ^ (n - i)) :: char)" by (simp add: div_mult2_eq)
  qed
  then show ?case using Suc by (simp add: bytes_be_Suc)
qed (simp add: bytes_be_Suc)

lemma array_bytes_code [code]: "array_bytes n w = bytes_be n (unat w) []"
  unfolding array_bytes_def bytes_be_map unat_drop_bit_eq by (simp add: drop_bit_eq_div power_mult)

definition sum_hex :: "256 word \<Rightarrow> string" where
  "sum_hex w = hex_encode (array_bytes 32 w)"

definition hex_decodes :: "string \<Rightarrow> bool" where
  "hex_decodes s \<longleftrightarrow> even (length s) \<and> list_all is_hex s"

definition validSHA256 :: "string \<Rightarrow> bool" where
  "validSHA256 value \<longleftrightarrow> length value = 64 \<and> hex_decodes value"

definition validID :: "string \<Rightarrow> bool" where
  "validID value \<longleftrightarrow> length value = 37 \<and> has_prefix value receiptIDPrefix
     \<and> hex_decodes (trim_prefix value receiptIDPrefix)"

definition newID :: "128 word \<Rightarrow> string" where
  "newID raw = receiptIDPrefix @ hex_encode (array_bytes 16 raw)"

definition itoa :: "int \<Rightarrow> string" where
  "itoa n = (if n < 0 then CHR ''-'' # dec (nat (- n)) else dec (nat n))"

definition deploymentPrefix :: "string \<Rightarrow> string" where
  "deploymentPrefix deploymentID = ''deployments/'' @ PathEscape deploymentID @ ''/receipts/''"

definition recordKey :: "string \<Rightarrow> string \<Rightarrow> string" where
  "recordKey deploymentID i = deploymentPrefix deploymentID @ i @ ''/record.json''"

definition bodyKey :: "string \<Rightarrow> string \<Rightarrow> string" where
  "bodyKey deploymentID i = deploymentPrefix deploymentID @ i @ ''/body''"

definition partKey :: "string \<Rightarrow> string \<Rightarrow> int \<Rightarrow> string" where
  "partKey deploymentID i number = deploymentPrefix deploymentID @ i @ ''/parts/'' @ itoa number"

definition partKeys :: "string \<Rightarrow> string \<Rightarrow> Part list \<Rightarrow> string list" where
  "partKeys deploymentID i parts = map (\<lambda>p. partKey deploymentID i (pt_Number p)) parts"

definition idempotencyKey :: "'s Env \<Rightarrow> string \<Rightarrow> string \<Rightarrow> string" where
  "idempotencyKey en deploymentID key =
     ''deployments/'' @ PathEscape deploymentID @ ''/idempotency/'' @ sum_hex (en_sha256 en key)"

definition deploymentFromRecordKey :: "string \<Rightarrow> string" where
  "deploymentFromRecordKey key = (let parts = split_on CHR ''/'' key in
     if length parts < 5 \<or> parts ! 0 \<noteq> ''deployments'' \<or> parts ! 2 \<noteq> ''receipts'' then []
     else case PathUnescape (parts ! 1) of None \<Rightarrow> [] | Some value \<Rightarrow> value)"

section \<open>Repository\<close>

definition json_record :: "Record \<Rightarrow> Record" where
  "json_record r = r\<lparr>rd_DeploymentID := [], rd_IdempotencyKey := []\<rparr>"

definition store_put :: "'s Env \<Rightarrow> string \<Rightarrow> Record body \<Rightarrow> int \<Rightarrow> metadata \<Rightarrow> 's Service \<Rightarrow> 's Service \<times> store_error option" where
  "store_put en key body n m sv = (let (s, r) = Store_Put (en_store en) key body n m (sv_store sv) in (sv\<lparr>sv_store := s\<rparr>, r))"

definition store_open :: "'s Env \<Rightarrow> string \<Rightarrow> 's Service \<Rightarrow> 's Service \<times> (store_error + Record content)" where
  "store_open en key sv = (let (s, r) = Store_Open (en_store en) key (sv_store sv) in (sv\<lparr>sv_store := s\<rparr>, r))"

definition store_delete :: "'s Env \<Rightarrow> string \<Rightarrow> 's Service \<Rightarrow> 's Service" where
  "store_delete en key sv = sv\<lparr>sv_store := fst (Store_Delete (en_store en) key (sv_store sv))\<rparr>"

definition save :: "'s Env \<Rightarrow> Record \<Rightarrow> 's Service \<Rightarrow> 's Service \<times> receipt_error option" where
  "save en r sv =
     (let n = en_json_len en r;
          (sv, e) = store_put en (recordKey (rd_DeploymentID r) (rd_ID r)) (Inr (Doc n (json_record r))) (int n) None sv in
      (sv, map_option ErrStore e))"

definition decodeRecord :: "Record content \<Rightarrow> receipt_error + Record" where
  "decodeRecord c = (case c of Doc n r \<Rightarrow> if n \<le> maxReceiptRecordBytes then Inr r else Inl ErrDecode | Raw _ \<Rightarrow> Inl ErrDecode)"

definition load :: "'s Env \<Rightarrow> string \<Rightarrow> string \<Rightarrow> 's Service \<Rightarrow> 's Service \<times> (receipt_error + Record)" where
  "load en deploymentID i sv = (case store_open en (recordKey deploymentID i) sv of
     (sv, Inl e) \<Rightarrow> (sv, Inl (if e = ObjectNotFound then ErrNotFound else ErrStore e))
   | (sv, Inr c) \<Rightarrow> (sv, case decodeRecord c of
        Inl e \<Rightarrow> Inl e | Inr r \<Rightarrow> Inr (r\<lparr>rd_DeploymentID := deploymentID\<rparr>)))"

definition saveIdempotency :: "'s Env \<Rightarrow> Record \<Rightarrow> 's Service \<Rightarrow> 's Service \<times> receipt_error option" where
  "saveIdempotency en r sv =
     (let (sv, e) = store_put en (idempotencyKey en (rd_DeploymentID r) (rd_IdempotencyKey r)) (Inr (Raw (rd_ID r)))
            (int (length (rd_ID r))) None sv in (sv, map_option ErrStore e))"

definition loadIdempotency :: "'s Env \<Rightarrow> string \<Rightarrow> string \<Rightarrow> 's Service \<Rightarrow> 's Service \<times> (receipt_error + Record)" where
  "loadIdempotency en deploymentID key sv = (case store_open en (idempotencyKey en deploymentID key) sv of
     (sv, Inl e) \<Rightarrow> (sv, Inl (ErrStore e))
   | (sv, Inr (Raw raw)) \<Rightarrow> load en deploymentID (take maxStoredReceiptIDBytes raw) sv
   | (sv, Inr (Doc _ _)) \<Rightarrow> (sv, Inl ErrDecode))"

definition findIdempotentReceipt :: "'s Env \<Rightarrow> string \<Rightarrow> string \<Rightarrow> 's Service \<Rightarrow> 's Service \<times> (receipt_error + Record option)" where
  "findIdempotentReceipt en deploymentID key sv = (case loadIdempotency en deploymentID key sv of
     (sv, Inr r) \<Rightarrow> (sv, Inr (Some r))
   | (sv, Inl e) \<Rightarrow> if e = ErrStore ObjectNotFound \<or> e = ErrNotFound then (sv, Inr None) else (sv, Inl e))"

definition deletePayload :: "'s Env \<Rightarrow> Record \<Rightarrow> 's Service \<Rightarrow> 's Service" where
  "deletePayload en r sv =
     fold (\<lambda>p. store_delete en (partKey (rd_DeploymentID r) (rd_ID r) (pt_Number p))) (rd_Parts r)
       (store_delete en (bodyKey (rd_DeploymentID r) (rd_ID r)) sv)"

definition receipt_expired :: "instant \<Rightarrow> Record \<Rightarrow> bool" where
  "receipt_expired now r \<longleftrightarrow> \<not> now < rd_ExpiresAt r"

section \<open>Create and upload\<close>

definition validateCreateInput :: "'s Env \<Rightarrow> string \<Rightarrow> CreateInput \<Rightarrow> receipt_error option" where
  "validateCreateInput en deploymentID inp =
     (if deploymentID = [] then Some ErrInvalid
      else if ci_Direction inp \<noteq> ''request'' \<and> ci_Direction inp \<noteq> ''response'' then Some ErrInvalid
      else if ci_SizeBytes inp < 0 \<or> ci_SizeBytes inp > rc_MaxObjectBytes (en_cfg en) then Some ErrInvalid
      else if \<not> validSHA256 (ci_SHA256Hex inp) then Some ErrInvalid
      else None)"

text \<open>\<open>strings.EqualFold\<close> on the hexadecimal strings compared here.\<close>

definition EqualFold :: "string \<Rightarrow> string \<Rightarrow> bool" where
  "EqualFold a b \<longleftrightarrow> to_lower a = to_lower b"

definition resolveCreateIdempotency :: "'s Env \<Rightarrow> string \<Rightarrow> CreateInput \<Rightarrow> 's Service \<Rightarrow> 's Service \<times> (receipt_error + Record option)" where
  "resolveCreateIdempotency en deploymentID inp sv =
     (if ci_IdempotencyKey inp = [] then (sv, Inr None)
      else case findIdempotentReceipt en deploymentID (ci_IdempotencyKey inp) sv of
        (sv, Inl e) \<Rightarrow> (sv, Inl e)
      | (sv, Inr None) \<Rightarrow> (sv, Inr None)
      | (sv, Inr (Some existing)) \<Rightarrow>
          if rd_Direction existing \<noteq> ci_Direction inp \<or> rd_SizeBytes existing \<noteq> ci_SizeBytes inp then (sv, Inl ErrConflict)
          else if \<not> EqualFold (rd_SHA256Hex existing) (ci_SHA256Hex inp) then (sv, Inl ErrConflict)
          else (sv, Inr (Some existing)))"

definition new_record :: "'s Env \<Rightarrow> instant \<Rightarrow> string \<Rightarrow> string \<Rightarrow> CreateInput \<Rightarrow> Record" where
  "new_record en now i deploymentID inp =
     \<lparr>rd_ID = i, rd_DeploymentID = deploymentID, rd_Direction = ci_Direction inp, rd_State = StateUploading,
      rd_SizeBytes = ci_SizeBytes inp, rd_SHA256Hex = to_lower (ci_SHA256Hex inp), rd_Parts = [], rd_CreatedAt = now,
      rd_UpdatedAt = now, rd_ExpiresAt = now + rc_Retention (en_cfg en), rd_AssignedRequestID = [],
      rd_AssignmentExpiresAt = 0, rd_Failure = [], rd_IdempotencyKey = ci_IdempotencyKey inp\<rparr>"

text \<open>\<open>raw\<close> are the random bytes of the new identifier.\<close>

definition Create :: "'s Env \<Rightarrow> instant \<Rightarrow> 128 word \<Rightarrow> string \<Rightarrow> CreateInput \<Rightarrow> 's Service \<Rightarrow> 's Service \<times> (receipt_error + Record)" where
  "Create en now raw deploymentID inp sv = (case validateCreateInput en deploymentID inp of
     Some e \<Rightarrow> (sv, Inl e)
   | None \<Rightarrow> (case resolveCreateIdempotency en deploymentID inp sv of
       (sv, Inl e) \<Rightarrow> (sv, Inl e)
     | (sv, Inr (Some existing)) \<Rightarrow> (sv, Inr existing)
     | (sv, Inr None) \<Rightarrow>
        (let r = new_record en now (newID raw) deploymentID inp in
         case save en r sv of
           (sv, Some e) \<Rightarrow> (sv, Inl e)
         | (sv, None) \<Rightarrow>
            (case (if ci_IdempotencyKey inp = [] then (sv, None) else saveIdempotency en r sv) of
               (sv, Some e) \<Rightarrow> (sv, Inl e)
             | (sv, None) \<Rightarrow> (sv\<lparr>sv_stats := (sv_stats sv)\<lparr>rs_Created := rs_Created (sv_stats sv) + 1\<rparr>\<rparr>, Inr r)))))"

definition validatePartInput :: "'s Env \<Rightarrow> string \<Rightarrow> int \<Rightarrow> int \<Rightarrow> string \<Rightarrow> receipt_error option" where
  "validatePartInput en i number n checksum =
     (if \<not> validID i \<or> number < 1 then Some ErrInvalid
      else if n < 0 \<or> n > rc_MaxPartBytes (en_cfg en) then Some ErrInvalid
      else if checksum \<noteq> [] \<and> \<not> validSHA256 checksum then Some ErrInvalid
      else None)"

fun replace_part :: "Part \<Rightarrow> Part list \<Rightarrow> Part list option" where
  "replace_part p [] = None"
| "replace_part p (q # qs) = (if pt_Number q = pt_Number p then Some (p # qs) else map_option (Cons q) (replace_part p qs))"

definition upsertPart :: "Part \<Rightarrow> Part list \<Rightarrow> Part list" where
  "upsertPart p parts = (case replace_part p parts of Some ps \<Rightarrow> ps | None \<Rightarrow> parts @ [p])"

text \<open>\<open>body\<close> is what the uploaded reader delivers; the checksum is of what was stored.\<close>

definition PutPart :: "'s Env \<Rightarrow> instant \<Rightarrow> string \<Rightarrow> string \<Rightarrow> int \<Rightarrow> (store_error + bytes) \<Rightarrow> int \<Rightarrow> string \<Rightarrow> 's Service
    \<Rightarrow> 's Service \<times> (receipt_error + Record)" where
  "PutPart en now deploymentID i number body n checksum sv = (case validatePartInput en i number n checksum of
     Some e \<Rightarrow> (sv, Inl e)
   | None \<Rightarrow> (case load en deploymentID i sv of
       (sv, Inl e) \<Rightarrow> (sv, Inl e)
     | (sv, Inr r) \<Rightarrow>
        if rd_State r \<noteq> StateUploading \<or> receipt_expired now r then (sv, Inl ErrConflict)
        else (case store_put en (partKey deploymentID i number) (map_sum id Raw body) n None sv of
          (sv, Some e) \<Rightarrow> (sv, Inl (ErrStore e))
        | (sv, None) \<Rightarrow>
           (let actual = sum_hex (en_sha256 en (case body of Inr b \<Rightarrow> b | Inl _ \<Rightarrow> [])) in
            if checksum \<noteq> [] \<and> \<not> EqualFold checksum actual
            then (store_delete en (partKey deploymentID i number) sv, Inl ErrInvalid)
            else let r' = r\<lparr>rd_Parts := sort_by (\<lambda>a b. pt_Number a < pt_Number b)
                      (upsertPart \<lparr>pt_Number = number, pt_SizeBytes = n, pt_SHA256Hex = actual\<rparr> (rd_Parts r)),
                    rd_UpdatedAt := now\<rparr>;
                  sv = sv\<lparr>sv_stats := (sv_stats sv)\<lparr>rs_Parts := rs_Parts (sv_stats sv) + 1\<rparr>\<rparr> in
              (case save en r' sv of (sv, Some e) \<Rightarrow> (sv, Inl e) | (sv, None) \<Rightarrow> (sv, Inr r'))))))"

section \<open>Composition\<close>

text \<open>
  The reader over a sequence of part objects.  \<open>Read\<close> opens the next object when it has none, delivers at
  most the buffer's length, and moves on when the current one is at its end.
\<close>

record partReader =
  pr_keys :: "string list"
  pr_index :: nat
  pr_current :: "bytes option"

datatype read_result = ReadData bytes | ReadEOF | ReadError store_error

function partReader_Read :: "'s Env \<Rightarrow> nat \<Rightarrow> partReader \<Rightarrow> 's Service \<Rightarrow> partReader \<times> 's Service \<times> read_result" where
  "partReader_Read en buf r sv = (case pr_current r of
     Some b \<Rightarrow>
       if b = [] then partReader_Read en buf (r\<lparr>pr_current := None\<rparr>) sv
       else (r\<lparr>pr_current := Some (drop buf b)\<rparr>, sv, ReadData (take buf b))
   | None \<Rightarrow>
       if pr_index r \<ge> length (pr_keys r) then (r, sv, ReadEOF)
       else (case store_open en (pr_keys r ! pr_index r) sv of
         (sv, Inl e) \<Rightarrow> (r, sv, ReadError e)
       | (sv, Inr (Doc _ _)) \<Rightarrow> (r, sv, ReadError IOFailure)
       | (sv, Inr (Raw b)) \<Rightarrow> partReader_Read en buf (r\<lparr>pr_current := Some b, pr_index := pr_index r + 1\<rparr>) sv))"
  by pat_completeness auto
termination
  by (relation "measure (\<lambda>(en, buf, r, sv). 2 * (length (pr_keys r) - pr_index r) + (if pr_current r = None then 0 else 1))") auto

declare partReader_Read.simps [simp del]

text \<open>The copy loop of a \<open>Put\<close>: reads with its buffer until the end of file or an error.\<close>

partial_function (option) copy_loop ::
  "'s Env \<Rightarrow> nat \<Rightarrow> bytes \<Rightarrow> partReader \<Rightarrow> 's Service \<Rightarrow> ('s Service \<times> (store_error + bytes)) option" where
  "copy_loop en buf acc r sv = (case partReader_Read en buf r sv of
     (r, sv, ReadEOF) \<Rightarrow> Some (sv, Inr acc)
   | (r, sv, ReadError e) \<Rightarrow> Some (sv, Inl e)
   | (r, sv, ReadData b) \<Rightarrow> copy_loop en buf (acc @ b) r sv)"

text \<open>What the loop yields: the part objects one after the other.\<close>

fun read_objects :: "'s Env \<Rightarrow> string list \<Rightarrow> 's Service \<Rightarrow> 's Service \<times> (store_error + bytes)" where
  "read_objects en [] sv = (sv, Inr [])"
| "read_objects en (k # ks) sv = (case store_open en k sv of
     (sv, Inl e) \<Rightarrow> (sv, Inl e)
   | (sv, Inr (Doc _ _)) \<Rightarrow> (sv, Inl IOFailure)
   | (sv, Inr (Raw b)) \<Rightarrow> (case read_objects en ks sv of
        (sv, Inl e) \<Rightarrow> (sv, Inl e) | (sv, Inr bs) \<Rightarrow> (sv, Inr (b @ bs))))"

abbreviation copyBufferBytes :: nat where "copyBufferBytes \<equiv> 65536"

definition drain :: "'s Env \<Rightarrow> string list \<Rightarrow> 's Service \<Rightarrow> 's Service \<times> (store_error + bytes)" where
  "drain en keys sv = (case copy_loop en copyBufferBytes [] \<lparr>pr_keys = keys, pr_index = 0, pr_current = None\<rparr> sv of
     Some r \<Rightarrow> r | None \<Rightarrow> (sv, Inl IOFailure))"

definition composeParts :: "'s Env \<Rightarrow> string \<Rightarrow> string \<Rightarrow> Record \<Rightarrow> 's Service \<Rightarrow> 's Service \<times> (store_error + string)" where
  "composeParts en deploymentID i r sv =
     (let (sv, body) = drain en (partKeys deploymentID i (rd_Parts r)) sv in
      case store_put en (bodyKey deploymentID i) (map_sum id Raw body) (rd_SizeBytes r) (Some (''sha256'', rd_SHA256Hex r)) sv of
        (sv, Some e) \<Rightarrow> (sv, Inl e)
      | (sv, None) \<Rightarrow> (sv, Inr (sum_hex (en_sha256 en (case body of Inr b \<Rightarrow> b | Inl _ \<Rightarrow> [])))))"

fun contiguous :: "int \<Rightarrow> Part list \<Rightarrow> bool" where
  "contiguous n [] = True"
| "contiguous n (p # ps) = (pt_Number p = n \<and> contiguous (n + 1) ps)"

definition completionSize :: "instant \<Rightarrow> Record \<Rightarrow> receipt_error + int" where
  "completionSize now r =
     (if rd_State r \<noteq> StateUploading \<and> rd_State r \<noteq> StateVerifying then Inl ErrConflict
      else if rd_Parts r = [] \<or> receipt_expired now r then Inl ErrConflict
      else if \<not> contiguous 1 (rd_Parts r) then Inl ErrInvalid
      else Inr (sum_list (map pt_SizeBytes (rd_Parts r))))"

definition rejectReceipt :: "'s Env \<Rightarrow> instant \<Rightarrow> Record \<Rightarrow> string \<Rightarrow> 's Service \<Rightarrow> 's Service \<times> (receipt_error + Record)" where
  "rejectReceipt en now r failure sv =
     (let sv = fst (save en (r\<lparr>rd_State := StateRejected, rd_Failure := failure, rd_UpdatedAt := now\<rparr>) sv) in
      (sv\<lparr>sv_stats := (sv_stats sv)\<lparr>rs_Rejected := rs_Rejected (sv_stats sv) + 1\<rparr>\<rparr>, Inl ErrInvalid))"

definition finalizeVerifiedReceipt :: "'s Env \<Rightarrow> instant \<Rightarrow> string \<Rightarrow> string \<Rightarrow> Record \<Rightarrow> 's Service \<Rightarrow> 's Service \<times> (receipt_error + Record)" where
  "finalizeVerifiedReceipt en now deploymentID i r sv =
     (let sv = fold (\<lambda>p. store_delete en (partKey deploymentID i (pt_Number p))) (rd_Parts r) sv;
          r' = r\<lparr>rd_State := StateVerified, rd_Parts := [], rd_Failure := [], rd_UpdatedAt := now\<rparr>;
          sv = sv\<lparr>sv_stats := (sv_stats sv)\<lparr>rs_Verified := rs_Verified (sv_stats sv) + 1\<rparr>\<rparr> in
      case save en r' sv of (sv, Some e) \<Rightarrow> (sv, Inl e) | (sv, None) \<Rightarrow> (sv, Inr r'))"

definition Complete :: "'s Env \<Rightarrow> instant \<Rightarrow> string \<Rightarrow> string \<Rightarrow> 's Service \<Rightarrow> 's Service \<times> (receipt_error + Record)" where
  "Complete en now deploymentID i sv =
     (if \<not> validID i then (sv, Inl ErrInvalid)
      else case load en deploymentID i sv of
        (sv, Inl e) \<Rightarrow> (sv, Inl e)
      | (sv, Inr r) \<Rightarrow>
         if rd_State r = StateVerified then (sv, Inr r)
         else (case completionSize now r of
           Inl e \<Rightarrow> (sv, Inl e)
         | Inr n \<Rightarrow>
            if n \<noteq> rd_SizeBytes r then rejectReceipt en now r ''size_mismatch'' sv
            else let r = r\<lparr>rd_State := StateVerifying, rd_UpdatedAt := now\<rparr> in
              (case save en r sv of
                (sv, Some e) \<Rightarrow> (sv, Inl e)
              | (sv, None) \<Rightarrow>
                 (case composeParts en deploymentID i r sv of
                    (sv, Inl e) \<Rightarrow> (fst (save en (r\<lparr>rd_State := StateUploading, rd_Failure := ''storage_error''\<rparr>) sv), Inl (ErrStore e))
                  | (sv, Inr actual) \<Rightarrow>
                      if \<not> EqualFold actual (rd_SHA256Hex r)
                      then rejectReceipt en now r ''checksum_mismatch'' (store_delete en (bodyKey deploymentID i) sv)
                      else finalizeVerifiedReceipt en now deploymentID i r sv))))"

section \<open>Claims and downloads\<close>

definition Receipt_Get :: "'s Env \<Rightarrow> string \<Rightarrow> string \<Rightarrow> 's Service \<Rightarrow> 's Service \<times> (receipt_error + Record)" where
  "Receipt_Get en deploymentID i sv = (if \<not> validID i then (sv, Inl ErrInvalid) else load en deploymentID i sv)"

definition Receipt_Cancel :: "'s Env \<Rightarrow> instant \<Rightarrow> string \<Rightarrow> string \<Rightarrow> 's Service \<Rightarrow> 's Service \<times> (receipt_error + Record)" where
  "Receipt_Cancel en now deploymentID i sv =
     (if \<not> validID i then (sv, Inl ErrInvalid)
      else case load en deploymentID i sv of
        (sv, Inl e) \<Rightarrow> (sv, Inl e)
      | (sv, Inr r) \<Rightarrow>
         if rd_State r = StateAssigned \<or> rd_State r = StateConsumed then (sv, Inl ErrConflict)
         else let r = r\<lparr>rd_State := StateCancelled, rd_UpdatedAt := now\<rparr> in
           (case save en r (deletePayload en r sv) of (sv, Some e) \<Rightarrow> (sv, Inl e) | (sv, None) \<Rightarrow> (sv, Inr r)))"

definition validAssignmentInput :: "string \<Rightarrow> string \<Rightarrow> string \<Rightarrow> bool" where
  "validAssignmentInput i deploymentID requestID \<longleftrightarrow> validID i \<and> deploymentID \<noteq> [] \<and> requestID \<noteq> []"

definition releaseExpiredAssignment :: "instant \<Rightarrow> Record \<Rightarrow> Record" where
  "releaseExpiredAssignment now r =
     (if rd_State r \<noteq> StateAssigned \<or> now < rd_AssignmentExpiresAt r then r
      else r\<lparr>rd_State := StateVerified, rd_AssignedRequestID := [], rd_AssignmentExpiresAt := 0\<rparr>)"

definition assignmentEligible :: "instant \<Rightarrow> Record \<Rightarrow> bool" where
  "assignmentEligible now r \<longleftrightarrow> rd_Direction r = ''request'' \<and> rd_State r = StateVerified \<and> \<not> receipt_expired now r"

text \<open>\<open>url.Values.Encode\<close>: the pairs in key order, both sides query-escaped.\<close>

definition QueryEscape :: "string \<Rightarrow> string" where
  "QueryEscape s = concat (map (\<lambda>c. if unreserved c then [c] else if c = CHR '' '' then ''+'' else percent c) s)"

definition Values_Encode :: "(string \<times> string) list \<Rightarrow> string" where
  "Values_Encode kvs = join CHR ''&'' (map (\<lambda>(k, v). QueryEscape k @ ''='' @ QueryEscape v) (sort_key fst kvs))"

definition assignment_values :: "string \<Rightarrow> string \<Rightarrow> string \<Rightarrow> (string \<times> string) list" where
  "assignment_values deploymentID requestID expires =
     [(''deployment_id'', deploymentID), (''request_id'', requestID), (''expires'', expires)]"

definition signature :: "'s Env \<Rightarrow> string \<Rightarrow> (string \<times> string) list \<Rightarrow> string" where
  "signature en i values = sum_hex (en_hmac en (rc_SigningKey (en_cfg en)) (i @ [CHR 0x0A] @ Values_Encode values))"

record BodyRef =
  br_ObjectKey :: string
  br_SignedUrl :: string
  br_ExpiresUnixMs :: int
  br_ExpectedSizeBytes :: int
  br_Sha256Hex :: string

definition trim_right_char :: "char \<Rightarrow> string \<Rightarrow> string" where
  "trim_right_char c s = rev (dropWhile ((=) c) (rev s))"

definition body_ref :: "'s Env \<Rightarrow> string \<Rightarrow> string \<Rightarrow> string \<Rightarrow> instant \<Rightarrow> Record \<Rightarrow> BodyRef" where
  "body_ref en deploymentID i requestID expires r =
     (let values = assignment_values deploymentID requestID (itoa expires);
          signed = values @ [(''signature'', signature en i values)] in
      \<lparr>br_ObjectKey = ''deployment/'' @ deploymentID @ ''/request/'' @ requestID @ ''/request/'' @ i,
       br_SignedUrl = trim_right_char CHR ''/'' (rc_DownloadBaseURL (en_cfg en)) @ ''/api/v1/receipt-objects/'' @ PathEscape i
          @ ''?'' @ Values_Encode signed,
       br_ExpiresUnixMs = expires, br_ExpectedSizeBytes = rd_SizeBytes r, br_Sha256Hex = rd_SHA256Hex r\<rparr>)"

definition PrepareRequest :: "'s Env \<Rightarrow> instant \<Rightarrow> string \<Rightarrow> string \<Rightarrow> string \<Rightarrow> 's Service \<Rightarrow> 's Service \<times> (receipt_error + BodyRef)" where
  "PrepareRequest en now deploymentID i requestID sv =
     (if \<not> validAssignmentInput i deploymentID requestID then (sv, Inl ErrInvalid)
      else case load en deploymentID i sv of
        (sv, Inl e) \<Rightarrow> (sv, Inl e)
      | (sv, Inr r0) \<Rightarrow>
         (let r = releaseExpiredAssignment now r0 in
          if \<not> assignmentEligible now r then (sv, Inl ErrConflict)
          else let expires = now + rc_AssignmentTTL (en_cfg en);
                 sv = sv\<lparr>sv_stats := (sv_stats sv)\<lparr>rs_Assigned := rs_Assigned (sv_stats sv) + 1\<rparr>\<rparr>;
                 r = r\<lparr>rd_State := StateAssigned, rd_AssignedRequestID := requestID, rd_AssignmentExpiresAt := expires,
                   rd_UpdatedAt := now\<rparr> in
            (case save en r sv of
               (sv, Some e) \<Rightarrow> (sv, Inl e)
             | (sv, None) \<Rightarrow> (sv, Inr (body_ref en deploymentID i requestID expires r)))))"

definition FinishRequest :: "'s Env \<Rightarrow> instant \<Rightarrow> string \<Rightarrow> string \<Rightarrow> string \<Rightarrow> bool \<Rightarrow> 's Service \<Rightarrow> 's Service \<times> receipt_error option" where
  "FinishRequest en now deploymentID i requestID consumed sv =
     (if \<not> validID i \<or> requestID = [] then (sv, Some ErrInvalid)
      else case load en deploymentID i sv of
        (sv, Inl e) \<Rightarrow> (sv, Some e)
      | (sv, Inr r) \<Rightarrow>
         if rd_State r \<noteq> StateAssigned \<or> rd_AssignedRequestID r \<noteq> requestID then (sv, Some ErrConflict)
         else let sv = (if consumed then sv\<lparr>sv_stats := (sv_stats sv)\<lparr>rs_Consumed := rs_Consumed (sv_stats sv) + 1\<rparr>\<rparr> else sv) in
           save en (r\<lparr>rd_State := if consumed then StateConsumed else StateVerified, rd_AssignedRequestID := [],
             rd_AssignmentExpiresAt := 0, rd_UpdatedAt := now\<rparr>) sv)"

text \<open>\<open>strconv.ParseInt(s, 10, 64)\<close>.\<close>

definition parse_int64 :: "string \<Rightarrow> int option" where
  "parse_int64 s =
     (let (neg, ds) = (case s of c # t \<Rightarrow> if c = CHR ''-'' then (True, t) else if c = CHR ''+'' then (False, t) else (False, s) | [] \<Rightarrow> (False, [])) in
      if ds = [] \<or> \<not> list_all is_digit ds then None
      else let n = int (undec ds) in
        if neg then (if n \<le> 2 ^ 63 then Some (- n) else None) else if n < 2 ^ 63 then Some n else None)"

definition validateAssignmentSignature :: "'s Env \<Rightarrow> instant \<Rightarrow> string \<Rightarrow> string \<Rightarrow> string \<Rightarrow> string \<Rightarrow> string \<Rightarrow> receipt_error + int" where
  "validateAssignmentSignature en now i deploymentID requestID expires sig =
     (if \<not> validAssignmentInput i deploymentID requestID then Inl ErrUnauthorized
      else case parse_int64 expires of
        None \<Rightarrow> Inl ErrUnauthorized
      | Some ms \<Rightarrow>
         if \<not> now < ms then Inl ErrUnauthorized
         else if sig \<noteq> signature en i (assignment_values deploymentID requestID expires) then Inl ErrUnauthorized
         else Inr ms)"

definition open_body :: "'s Env \<Rightarrow> string \<Rightarrow> string \<Rightarrow> Record \<Rightarrow> 's Service \<Rightarrow> 's Service \<times> (receipt_error + (Record content \<times> Record))" where
  "open_body en deploymentID i r sv = (case store_open en (bodyKey deploymentID i) sv of
     (sv, Inl e) \<Rightarrow> (sv, Inl (ErrStore e)) | (sv, Inr c) \<Rightarrow> (sv, Inr (c, r)))"

definition OpenAssigned :: "'s Env \<Rightarrow> instant \<Rightarrow> string \<Rightarrow> string \<Rightarrow> string \<Rightarrow> string \<Rightarrow> string \<Rightarrow> 's Service
    \<Rightarrow> 's Service \<times> (receipt_error + (Record content \<times> Record))" where
  "OpenAssigned en now i deploymentID requestID expires sig sv =
     (case validateAssignmentSignature en now i deploymentID requestID expires sig of
        Inl e \<Rightarrow> (sv, Inl e)
      | Inr ms \<Rightarrow> (case load en deploymentID i sv of
          (sv, Inl e) \<Rightarrow> (sv, Inl e)
        | (sv, Inr r) \<Rightarrow>
           if rd_State r \<noteq> StateAssigned \<or> rd_AssignedRequestID r \<noteq> requestID \<or> rd_AssignmentExpiresAt r \<noteq> ms
           then (sv, Inl ErrUnauthorized) else open_body en deploymentID i r sv))"

definition OpenResponse :: "'s Env \<Rightarrow> instant \<Rightarrow> string \<Rightarrow> string \<Rightarrow> 's Service \<Rightarrow> 's Service \<times> (receipt_error + (Record content \<times> Record))" where
  "OpenResponse en now deploymentID i sv =
     (if \<not> validID i then (sv, Inl ErrInvalid)
      else case load en deploymentID i sv of
        (sv, Inl e) \<Rightarrow> (sv, Inl e)
      | (sv, Inr r) \<Rightarrow>
         if rd_Direction r \<noteq> ''response'' \<or> (rd_State r \<noteq> StateVerified \<and> rd_State r \<noteq> StateConsumed) \<or> receipt_expired now r
         then (sv, Inl ErrConflict) else open_body en deploymentID i r sv)"

section \<open>Cleanup\<close>

definition readCleanupRecord :: "'s Env \<Rightarrow> string \<Rightarrow> 's Service \<Rightarrow> 's Service \<times> Record option" where
  "readCleanupRecord en key sv = (case store_open en key sv of
     (sv, Inl e) \<Rightarrow> (sv, None)
   | (sv, Inr c) \<Rightarrow> (sv, case decodeRecord c of
        Inl e \<Rightarrow> None
      | Inr r \<Rightarrow> let d = deploymentFromRecordKey key in if d = [] then None else Some (r\<lparr>rd_DeploymentID := d\<rparr>)))"

definition cleanupObject :: "'s Env \<Rightarrow> instant \<Rightarrow> string \<Rightarrow> 's Service \<Rightarrow> 's Service" where
  "cleanupObject en now key sv =
     (if \<not> has_suffix key ''/record.json'' then sv
      else case readCleanupRecord en key sv of
        (sv, None) \<Rightarrow> sv
      | (sv, Some r) \<Rightarrow>
         if receipt_expired now r \<and> rd_State r \<noteq> StateExpired then
           (let r = r\<lparr>rd_State := StateExpired\<rparr>;
                sv = sv\<lparr>sv_stats := (sv_stats sv)\<lparr>rs_Expired := rs_Expired (sv_stats sv) + 1\<rparr>\<rparr> in
            fst (save en r (deletePayload en r sv)))
         else if rd_State r = StateAssigned \<and> \<not> now < rd_AssignmentExpiresAt r then
           fst (save en (r\<lparr>rd_State := StateVerified, rd_AssignedRequestID := [], rd_AssignmentExpiresAt := 0, rd_UpdatedAt := now\<rparr>) sv)
         else sv)"

definition Cleanup :: "'s Env \<Rightarrow> instant \<Rightarrow> 's Service \<Rightarrow> 's Service \<times> receipt_error option" where
  "Cleanup en now sv = (case Store_List (en_store en) ''deployments/'' (sv_store sv) of
     (s, Inl e) \<Rightarrow> (sv\<lparr>sv_store := s\<rparr>, Some (ErrStore e))
   | (s, Inr keys) \<Rightarrow> (fold (cleanupObject en now) keys (sv\<lparr>sv_store := s\<rparr>), None))"

section \<open>Stored responses\<close>

record ResponseUpload =
  ru_deploymentID :: string
  ru_id :: string
  ru_parts :: "Part list"
  ru_buffer :: bytes
  ru_hashed :: bytes
  ru_size :: int
  ru_closed :: bool

definition BeginResponse :: "128 word \<Rightarrow> string \<Rightarrow> receipt_error + ResponseUpload" where
  "BeginResponse raw deploymentID =
     (if deploymentID = [] then Inl ErrInvalid
      else Inr \<lparr>ru_deploymentID = deploymentID, ru_id = newID raw, ru_parts = [], ru_buffer = [], ru_hashed = [],
        ru_size = 0, ru_closed = False\<rparr>)"

definition flushPart :: "'s Env \<Rightarrow> ResponseUpload \<Rightarrow> 's Service \<Rightarrow> ResponseUpload \<times> 's Service \<times> receipt_error option" where
  "flushPart en u sv =
     (if ru_buffer u = [] then (u, sv, None)
      else let number = int (length (ru_parts u)) + 1; n = int (length (ru_buffer u)) in
        (case store_put en (partKey (ru_deploymentID u) (ru_id u) number) (Inr (Raw (ru_buffer u))) n None sv of
           (sv, Some e) \<Rightarrow> (u, sv, Some (ErrStore e))
         | (sv, None) \<Rightarrow>
            (u\<lparr>ru_parts := ru_parts u @ [\<lparr>pt_Number = number, pt_SizeBytes = n, pt_SHA256Hex = sum_hex (en_sha256 en (ru_buffer u))\<rparr>],
               ru_buffer := []\<rparr>,
             sv\<lparr>sv_stats := (sv_stats sv)\<lparr>rs_Parts := rs_Parts (sv_stats sv) + 1\<rparr>\<rparr>, None)))"

lemma flushPart_buffer: "flushPart en u sv = (u', sv', None) \<Longrightarrow> ru_buffer u' = []"
  by (auto simp: flushPart_def Let_def split: if_splits prod.splits option.splits)

definition write_chunk :: "'s Env \<Rightarrow> bytes \<Rightarrow> ResponseUpload \<Rightarrow> 's Service \<Rightarrow> ResponseUpload \<times> 's Service \<times> receipt_error option" where
  "write_chunk en chunk u sv =
     (let u' = u\<lparr>ru_buffer := ru_buffer u @ chunk\<rparr> in
      if length (ru_buffer u') = nat (rc_MaxPartBytes (en_cfg en)) then flushPart en u' sv else (u', sv, None))"

lemma write_chunk_buffer:
  "write_chunk en chunk u sv = (u', sv', None) \<Longrightarrow>
   ru_buffer u' = (if length (ru_buffer u @ chunk) = nat (rc_MaxPartBytes (en_cfg en)) then [] else ru_buffer u @ chunk)"
  by (auto simp: write_chunk_def Let_def split: if_splits dest: flushPart_buffer)

text \<open>The part size is positive in every service \<open>New\<close> returns and the buffer never exceeds it: the error branch is for a service built otherwise.\<close>

function write_loop :: "'s Env \<Rightarrow> bytes \<Rightarrow> ResponseUpload \<Rightarrow> 's Service \<Rightarrow> ResponseUpload \<times> 's Service \<times> receipt_error option" where
  "write_loop en data u sv =
     (let limit = nat (rc_MaxPartBytes (en_cfg en)); n = min (length data) (limit - length (ru_buffer u));
          (u1, sv1, e) = write_chunk en (take n data) u sv in
      if data = [] then (u, sv, None)
      else if limit < length (ru_buffer u) \<or> limit = 0 then (u, sv, Some ErrInvalid)
      else if e \<noteq> None then (u1, sv1, e)
      else write_loop en (drop n data) u1 sv1)"
  by pat_completeness auto
termination
proof (relation "measures [\<lambda>(en, data, u, sv). length data, \<lambda>(en, data, u, sv). length (ru_buffer u)]", goal_cases)
  case (2 en data u sv limit n x u1 y sv1 e)
  then have b: "write_chunk en (take n data) u sv = (u1, sv1, None)" by simp
  show ?case
  proof (cases "n = 0")
    case True
    then have "length (ru_buffer u) = limit" using 2 by (auto simp: min_def split: if_splits)
    then show ?thesis using write_chunk_buffer [OF b] True 2 by auto
  next
    case False
    then show ?thesis using 2 by auto
  qed
qed simp

declare write_loop.simps [simp del]

definition ResponseUpload_Write :: "'s Env \<Rightarrow> bytes \<Rightarrow> ResponseUpload \<Rightarrow> 's Service \<Rightarrow> ResponseUpload \<times> 's Service \<times> receipt_error option" where
  "ResponseUpload_Write en data u sv =
     (if ru_closed u then (u, sv, Some ErrConflict)
      else if ru_size u + int (length data) > rc_MaxObjectBytes (en_cfg en) then (u, sv, Some ErrInvalid)
      else write_loop en data (u\<lparr>ru_hashed := ru_hashed u @ data, ru_size := ru_size u + int (length data)\<rparr>) sv)"

definition deleteParts :: "'s Env \<Rightarrow> ResponseUpload \<Rightarrow> 's Service \<Rightarrow> 's Service" where
  "deleteParts en u sv = fold (\<lambda>p. store_delete en (partKey (ru_deploymentID u) (ru_id u) (pt_Number p))) (ru_parts u) sv"

definition response_record :: "'s Env \<Rightarrow> instant \<Rightarrow> ResponseUpload \<Rightarrow> Record" where
  "response_record en now u =
     \<lparr>rd_ID = ru_id u, rd_DeploymentID = ru_deploymentID u, rd_Direction = ''response'', rd_State = StateVerified,
      rd_SizeBytes = ru_size u, rd_SHA256Hex = sum_hex (en_sha256 en (ru_hashed u)), rd_Parts = [], rd_CreatedAt = now,
      rd_UpdatedAt = now, rd_ExpiresAt = now + rc_Retention (en_cfg en), rd_AssignedRequestID = [],
      rd_AssignmentExpiresAt = 0, rd_Failure = [], rd_IdempotencyKey = []\<rparr>"

definition Commit :: "'s Env \<Rightarrow> instant \<Rightarrow> ResponseUpload \<Rightarrow> 's Service \<Rightarrow> ResponseUpload \<times> 's Service \<times> (receipt_error + Record)" where
  "Commit en now u sv =
     (if ru_closed u then (u, sv, Inl ErrConflict)
      else case flushPart en u sv of
        (u, sv, Some e) \<Rightarrow> (u, sv, Inl e)
      | (u, sv, None) \<Rightarrow>
         (let u = u\<lparr>ru_closed := True\<rparr>; r = response_record en now u;
              (sv, body) = drain en (partKeys (ru_deploymentID u) (ru_id u) (ru_parts u)) sv in
          case store_put en (bodyKey (ru_deploymentID u) (ru_id u)) (map_sum id Raw body) (ru_size u) (Some (''sha256'', rd_SHA256Hex r)) sv of
            (sv, Some e) \<Rightarrow> (u, deleteParts en u sv, Inl (ErrStore e))
          | (sv, None) \<Rightarrow>
             (case save en r (deleteParts en u sv) of
                (sv, Some e) \<Rightarrow> (u, sv, Inl e)
              | (sv, None) \<Rightarrow>
                 (u, sv\<lparr>sv_stats := (sv_stats sv)\<lparr>rs_Created := rs_Created (sv_stats sv) + 1, rs_Verified := rs_Verified (sv_stats sv) + 1\<rparr>\<rparr>, Inr r))))"

definition Abort :: "'s Env \<Rightarrow> ResponseUpload \<Rightarrow> 's Service \<Rightarrow> ResponseUpload \<times> 's Service" where
  "Abort en u sv = (if ru_closed u then (u, sv) else (u\<lparr>ru_closed := True\<rparr>, deleteParts en (u\<lparr>ru_closed := True\<rparr>) sv))"

end
