(* ===== verification/Receipt_Runs.thy ===== *)
theory Receipt_Runs
  imports Receipts
begin

text \<open>
  Runs of the receipt service: sequences of its operations at arbitrary instants over a store whose
  calls may fail at any point.  A locale states what the service needs of its store and its keys; in
  it every operation is shown to keep the invariant of the stored objects and to move each record
  along the edges of an abstract lifecycle.  The local store is an instance.
\<close>

section \<open>Operations as steps\<close>

text \<open>
  How Control stores a response (\<open>readResponse\<close>): one \<open>Write\<close> per data frame, \<open>Abort\<close> at the first error,
  \<open>Commit\<close> at the end.  No other operation knows the identifier before the commit, so the whole upload
  is one step.
\<close>

fun write_all :: "'s Env \<Rightarrow> bytes list \<Rightarrow> ResponseUpload \<Rightarrow> 's Service \<Rightarrow> ResponseUpload \<times> 's Service \<times> receipt_error option" where
  "write_all en [] u sv = (u, sv, None)"
| "write_all en (b # bs) u sv = (case ResponseUpload_Write en b u sv of
     (u, sv, Some e) \<Rightarrow> (u, sv, Some e) | (u, sv, None) \<Rightarrow> write_all en bs u sv)"

definition store_response :: "'s Env \<Rightarrow> instant \<Rightarrow> 128 word \<Rightarrow> string \<Rightarrow> bytes list \<Rightarrow> 's Service \<Rightarrow> 's Service \<times> (receipt_error + Record)" where
  "store_response en now raw d chunks sv = (case BeginResponse raw d of
     Inl e \<Rightarrow> (sv, Inl e)
   | Inr u \<Rightarrow> (case write_all en chunks u sv of
       (u, sv, Some e) \<Rightarrow> (snd (Abort en u sv), Inl e)
     | (u, sv, None) \<Rightarrow> snd (Commit en now u sv)))"

datatype receipt_op =
    OpCreate "128 word" string CreateInput
  | OpPutPart string string int "store_error + bytes" int string
  | OpComplete string string
  | OpGet string string
  | OpCancel string string
  | OpPrepare string string string
  | OpFinish string string string bool
  | OpOpenAssigned string string string string string
  | OpOpenResponse string string
  | OpCleanup
  | OpResponse "128 word" string "bytes list"

fun apply_op :: "'s Env \<Rightarrow> instant \<Rightarrow> receipt_op \<Rightarrow> 's Service \<Rightarrow> 's Service" where
  "apply_op en now (OpCreate raw d inp) sv = fst (Create en now raw d inp sv)"
| "apply_op en now (OpPutPart d i number body n checksum) sv = fst (PutPart en now d i number body n checksum sv)"
| "apply_op en now (OpComplete d i) sv = fst (Complete en now d i sv)"
| "apply_op en now (OpGet d i) sv = fst (Receipt_Get en d i sv)"
| "apply_op en now (OpCancel d i) sv = fst (Receipt_Cancel en now d i sv)"
| "apply_op en now (OpPrepare d i q) sv = fst (PrepareRequest en now d i q sv)"
| "apply_op en now (OpFinish d i q consumed) sv = fst (FinishRequest en now d i q consumed sv)"
| "apply_op en now (OpOpenAssigned i d q expires sig) sv = fst (OpenAssigned en now i d q expires sig sv)"
| "apply_op en now (OpOpenResponse d i) sv = fst (OpenResponse en now d i sv)"
| "apply_op en now OpCleanup sv = fst (Cleanup en now sv)"
| "apply_op en now (OpResponse raw d chunks) sv = fst (store_response en now raw d chunks sv)"

definition run_receipts :: "'s Env \<Rightarrow> (instant \<times> receipt_op) list \<Rightarrow> 's Service \<Rightarrow> 's Service" where
  "run_receipts en ops sv = fold (\<lambda>(now, op). apply_op en now op) ops sv"

text \<open>Deployment names that stay one path element.\<close>

definition plain_deployment :: "string \<Rightarrow> bool" where
  "plain_deployment d \<longleftrightarrow> d \<notin> {[], ''.'', ''..''}"

fun op_deployment :: "receipt_op \<Rightarrow> bool" where
  "op_deployment (OpCreate raw d inp) = plain_deployment d"
| "op_deployment (OpPutPart d i number body n checksum) = plain_deployment d"
| "op_deployment (OpComplete d i) = plain_deployment d"
| "op_deployment (OpGet d i) = plain_deployment d"
| "op_deployment (OpCancel d i) = plain_deployment d"
| "op_deployment (OpPrepare d i q) = plain_deployment d"
| "op_deployment (OpFinish d i q consumed) = plain_deployment d"
| "op_deployment (OpOpenAssigned i d q expires sig) = plain_deployment d"
| "op_deployment (OpOpenResponse d i) = plain_deployment d"
| "op_deployment OpCleanup = True"
| "op_deployment (OpResponse raw d chunks) = plain_deployment d"

text \<open>The receipt an operation brings into being.\<close>

fun op_creates :: "receipt_op \<Rightarrow> string \<Rightarrow> string \<Rightarrow> bool" where
  "op_creates (OpCreate raw d' inp) d i \<longleftrightarrow> d' = d \<and> newID raw = i"
| "op_creates (OpResponse raw d' chunks) d i \<longleftrightarrow> d' = d \<and> newID raw = i"
| "op_creates _ d i \<longleftrightarrow> False"

section \<open>The abstract lifecycle\<close>

fun receipt_edge :: "ReceiptConfig \<Rightarrow> instant \<Rightarrow> receipt_op \<Rightarrow> Record \<Rightarrow> Record \<Rightarrow> bool" where
  "receipt_edge cfg now (OpPutPart _ _ _ _ _ _) r r' \<longleftrightarrow> rd_State r = StateUploading \<and> rd_State r' = StateUploading \<and> now < rd_ExpiresAt r"
| "receipt_edge cfg now (OpComplete _ _) r r' \<longleftrightarrow> rd_State r \<in> {StateUploading, StateVerifying}
     \<and> rd_State r' \<in> {StateUploading, StateVerifying, StateVerified, StateRejected} \<and> now < rd_ExpiresAt r"
| "receipt_edge cfg now (OpCancel _ _) r r' \<longleftrightarrow> rd_State r \<notin> {StateAssigned, StateConsumed} \<and> rd_State r' = StateCancelled"
| "receipt_edge cfg now (OpPrepare _ _ q) r r' \<longleftrightarrow>
     (rd_State r = StateVerified \<or> rd_State r = StateAssigned \<and> rd_AssignmentExpiresAt r \<le> now)
     \<and> rd_Direction r = ''request'' \<and> now < rd_ExpiresAt r
     \<and> rd_State r' = StateAssigned \<and> rd_AssignedRequestID r' = q \<and> rd_AssignmentExpiresAt r' = now + rc_AssignmentTTL cfg"
| "receipt_edge cfg now (OpFinish _ _ q consumed) r r' \<longleftrightarrow> rd_State r = StateAssigned \<and> rd_AssignedRequestID r = q
     \<and> rd_State r' = (if consumed then StateConsumed else StateVerified)"
| "receipt_edge cfg now OpCleanup r r' \<longleftrightarrow>
     rd_ExpiresAt r \<le> now \<and> rd_State r \<noteq> StateExpired \<and> rd_State r' = StateExpired
     \<or> rd_State r = StateAssigned \<and> rd_AssignmentExpiresAt r \<le> now \<and> rd_State r' = StateVerified"
| "receipt_edge cfg now _ r r' \<longleftrightarrow> False"

text \<open>The receipt an edge-taking operation addresses; cleanup addresses all of them.\<close>

fun op_addresses :: "receipt_op \<Rightarrow> string \<Rightarrow> string \<Rightarrow> bool" where
  "op_addresses (OpPutPart d' i' _ _ _ _) d i \<longleftrightarrow> d' = d \<and> i' = i"
| "op_addresses (OpComplete d' i') d i \<longleftrightarrow> d' = d \<and> i' = i"
| "op_addresses (OpCancel d' i') d i \<longleftrightarrow> d' = d \<and> i' = i"
| "op_addresses (OpPrepare d' i' _) d i \<longleftrightarrow> d' = d \<and> i' = i"
| "op_addresses (OpFinish d' i' _ _) d i \<longleftrightarrow> d' = d \<and> i' = i"
| "op_addresses OpCleanup d i \<longleftrightarrow> True"
| "op_addresses _ d i \<longleftrightarrow> False"

definition same_declaration :: "Record \<Rightarrow> Record \<Rightarrow> bool" where
  "same_declaration r r' \<longleftrightarrow> rd_ID r' = rd_ID r \<and> rd_Direction r' = rd_Direction r \<and> rd_SizeBytes r' = rd_SizeBytes r
     \<and> rd_SHA256Hex r' = rd_SHA256Hex r \<and> rd_CreatedAt r' = rd_CreatedAt r \<and> rd_ExpiresAt r' = rd_ExpiresAt r"

definition record_moves :: "ReceiptConfig \<Rightarrow> instant \<Rightarrow> receipt_op \<Rightarrow> string \<Rightarrow> string \<Rightarrow> Record content option \<Rightarrow> Record content option \<Rightarrow> bool" where
  "record_moves cfg now op d i x y \<longleftrightarrow> x = y \<or> op_creates op d i
     \<or> (\<exists>n r n' r'. x = Some (Doc n r) \<and> y = Some (Doc n' r') \<and> op_addresses op d i \<and> same_declaration r r' \<and> receipt_edge cfg now op r r')"

section \<open>The invariant of the stored objects\<close>

definition has_verified_body :: "ReceiptState \<Rightarrow> bool" where
  "has_verified_body st \<longleftrightarrow> st \<in> {StateVerified, StateAssigned, StateConsumed}"

definition body_of :: "(bytes \<Rightarrow> 256 word) \<Rightarrow> Record \<Rightarrow> Record content \<Rightarrow> bool" where
  "body_of sha r c \<longleftrightarrow> (\<exists>b. c = Raw b \<and> int (length b) = rd_SizeBytes r \<and> EqualFold (sum_hex (sha b)) (rd_SHA256Hex r))"

definition receipts_inv :: "(bytes \<Rightarrow> 256 word) \<Rightarrow> (string \<Rightarrow> Record content option) \<Rightarrow> bool" where
  "receipts_inv sha C \<longleftrightarrow> (\<forall>k n r. C k = Some (Doc n r) \<longrightarrow>
     (\<exists>d i. plain_deployment d \<and> validID i \<and> k = recordKey d i \<and> rd_ID r = i
        \<and> 0 \<le> rd_SizeBytes r \<and> (\<forall>p \<in> set (rd_Parts r). 1 \<le> pt_Number p)
        \<and> (has_verified_body (rd_State r) \<longrightarrow> (\<forall>c. C (bodyKey d i) = Some c \<longrightarrow> body_of sha r c))))"

section \<open>Keys\<close>

lemma validID_plain:
  assumes "validID i"
  shows "i \<notin> {[], ''.'', ''..''}" "CHR ''/'' \<notin> set i" "CHR 0x0A \<notin> set i"
proof -
  have l: "length i = 37" and p: "has_prefix i receiptIDPrefix" and h: "list_all is_hex (trim_prefix i receiptIDPrefix)"
    using assms by (auto simp: validID_def hex_decodes_def)
  show "i \<notin> {[], ''.'', ''..''}" using l by auto
  obtain t where t: "i = receiptIDPrefix @ t" using p by (auto simp: has_prefix_iff)
  then have "list_all is_hex t" using h p by (simp add: trim_prefix_def)
  moreover have "\<not> is_hex CHR ''/''" "\<not> is_hex CHR 0x0A" by code_simp+
  ultimately have "CHR ''/'' \<notin> set t" "CHR 0x0A \<notin> set t" by (auto simp: list_all_iff)
  then show "CHR ''/'' \<notin> set i" "CHR 0x0A \<notin> set i" using t by auto
qed

lemma PathEscape_plain:
  assumes "plain_deployment d"
  shows "PathEscape d \<notin> {[], ''.'', ''..''}"
proof -
  have e: "PathEscape [] = []" "PathEscape ''.'' = ''.''" "PathEscape ''..'' = ''..''" by code_simp+
  show ?thesis
  proof
    assume "PathEscape d \<in> {[], ''.'', ''..''}"
    then have "PathEscape d \<in> {PathEscape [], PathEscape ''.'', PathEscape ''..''}" unfolding e .
    then show False using assms by (simp add: PathEscape_inj plain_deployment_def)
  qed
qed

lemma itoa_plain: "1 \<le> n \<Longrightarrow> itoa n \<notin> {[], ''.'', ''..''} \<and> list_all is_digit (itoa n)"
proof -
  assume "1 \<le> n"
  then have i: "itoa n = dec (nat n)" by (simp add: itoa_def)
  have "\<not> is_digit CHR ''.''" by code_simp
  then have "dec m \<noteq> ''.''" "dec m \<noteq> ''..''" for m using digits_dec [of m] by (intro notI, simp)+
  then show ?thesis using i digits_dec [of "nat n"] by auto
qed

lemma digits_no_slash: "list_all is_digit s \<Longrightarrow> CHR ''/'' \<notin> set s"
proof -
  have "\<not> is_digit CHR ''/''" by code_simp
  then show "list_all is_digit s \<Longrightarrow> CHR ''/'' \<notin> set s" by (auto simp: list_all_iff)
qed

lemma key_joins:
  "recordKey d i = join CHR ''/'' [''deployments'', PathEscape d, ''receipts'', i, ''record.json'']"
  "bodyKey d i = join CHR ''/'' [''deployments'', PathEscape d, ''receipts'', i, ''body'']"
  "partKey d i n = join CHR ''/'' [''deployments'', PathEscape d, ''receipts'', i, ''parts'', itoa n]"
  "idempotencyKey en d k = join CHR ''/'' [''deployments'', PathEscape d, ''idempotency'', sum_hex (en_sha256 en k)]"
  by (simp_all add: recordKey_def bodyKey_def partKey_def idempotencyKey_def deploymentPrefix_def)

lemma hex_encode_hex: "list_all is_hex (hex_encode bs)"
proof -
  have "list_all (\<lambda>d. is_hex (hex_digit d)) [0..<16]" by code_simp
  then have "is_hex (hex_digit d)" if "d < 16" for d using that by (simp add: list_all_iff)
  then show ?thesis using nibbles_less by (auto simp: hex_encode_def list_all_iff)
qed

lemma length_hex_encode: "length (hex_encode bs) = 2 * length bs"
  by (induction bs) (simp_all add: hex_encode_def)

lemma newID_valid: "validID (newID raw)"
  using hex_encode_hex [of "array_bytes 16 raw"]
  by (simp add: newID_def validID_def has_prefix_def trim_prefix_def hex_decodes_def length_hex_encode array_bytes_def)

lemma sum_hex_plain: "sum_hex w \<notin> {[], ''.'', ''..''}" "CHR ''/'' \<notin> set (sum_hex w)" "\<not> has_suffix (sum_hex w) meta_suffix"
proof -
  have l: "length (sum_hex w) = 64" by (simp add: sum_hex_def length_hex_encode array_bytes_def)
  show "sum_hex w \<notin> {[], ''.'', ''..''}" using l by auto
  have h: "list_all is_hex (sum_hex w)" by (simp add: sum_hex_def hex_encode_hex)
  have n: "\<not> is_hex CHR ''/''" "\<not> is_hex CHR ''m''" by code_simp+
  then show "CHR ''/'' \<notin> set (sum_hex w)" using h by (auto simp: list_all_iff)
  have "CHR ''m'' \<in> set meta_suffix" by (simp add: meta_suffix_def)
  then show "\<not> has_suffix (sum_hex w) meta_suffix" using h n by (auto simp: has_suffix_iff list_all_iff)
qed

lemma receipt_keys_plain:
  assumes "plain_deployment d" "validID i"
  shows "plain_key (recordKey d i)" "plain_key (bodyKey d i)" "1 \<le> n \<Longrightarrow> plain_key (partKey d i n)"
proof -
  note ok = PathEscape_plain [OF assms(1)] PathEscape_no_slash [of d] validID_plain [OF assms(2)]
  have "\<not> has_suffix ''record.json'' meta_suffix" "\<not> has_suffix ''body'' meta_suffix" by code_simp+
  then show "plain_key (recordKey d i)" "plain_key (bodyKey d i)" unfolding key_joins by (intro plain_key_join; use ok in simp)+
  assume n: "1 \<le> n"
  have "CHR ''m'' \<in> set meta_suffix" "\<not> is_digit CHR ''m''" by (simp add: meta_suffix_def, code_simp)
  then have "\<not> has_suffix (itoa n) meta_suffix" using itoa_plain [OF n] by (auto simp: has_suffix_iff list_all_iff)
  then show "plain_key (partKey d i n)" unfolding key_joins
    by (intro plain_key_join; use ok itoa_plain [OF n] digits_no_slash [of "itoa n"] in simp)
qed

lemma idempotency_key_plain: "plain_deployment d \<Longrightarrow> plain_key (idempotencyKey en d k)"
  unfolding key_joins using PathEscape_plain [of d] PathEscape_no_slash [of d] sum_hex_plain [of "en_sha256 en k"]
  by (intro plain_key_join) simp_all

lemma key_splits:
  assumes "validID i"
  shows "split_on CHR ''/'' (recordKey d i) = [''deployments'', PathEscape d, ''receipts'', i, ''record.json'']"
    "split_on CHR ''/'' (bodyKey d i) = [''deployments'', PathEscape d, ''receipts'', i, ''body'']"
    "1 \<le> n \<Longrightarrow> split_on CHR ''/'' (partKey d i n) = [''deployments'', PathEscape d, ''receipts'', i, ''parts'', itoa n]"
    "split_on CHR ''/'' (idempotencyKey en d k) = [''deployments'', PathEscape d, ''idempotency'', sum_hex (en_sha256 en k)]"
proof -
  note ok = PathEscape_no_slash [of d] validID_plain [OF assms] sum_hex_plain [of "en_sha256 en k"]
  show "split_on CHR ''/'' (recordKey d i) = [''deployments'', PathEscape d, ''receipts'', i, ''record.json'']"
    "split_on CHR ''/'' (bodyKey d i) = [''deployments'', PathEscape d, ''receipts'', i, ''body'']"
    "split_on CHR ''/'' (idempotencyKey en d k) = [''deployments'', PathEscape d, ''idempotency'', sum_hex (en_sha256 en k)]"
    unfolding key_joins by (intro split_on_join; use ok in simp)+
  show "1 \<le> n \<Longrightarrow> split_on CHR ''/'' (partKey d i n) = [''deployments'', PathEscape d, ''receipts'', i, ''parts'', itoa n]"
    unfolding key_joins by (intro split_on_join; use ok itoa_plain [of n] digits_no_slash [of "itoa n"] in simp)
qed

lemma recordKey_inj: "validID i \<Longrightarrow> validID i' \<Longrightarrow> recordKey d i = recordKey d' i' \<longleftrightarrow> d = d' \<and> i = i'"
  by (rule iffI, drule arg_cong [where f = "split_on CHR ''/''"]) (simp_all add: key_splits PathEscape_inj)

lemma bodyKey_inj: "validID i \<Longrightarrow> validID i' \<Longrightarrow> bodyKey d i = bodyKey d' i' \<longleftrightarrow> d = d' \<and> i = i'"
  by (rule iffI, drule arg_cong [where f = "split_on CHR ''/''"]) (simp_all add: key_splits PathEscape_inj)

lemma partKey_inj: "validID i \<Longrightarrow> 1 \<le> m \<Longrightarrow> 1 \<le> n \<Longrightarrow> partKey d i m = partKey d i n \<longleftrightarrow> m = n"
proof
  assume a: "validID i" "1 \<le> m" "1 \<le> n" "partKey d i m = partKey d i n"
  then have "itoa m = itoa n" using key_splits(3) [of i m d] key_splits(3) [of i n d] by simp
  then show "m = n" using a dec_inj [of "nat m" "nat n"] by (simp add: itoa_def)
qed simp

lemma keys_differ:
  assumes "validID i" "validID i'"
  shows "recordKey d i \<noteq> bodyKey d' i'" "bodyKey d' i' \<noteq> recordKey d i"
    "1 \<le> n \<Longrightarrow> recordKey d i \<noteq> partKey d' i' n" "1 \<le> n \<Longrightarrow> partKey d' i' n \<noteq> recordKey d i"
    "1 \<le> n \<Longrightarrow> bodyKey d i \<noteq> partKey d' i' n" "1 \<le> n \<Longrightarrow> partKey d' i' n \<noteq> bodyKey d i"
    "recordKey d i \<noteq> idempotencyKey en d' k" "idempotencyKey en d' k \<noteq> recordKey d i"
    "bodyKey d i \<noteq> idempotencyKey en d' k" "idempotencyKey en d' k \<noteq> bodyKey d i"
  by (intro notI, drule arg_cong [where f = "split_on CHR ''/''"], simp add: key_splits assms key_splits(4) [OF assms(1)])+

lemma deploymentFromRecordKey_recordKey: "validID i \<Longrightarrow> deploymentFromRecordKey (recordKey d i) = d"
  by (simp add: deploymentFromRecordKey_def key_splits PathUnescape_PathEscape)

section \<open>How writes affect the invariant\<close>

lemma receipts_invD:
  assumes "receipts_inv sha C" "C (recordKey d i) = Some (Doc n r)" "validID i"
  shows "rd_ID r = i" "0 \<le> rd_SizeBytes r" "\<forall>p \<in> set (rd_Parts r). 1 \<le> pt_Number p"
    "has_verified_body (rd_State r) \<Longrightarrow> C (bodyKey d i) = Some c \<Longrightarrow> body_of sha r c"
proof -
  from assms(1,2) obtain d' i' where k: "validID i'" "recordKey d i = recordKey d' i'" and r: "rd_ID r = i'" "0 \<le> rd_SizeBytes r"
    "\<forall>p \<in> set (rd_Parts r). 1 \<le> pt_Number p" and b: "has_verified_body (rd_State r) \<longrightarrow> (\<forall>c. C (bodyKey d' i') = Some c \<longrightarrow> body_of sha r c)"
    unfolding receipts_inv_def by blast
  have "d' = d" "i' = i" using recordKey_inj [OF assms(3) k(1), of d d'] k(2) by auto
  then show "rd_ID r = i" "0 \<le> rd_SizeBytes r" "\<forall>p \<in> set (rd_Parts r). 1 \<le> pt_Number p"
    "has_verified_body (rd_State r) \<Longrightarrow> C (bodyKey d i) = Some c \<Longrightarrow> body_of sha r c" using r b by auto
qed

lemma inv_save:
  assumes "receipts_inv sha C" "plain_deployment d" "validID i" "rd_ID r = i" "0 \<le> rd_SizeBytes r"
    and "\<forall>p \<in> set (rd_Parts r). 1 \<le> pt_Number p"
    and "has_verified_body (rd_State r) \<Longrightarrow> \<forall>c. C (bodyKey d i) = Some c \<longrightarrow> body_of sha r c"
  shows "receipts_inv sha (C(recordKey d i \<mapsto> Doc n r))"
  unfolding receipts_inv_def
proof (intro allI impI)
  fix k m r' assume a: "(C(recordKey d i \<mapsto> Doc n r)) k = Some (Doc m r')"
  show "\<exists>d' i'. plain_deployment d' \<and> validID i' \<and> k = recordKey d' i' \<and> rd_ID r' = i' \<and> 0 \<le> rd_SizeBytes r'
      \<and> (\<forall>p \<in> set (rd_Parts r'). 1 \<le> pt_Number p)
      \<and> (has_verified_body (rd_State r') \<longrightarrow> (\<forall>c. (C(recordKey d i \<mapsto> Doc n r)) (bodyKey d' i') = Some c \<longrightarrow> body_of sha r' c))"
  proof (cases "k = recordKey d i")
    case True
    then have "r' = r" using a by simp
    then show ?thesis using True assms(2-7) keys_differ(2) [OF assms(3) assms(3)] by (intro exI [of _ d] exI [of _ i]) simp
  next
    case False
    then have "C k = Some (Doc m r')" using a by simp
    then obtain d' i' where "plain_deployment d'" "validID i'" "k = recordKey d' i'" "rd_ID r' = i'" "0 \<le> rd_SizeBytes r'"
      "\<forall>p \<in> set (rd_Parts r'). 1 \<le> pt_Number p"
      "has_verified_body (rd_State r') \<longrightarrow> (\<forall>c. C (bodyKey d' i') = Some c \<longrightarrow> body_of sha r' c)"
      using assms(1) unfolding receipts_inv_def by blast
    then show ?thesis using keys_differ(2) [OF assms(3)] by (intro exI [of _ d'] exI [of _ i']) simp
  qed
qed

text \<open>Raw objects may come and go anywhere but at the body of a receipt that counts as verified.\<close>

lemma inv_raw:
  assumes "receipts_inv sha C" "x = None \<or> x = Some (Raw b)"
    and "\<And>d i n r c. validID i \<Longrightarrow> k = bodyKey d i \<Longrightarrow> C (recordKey d i) = Some (Doc n r) \<Longrightarrow> has_verified_body (rd_State r) \<Longrightarrow> x = Some c \<Longrightarrow> body_of sha r c"
  shows "receipts_inv sha (C(k := x))"
  unfolding receipts_inv_def
proof (intro allI impI)
  fix k' m r assume a: "(C(k := x)) k' = Some (Doc m r)"
  then have k': "k' \<noteq> k" "C k' = Some (Doc m r)" using assms(2) by (auto split: if_splits)
  then obtain d i where di: "plain_deployment d" "validID i" "k' = recordKey d i" "rd_ID r = i" "0 \<le> rd_SizeBytes r"
    "\<forall>p \<in> set (rd_Parts r). 1 \<le> pt_Number p" and
    b: "has_verified_body (rd_State r) \<longrightarrow> (\<forall>c. C (bodyKey d i) = Some c \<longrightarrow> body_of sha r c)"
    using assms(1) unfolding receipts_inv_def by blast
  have "body_of sha r c" if "has_verified_body (rd_State r)" "(C(k := x)) (bodyKey d i) = Some c" for c
  proof (cases "bodyKey d i = k")
    case True
    then show ?thesis using assms(3) [OF di(2) _ k'(2) [unfolded di(3)] that(1)] that(2) by simp
  qed (use that b in simp)
  then show "\<exists>d i. plain_deployment d \<and> validID i \<and> k' = recordKey d i \<and> rd_ID r = i \<and> 0 \<le> rd_SizeBytes r
      \<and> (\<forall>p \<in> set (rd_Parts r). 1 \<le> pt_Number p)
      \<and> (has_verified_body (rd_State r) \<longrightarrow> (\<forall>c. (C(k := x)) (bodyKey d i) = Some c \<longrightarrow> body_of sha r c))"
    using di by blast
qed

lemma inv_removed: "receipts_inv sha C \<Longrightarrow> receipts_inv sha (C(k := None))"
  using inv_raw [of sha C None] by simp

lemma inv_part: "receipts_inv sha C \<Longrightarrow> validID i \<Longrightarrow> 1 \<le> n \<Longrightarrow> receipts_inv sha (C(partKey d i n \<mapsto> Raw b))"
  by (rule inv_raw) (auto dest: keys_differ(6) [of _ i n d])

lemma inv_idempotency: "receipts_inv sha C \<Longrightarrow> receipts_inv sha (C(idempotencyKey en d k \<mapsto> Raw b))"
  by (rule inv_raw) (auto dest: keys_differ(10) [of _ _ en d k])

lemma inv_body:
  "receipts_inv sha C \<Longrightarrow> validID i \<Longrightarrow> (\<And>n r. C (recordKey d i) = Some (Doc n r) \<Longrightarrow> \<not> has_verified_body (rd_State r)) \<Longrightarrow>
   receipts_inv sha (C(bodyKey d i \<mapsto> Raw b))"
  by (rule inv_raw) (auto simp: bodyKey_inj)

lemma inv_empty: "receipts_inv sha (\<lambda>_. None)"
  by (simp add: receipts_inv_def)

lemma inv_shrink: "receipts_inv sha C \<Longrightarrow> (\<And>k. C' k = C k \<or> C' k = None) \<Longrightarrow> receipts_inv sha C'"
  unfolding receipts_inv_def by (metis option.distinct(1))

section \<open>Reading the parts\<close>

lemma copy_loop_current:
  assumes "0 < buf"
  shows "copy_loop en buf acc (r\<lparr>pr_current := Some b\<rparr>) sv = copy_loop en buf (acc @ b) (r\<lparr>pr_current := None\<rparr>) sv"
proof (induction b arbitrary: acc rule: length_induct)
  case (1 b)
  show ?case
  proof (cases "b = []")
    case True
    have "partReader_Read en buf (r\<lparr>pr_current := Some []\<rparr>) sv = partReader_Read en buf (r\<lparr>pr_current := None\<rparr>) sv"
      by (subst partReader_Read.simps) simp
    then show ?thesis unfolding True append_Nil2 by (subst (1 2) copy_loop.simps) simp
  next
    case False
    have "partReader_Read en buf (r\<lparr>pr_current := Some b\<rparr>) sv = (r\<lparr>pr_current := Some (drop buf b)\<rparr>, sv, ReadData (take buf b))"
      using False by (subst partReader_Read.simps) simp
    moreover have "length (drop buf b) < length b" using False assms by simp
    ultimately show ?thesis using 1 by (subst copy_loop.simps) simp
  qed
qed

lemma copy_loop_objects:
  assumes "0 < buf"
  shows "copy_loop en buf acc \<lparr>pr_keys = keys, pr_index = n, pr_current = None\<rparr> sv =
    Some (case read_objects en (drop n keys) sv of (sv', Inl e) \<Rightarrow> (sv', Inl e) | (sv', Inr bs) \<Rightarrow> (sv', Inr (acc @ bs)))"
proof (induction "drop n keys" arbitrary: n acc sv)
  case Nil
  then have "partReader_Read en buf \<lparr>pr_keys = keys, pr_index = n, pr_current = None\<rparr> sv =
      (\<lparr>pr_keys = keys, pr_index = n, pr_current = None\<rparr>, sv, ReadEOF)"
    by (subst partReader_Read.simps) simp
  then show ?case unfolding Nil [symmetric] by (subst copy_loop.simps) simp
next
  case (Cons k ks)
  let ?r = "\<lparr>pr_keys = keys, pr_index = n, pr_current = None\<rparr>"
  have n: "n < length keys" "keys ! n = k" "drop (n + 1) keys = ks"
    using Cons(2) by (metis drop_all leI list.distinct(1)) (metis Cons(2) nth_via_drop, metis Cons(2) drop_drop drop_Suc_Cons drop_0 add.commute plus_1_eq_Suc)
  obtain sv1 x where x: "store_open en k sv = (sv1, x)" by fastforce
  show ?case
  proof (cases "\<exists>b. x = Inr (Raw b)")
    case True
    then obtain b where b: "x = Inr (Raw b)" by blast
    have "partReader_Read en buf ?r sv = partReader_Read en buf (\<lparr>pr_keys = keys, pr_index = n + 1, pr_current = None\<rparr>\<lparr>pr_current := Some b\<rparr>) sv1"
      using n x b by (subst partReader_Read.simps) simp
    then have "copy_loop en buf acc ?r sv = copy_loop en buf acc (\<lparr>pr_keys = keys, pr_index = n + 1, pr_current = None\<rparr>\<lparr>pr_current := Some b\<rparr>) sv1"
      by (subst (1 2) copy_loop.simps) simp
    also have "\<dots> = copy_loop en buf (acc @ b) \<lparr>pr_keys = keys, pr_index = n + 1, pr_current = None\<rparr> sv1"
      by (subst copy_loop_current [OF assms]) simp
    finally show ?thesis using Cons(1) [OF n(3) [symmetric], of "acc @ b" sv1] unfolding n(3) Cons(2) [symmetric]
      by (simp add: x b split: prod.splits sum.splits)
  next
    case False
    then obtain e where e: "x = Inl e \<or> (\<exists>m r. x = Inr (Doc m r)) \<and> e = IOFailure" by (metis content.exhaust sumE)
    have "partReader_Read en buf ?r sv = (?r, sv1, ReadError e)" "read_objects en (k # ks) sv = (sv1, Inl e)"
      using n x e by (subst partReader_Read.simps, auto)
    then show ?thesis unfolding Cons(2) [symmetric] by (subst copy_loop.simps) simp
  qed
qed

lemma drain_read_objects [code]: "drain en keys sv = read_objects en keys sv"
  by (simp add: drain_def copy_loop_objects split: prod.splits sum.splits)

section \<open>The service over a store\<close>

text \<open>The identifiers a run draws.\<close>

fun op_id :: "receipt_op \<Rightarrow> string list" where
  "op_id (OpCreate raw d inp) = [newID raw]"
| "op_id (OpResponse raw d chunks) = [newID raw]"
| "op_id _ = []"

definition op_ids :: "(instant \<times> receipt_op) list \<Rightarrow> string list" where
  "op_ids ops = concat (map (op_id \<circ> snd) ops)"

text \<open>
  The runs considered: deployments with plain names, and identifiers drawn from the random source that
  are pairwise distinct and name no receipt already stored.
\<close>

definition fresh_run :: "(instant \<times> receipt_op) list \<Rightarrow> (string \<Rightarrow> Record content option) \<Rightarrow> bool" where
  "fresh_run ops C \<longleftrightarrow> (\<forall>(t, op) \<in> set ops. op_deployment op) \<and> distinct (op_ids ops)
     \<and> (\<forall>d i. validID i \<and> C (recordKey d i) \<noteq> None \<longrightarrow> i \<notin> set (op_ids ops))"

definition touches_only :: "string \<Rightarrow> string \<Rightarrow> (string \<Rightarrow> Record content option) \<Rightarrow> (string \<Rightarrow> Record content option) \<Rightarrow> bool" where
  "touches_only d i C C' \<longleftrightarrow> (\<forall>d' i'. validID i' \<longrightarrow> (d', i') \<noteq> (d, i) \<longrightarrow> C' (recordKey d' i') = C (recordKey d' i'))"

definition same_records :: "(string \<Rightarrow> Record content option) \<Rightarrow> (string \<Rightarrow> Record content option) \<Rightarrow> bool" where
  "same_records C C' \<longleftrightarrow> (\<forall>d i. validID i \<longrightarrow> C' (recordKey d i) = C (recordKey d i))"

definition step_ok :: "ReceiptConfig \<Rightarrow> (bytes \<Rightarrow> 256 word) \<Rightarrow> instant \<Rightarrow> receipt_op \<Rightarrow>
    (string \<Rightarrow> Record content option) \<Rightarrow> (string \<Rightarrow> Record content option) \<Rightarrow> bool" where
  "step_ok cfg sha now op C C' \<longleftrightarrow> receipts_inv sha C'
     \<and> (\<forall>d i. validID i \<longrightarrow> record_moves cfg now op d i (C (recordKey d i)) (C' (recordKey d i)))"

lemma op_ids_Cons [simp]: "op_ids ((t, op) # ops) = op_id op @ op_ids ops" "op_ids [] = []"
  by (simp_all add: op_ids_def)

lemma op_creates_id: "op_creates op d i \<Longrightarrow> i \<in> set (op_id op)"
  by (cases op) auto

lemma same_records_refl [simp]: "same_records C C"
  by (simp add: same_records_def)

lemma same_records_trans: "same_records A B \<Longrightarrow> same_records B C \<Longrightarrow> same_records A C"
  by (simp add: same_records_def)

lemma same_records_upd:
  "validID i \<Longrightarrow> same_records C (C(bodyKey d i := x))"
  "validID i \<Longrightarrow> 1 \<le> n \<Longrightarrow> same_records C (C(partKey d i n := x))"
  "same_records C (C(idempotencyKey en d k := x))"
  by (simp_all add: same_records_def keys_differ)

lemma step_same: "receipts_inv sha C' \<Longrightarrow> same_records C C' \<Longrightarrow> step_ok cfg sha now op C C'"
  by (simp add: step_ok_def same_records_def record_moves_def)

lemma step_edge:
  assumes "receipts_inv sha C'" "touches_only d i C C'" "C (recordKey d i) = Some (Doc n r)"
    and "C' (recordKey d i) = C (recordKey d i) \<or> (\<exists>n' r'. C' (recordKey d i) = Some (Doc n' r') \<and> same_declaration r r' \<and> receipt_edge cfg now op r r')"
    and "op_addresses op d i"
  shows "step_ok cfg sha now op C C'"
  using assms unfolding step_ok_def record_moves_def touches_only_def by (metis prod.inject)

lemma touches_same: "same_records C C' \<Longrightarrow> touches_only d i C C'"
  by (simp add: touches_only_def same_records_def)

lemma touches_trans: "touches_only d i A B \<Longrightarrow> touches_only d i B C \<Longrightarrow> touches_only d i A C"
  by (simp add: touches_only_def)

lemma touches_record: "validID i \<Longrightarrow> touches_only d i C (C(recordKey d i := x))"
  by (auto simp: touches_only_def recordKey_inj)

lemma map_sum_Raw [simp]: "map_sum id Raw body = Inr c \<longleftrightarrow> (\<exists>b. body = Inr b \<and> c = Raw b)"
  by (cases body) auto

lemma json_record_view [simp]: "receipt_edge cfg now op r (json_record r') = receipt_edge cfg now op r r'"
  "same_declaration r (json_record r') = same_declaration r r'" "rd_Parts (json_record r) = rd_Parts r"
  by (cases op; simp add: json_record_def) (simp_all add: json_record_def same_declaration_def)

lemma upsertPart_numbers: "\<forall>q \<in> set ps. 1 \<le> pt_Number q \<Longrightarrow> 1 \<le> pt_Number p \<Longrightarrow> \<forall>q \<in> set (upsertPart p ps). 1 \<le> pt_Number q"
proof -
  have "replace_part p ps = Some qs \<Longrightarrow> set qs \<subseteq> insert p (set ps)" for qs
    by (induction ps arbitrary: qs) (auto split: if_splits)
  then show "\<forall>q \<in> set ps. 1 \<le> pt_Number q \<Longrightarrow> 1 \<le> pt_Number p \<Longrightarrow> \<forall>q \<in> set (upsertPart p ps). 1 \<le> pt_Number q"
    by (auto simp: upsertPart_def split: option.splits)
qed

lemma cleanup_trans:
  assumes "step_ok cfg sha now OpCleanup A B" "step_ok cfg sha now OpCleanup B D"
  shows "step_ok cfg sha now OpCleanup A D"
  unfolding step_ok_def
proof (intro conjI allI impI)
  show "receipts_inv sha D" using assms(2) by (simp add: step_ok_def)
  fix d i assume v: "validID i"
  let ?k = "recordKey d i"
  have m: "record_moves cfg now OpCleanup d i (A ?k) (B ?k)" "record_moves cfg now OpCleanup d i (B ?k) (D ?k)"
    using assms v by (auto simp: step_ok_def)
  show "record_moves cfg now OpCleanup d i (A ?k) (D ?k)"
  proof (cases "A ?k = B ?k \<or> B ?k = D ?k")
    case True
    then show ?thesis using m by auto
  next
    case False
    then obtain n r n' r' n'' r'' where e: "A ?k = Some (Doc n r)" "B ?k = Some (Doc n' r')" "D ?k = Some (Doc n'' r'')"
      "same_declaration r r'" "same_declaration r' r''" "receipt_edge cfg now OpCleanup r r'" "receipt_edge cfg now OpCleanup r' r''"
      using m by (auto simp: record_moves_def)
    then have "receipt_edge cfg now OpCleanup r r''" "same_declaration r r''" by (auto simp: same_declaration_def)
    then show ?thesis using e by (auto simp: record_moves_def)
  qed
qed

text \<open>The parts of an upload hold, in order, what was written up to the buffer and the data still to write.\<close>

definition upload_ok :: "(string \<Rightarrow> Record content option) \<Rightarrow> ResponseUpload \<Rightarrow> bytes \<Rightarrow> bool" where
  "upload_ok C u data \<longleftrightarrow> plain_deployment (ru_deploymentID u) \<and> validID (ru_id u)
     \<and> map pt_Number (ru_parts u) = map (\<lambda>j. int j + 1) [0..<length (ru_parts u)]
     \<and> (\<exists>bs. map C (partKeys (ru_deploymentID u) (ru_id u) (ru_parts u)) = map (\<lambda>b. Some (Raw b)) bs
          \<and> concat bs @ ru_buffer u @ data = ru_hashed u)
     \<and> ru_size u = int (length (ru_hashed u))"

lemma upload_ok_numbers:
  assumes "upload_ok C u data"
  shows "\<forall>p \<in> set (ru_parts u). 1 \<le> pt_Number p"
proof
  fix p assume "p \<in> set (ru_parts u)"
  then have "pt_Number p \<in> set (map pt_Number (ru_parts u))" by simp
  moreover have "map pt_Number (ru_parts u) = map (\<lambda>j. int j + 1) [0..<length (ru_parts u)]" using assms by (simp add: upload_ok_def)
  ultimately show "1 \<le> pt_Number p" by auto
qed

locale receipt_service = object_store "en_store en" contents okkey wf healthy
  for en :: "'s Env" and contents :: "'s \<Rightarrow> string \<Rightarrow> Record content option" and okkey wf healthy +
  assumes receipt_keys: "plain_deployment d \<Longrightarrow> validID i \<Longrightarrow> okkey (recordKey d i) \<and> okkey (bodyKey d i)"
    and part_keys: "plain_deployment d \<Longrightarrow> validID i \<Longrightarrow> 1 \<le> n \<Longrightarrow> okkey (partKey d i n)"
    and idempotency_keys: "plain_deployment d \<Longrightarrow> okkey (idempotencyKey en d k)"
begin

abbreviation "C sv \<equiv> contents (sv_store sv)"
abbreviation "W sv \<equiv> wf (sv_store sv)"
abbreviation "ok_inv \<equiv> receipts_inv (en_sha256 en)"
abbreviation "ok_step \<equiv> step_ok (en_cfg en) (en_sha256 en)"

lemma store_put_effect:
  "okkey k \<Longrightarrow> store_put en k body n m sv = (sv', e) \<Longrightarrow> W sv \<Longrightarrow>
   W sv' \<and> (C sv' = C sv \<and> e \<noteq> None \<or> (\<exists>c. body = Inr c \<and> (0 \<le> n \<longrightarrow> int (content_len c) = n) \<and> C sv' = (C sv)(k \<mapsto> c)))"
  using put_effect [of k body n m "sv_store sv"] by (auto simp: store_put_def split: prod.splits)

lemma store_open_effect:
  "store_open en k sv = (sv', x) \<Longrightarrow> W sv \<Longrightarrow> W sv' \<and> C sv' = C sv \<and> (okkey k \<longrightarrow> (\<forall>c. x = Inr c \<longrightarrow> C sv k = Some c))"
  using open_effect [of k "sv_store sv"] by (auto simp: store_open_def split: prod.splits)

lemma store_delete_effect:
  "okkey k \<Longrightarrow> W sv \<Longrightarrow> W (store_delete en k sv) \<and> (C (store_delete en k sv) = C sv \<or> C (store_delete en k sv) = (C sv)(k := None))"
  using delete_effect [of k "sv_store sv" "fst (Store_Delete (en_store en) k (sv_store sv))" "snd (Store_Delete (en_store en) k (sv_store sv))"]
  by (auto simp: store_delete_def)

lemma save_effect:
  assumes "plain_deployment (rd_DeploymentID r)" "validID (rd_ID r)" "save en r sv = (sv', e)" "W sv"
  shows "W sv' \<and> (C sv' = C sv \<and> e \<noteq> None
    \<or> C sv' = (C sv)(recordKey (rd_DeploymentID r) (rd_ID r) \<mapsto> Doc (en_json_len en r) (json_record r)))"
proof -
  obtain sv1 e1 where p: "store_put en (recordKey (rd_DeploymentID r) (rd_ID r)) (Inr (Doc (en_json_len en r) (json_record r)))
      (int (en_json_len en r)) None sv = (sv1, e1)" by fastforce
  show ?thesis using store_put_effect [OF _ p assms(4)] receipt_keys [OF assms(1,2)] assms(3) by (auto simp: save_def Let_def p)
qed

lemma load_effect:
  assumes "plain_deployment d" "validID i" "load en d i sv = (sv', x)" "W sv"
  shows "W sv' \<and> C sv' = C sv \<and> (\<forall>r. x = Inr r \<longrightarrow> (\<exists>n r0. C sv (recordKey d i) = Some (Doc n r0) \<and> r = r0\<lparr>rd_DeploymentID := d\<rparr>))"
proof -
  obtain sv1 y where o: "store_open en (recordKey d i) sv = (sv1, y)" by fastforce
  show ?thesis using store_open_effect [OF o assms(4)] receipt_keys [OF assms(1,2)] assms(3)
    by (auto simp: load_def o decodeRecord_def split: sum.splits content.splits if_splits)
qed

lemma read_objects_effect:
  "\<forall>k \<in> set ks. okkey k \<Longrightarrow> W sv \<Longrightarrow> read_objects en ks sv = (sv', x) \<Longrightarrow> W sv' \<and> C sv' = C sv"
proof (induction ks arbitrary: sv sv' x)
  case (Cons k ks)
  obtain sv1 y where o: "store_open en k sv = (sv1, y)" by fastforce
  have 1: "W sv1" "C sv1 = C sv" using store_open_effect [OF o Cons.prems(2)] Cons.prems(1) by auto
  obtain sv2 z where r: "read_objects en ks sv1 = (sv2, z)" by fastforce
  have 2: "W sv2" "C sv2 = C sv" using Cons.IH [OF _ 1(1) r] Cons.prems(1) 1 by auto
  show ?case using Cons.prems(3) 1 2 by (auto simp: o r split: sum.splits content.splits)
qed simp

text \<open>Deletions take away objects of the given keys, some or all of them, and nothing else.\<close>

lemma delete_keys_effect:
  "\<forall>k \<in> set ks. okkey k \<Longrightarrow> W sv \<Longrightarrow> W (fold (store_delete en) ks sv)
   \<and> (\<forall>k. C (fold (store_delete en) ks sv) k = C sv k \<or> k \<in> set ks \<and> C (fold (store_delete en) ks sv) k = None)"
proof (induction ks arbitrary: sv)
  case (Cons k ks)
  have d: "W (store_delete en k sv)" "C (store_delete en k sv) = C sv \<or> C (store_delete en k sv) = (C sv)(k := None)"
    using store_delete_effect [of k sv] Cons.prems by auto
  show ?case using Cons.IH [OF _ d(1)] Cons.prems(1) d(2) by (auto simp: fun_upd_def split: if_splits)
qed simp

end

lemma fold_delete_parts: "fold (\<lambda>p. store_delete en (partKey d i (pt_Number p))) ps = fold (store_delete en) (partKeys d i ps)"
  by (simp add: partKeys_def fold_map comp_def)

lemma deletePayload_fold:
  "deletePayload en r sv = fold (store_delete en) (bodyKey (rd_DeploymentID r) (rd_ID r) # partKeys (rd_DeploymentID r) (rd_ID r) (rd_Parts r)) sv"
  by (simp add: deletePayload_def fold_delete_parts)

context receipt_service
begin

lemma part_keys_ok: "plain_deployment d \<Longrightarrow> validID i \<Longrightarrow> \<forall>p \<in> set ps. 1 \<le> pt_Number p \<Longrightarrow> \<forall>k \<in> set (partKeys d i ps). okkey k"
  by (auto simp: partKeys_def part_keys)

lemma delete_objects:
  assumes "plain_deployment d" "validID i" "\<forall>p \<in> set ps. 1 \<le> pt_Number p" "W sv"
    and "sv' = fold (store_delete en) ks sv" "ks = partKeys d i ps \<or> ks = bodyKey d i # partKeys d i ps"
  shows "W sv'" "same_records (C sv) (C sv')" "ok_inv (C sv) \<Longrightarrow> ok_inv (C sv')"
    "ks = partKeys d i ps \<Longrightarrow> validID i' \<Longrightarrow> C sv' (bodyKey d' i') = C sv (bodyKey d' i')"
proof -
  have ok: "\<forall>k \<in> set ks. okkey k" using assms(6) part_keys_ok [OF assms(1-3)] receipt_keys [OF assms(1,2)] by auto
  have e: "W sv'" "\<forall>k. C sv' k = C sv k \<or> k \<in> set ks \<and> C sv' k = None"
    using delete_keys_effect [OF ok assms(4)] assms(5) by auto
  show "W sv'" by (rule e)
  have "recordKey d' i' \<notin> set ks" if "validID i'" for d' i'
    using assms(2,3,6) that keys_differ [OF that assms(2)] by (auto simp: partKeys_def)
  then show "same_records (C sv) (C sv')" using e(2) by (auto simp: same_records_def)
  show "ok_inv (C sv) \<Longrightarrow> ok_inv (C sv')" using e(2) inv_shrink by blast
  assume "ks = partKeys d i ps" "validID i'"
  then have "bodyKey d' i' \<notin> set ks" using assms(2,3) keys_differ [OF _ assms(2)] by (auto simp: partKeys_def)
  then show "C sv' (bodyKey d' i') = C sv (bodyKey d' i')" using e(2) by blast
qed

text \<open>A saved record replaces the one at its key, or the save failed.\<close>

lemma save_step:
  assumes "plain_deployment d" "validID i" "rd_DeploymentID r' = d" "rd_ID r' = i" "save en r' sv = (sv', e)" "W sv" "ok_inv (C sv)"
    and "0 \<le> rd_SizeBytes r'" "\<forall>p \<in> set (rd_Parts r'). 1 \<le> pt_Number p"
    and "has_verified_body (rd_State r') \<longrightarrow> (\<forall>c. C sv (bodyKey d i) = Some c \<longrightarrow> body_of (en_sha256 en) r' c)"
  shows "W sv'" "ok_inv (C sv')" "touches_only d i (C sv) (C sv')"
    "C sv' (recordKey d i) = C sv (recordKey d i) \<and> e \<noteq> None \<or> C sv' (recordKey d i) = Some (Doc (en_json_len en r') (json_record r'))"
    "same_records (C sv) (C sv') \<or> C sv' (recordKey d i) = Some (Doc (en_json_len en r') (json_record r'))"
    "validID i' \<Longrightarrow> C sv' (bodyKey d' i') = C sv (bodyKey d' i')"
proof -
  have "ok_inv ((C sv)(recordKey d i \<mapsto> Doc (en_json_len en r') (json_record r')))"
    using assms by (intro inv_save) (auto simp: json_record_def body_of_def)
  then show "W sv'" "ok_inv (C sv')" "touches_only d i (C sv) (C sv')"
    "C sv' (recordKey d i) = C sv (recordKey d i) \<and> e \<noteq> None \<or> C sv' (recordKey d i) = Some (Doc (en_json_len en r') (json_record r'))"
    "same_records (C sv) (C sv') \<or> C sv' (recordKey d i) = Some (Doc (en_json_len en r') (json_record r'))"
    "validID i' \<Longrightarrow> C sv' (bodyKey d' i') = C sv (bodyKey d' i')"
    using save_effect [of r' sv sv' e] assms(1-7) touches_record [OF assms(2)] touches_same [OF same_records_refl] keys_differ(2) [OF assms(2)]
    by auto
qed

lemma unchanged_ok: "W sv' \<Longrightarrow> C sv' = C sv \<Longrightarrow> ok_inv (C sv) \<Longrightarrow> W sv' \<and> ok_step now op (C sv) (C sv')"
  by (simp add: step_same)

text \<open>The pattern of most operations: load a record, touch other objects, save its successor.\<close>

lemma save_edge:
  assumes "plain_deployment d" "validID i" "C sv (recordKey d i) = Some (Doc n r)" "ok_inv (C sv)"
    and "touches_only d i (C sv) (C sv1)" "W sv1" "ok_inv (C sv1)"
    and "C sv1 (recordKey d i) = C sv (recordKey d i)
      \<or> (\<exists>n1 r1. C sv1 (recordKey d i) = Some (Doc n1 r1) \<and> same_declaration r r1 \<and> receipt_edge (en_cfg en) now op r r1)"
    and "save en r' sv1 = (sv', e)" "rd_DeploymentID r' = d" "same_declaration r r'" "receipt_edge (en_cfg en) now op r r'"
    and "\<forall>p \<in> set (rd_Parts r'). 1 \<le> pt_Number p" "op_addresses op d i"
    and "has_verified_body (rd_State r') \<longrightarrow> (\<forall>c. C sv1 (bodyKey d i) = Some c \<longrightarrow> body_of (en_sha256 en) r' c)"
  shows "W sv' \<and> ok_step now op (C sv) (C sv')"
proof -
  have r: "rd_ID r' = i" "0 \<le> rd_SizeBytes r'"
    using receipts_invD [OF assms(4,3,2)] assms(11) by (auto simp: same_declaration_def)
  note S = save_step [OF assms(1,2,10) r(1) assms(9,6,7) r(2) assms(13,15)]
  have t: "touches_only d i (C sv) (C sv')" using touches_trans [OF assms(5) S(3)] .
  have m: "C sv' (recordKey d i) = C sv (recordKey d i)
      \<or> (\<exists>n1 r1. C sv' (recordKey d i) = Some (Doc n1 r1) \<and> same_declaration r r1 \<and> receipt_edge (en_cfg en) now op r r1)"
  proof (cases "C sv' (recordKey d i) = Some (Doc (en_json_len en r') (json_record r'))")
    case True
    then show ?thesis using assms(11,12) by simp
  next
    case False
    then show ?thesis using S(4) assms(8) by simp
  qed
  show ?thesis using S(1) step_edge [OF S(2) t assms(3) m assms(14)] by blast
qed

lemma stored_save_ok:
  assumes "plain_deployment d" "validID i" "ok_inv (C sv)" "C sv (recordKey d i) = Some (Doc n r0)" "r = r0\<lparr>rd_DeploymentID := d\<rparr>"
    and "W sv2" "ok_inv (C sv2)" "same_records (C sv) (C sv2)" "save en r' sv2 = (sv', e)"
    and "rd_DeploymentID r' = d" "same_declaration r r'" "receipt_edge (en_cfg en) now op r r'" "op_addresses op d i"
    and "(\<forall>p \<in> set (rd_Parts r). 1 \<le> pt_Number p) \<longrightarrow> (\<forall>p \<in> set (rd_Parts r'). 1 \<le> pt_Number p)"
    and "has_verified_body (rd_State r') \<longrightarrow> has_verified_body (rd_State r) \<and> C sv2 (bodyKey d i) = C sv (bodyKey d i)"
  shows "W sv' \<and> ok_step now op (C sv) (C sv')"
proof -
  note R = receipts_invD [OF assms(3,4,2)]
  have d: "same_declaration r0 r'" using assms(11) by (simp add: assms(5) same_declaration_def)
  have e: "receipt_edge (en_cfg en) now op r0 r'" using assms(12) by (cases op) (simp_all add: assms(5))
  have p: "\<forall>p \<in> set (rd_Parts r'). 1 \<le> pt_Number p" using assms(14) R(3) by (simp add: assms(5))
  have b: "has_verified_body (rd_State r') \<longrightarrow> (\<forall>c. C sv2 (bodyKey d i) = Some c \<longrightarrow> body_of (en_sha256 en) r' c)"
    using assms(15) R(4) d by (auto simp: assms(5) same_declaration_def body_of_def)
  have s: "C sv2 (recordKey d i) = C sv (recordKey d i)" using assms(8,2) by (simp add: same_records_def)
  show ?thesis
    by (rule save_edge [OF assms(1,2,4,3) touches_same [OF assms(8)] assms(6,7) disjI1 [OF s] assms(9,10) d e p assms(13) b])
qed

lemma load_save_ok:
  assumes "plain_deployment d" "validID i" "W sv" "ok_inv (C sv)" "load en d i sv = (sv1, Inr r)"
    and "W sv2" "ok_inv (C sv2)" "same_records (C sv) (C sv2)" "save en r' sv2 = (sv', e)"
    and "rd_DeploymentID r' = d" "same_declaration r r'" "receipt_edge (en_cfg en) now op r r'" "op_addresses op d i"
    and "(\<forall>p \<in> set (rd_Parts r). 1 \<le> pt_Number p) \<longrightarrow> (\<forall>p \<in> set (rd_Parts r'). 1 \<le> pt_Number p)"
    and "has_verified_body (rd_State r') \<longrightarrow> has_verified_body (rd_State r) \<and> C sv2 (bodyKey d i) = C sv (bodyKey d i)"
  shows "W sv' \<and> ok_step now op (C sv) (C sv')"
proof -
  obtain n r0 where r0: "C sv (recordKey d i) = Some (Doc n r0)" "r = r0\<lparr>rd_DeploymentID := d\<rparr>"
    using load_effect [OF assms(1,2,5,3)] by blast
  show ?thesis by (rule stored_save_ok [OF assms(1,2,4) r0 assms(6-15)])
qed

lemma PutPart_ok:
  assumes "plain_deployment d" "W sv" "ok_inv (C sv)" "PutPart en now d i number body n checksum sv = (sv', x)"
  shows "W sv' \<and> ok_step now (OpPutPart d i number body n checksum) (C sv) (C sv')"
proof (cases "validatePartInput en i number n checksum")
  case (Some e)
  then show ?thesis using assms by (intro unchanged_ok) (simp_all add: PutPart_def)
next
  case None
  then have v: "validID i" "1 \<le> number" by (auto simp: validatePartInput_def split: if_splits)
  obtain sv1 y where l: "load en d i sv = (sv1, y)" by fastforce
  note L = load_effect [OF assms(1) v(1) l assms(2)]
  show ?thesis
  proof (cases "\<exists>r. y = Inr r \<and> rd_State r = StateUploading \<and> \<not> receipt_expired now r")
    case False
    then have "sv' = sv1" using assms(4) None by (auto simp: PutPart_def l split: sum.splits if_splits)
    then show ?thesis using L assms(3) by (intro unchanged_ok) auto
  next
    case True
    then obtain r where r: "y = Inr r" "rd_State r = StateUploading" "\<not> receipt_expired now r" by blast
    obtain sv2 e where put: "store_put en (partKey d i number) (map_sum id Raw body) n None sv1 = (sv2, e)" by fastforce
    have P: "W sv2" "C sv2 = C sv \<or> (\<exists>b. C sv2 = (C sv)(partKey d i number \<mapsto> Raw b))"
      using store_put_effect [OF part_keys [OF assms(1) v] put] L by auto
    have I2: "ok_inv (C sv2)" "same_records (C sv) (C sv2)" using P(2) inv_part [OF assms(3) v] assms(3) same_records_upd(2) [OF v] by auto
    let ?sv3 = "store_delete en (partKey d i number) sv2"
    have D: "W ?sv3" "ok_inv (C ?sv3)" "same_records (C sv) (C ?sv3)"
      using store_delete_effect [OF part_keys [OF assms(1) v] P(1)] I2 inv_removed [OF I2(1)] same_records_upd(2) [OF v] same_records_trans [OF I2(2)] by auto
    define p where "p = \<lparr>pt_Number = number, pt_SizeBytes = n, pt_SHA256Hex = sum_hex (en_sha256 en (case body of Inr b \<Rightarrow> b | Inl _ \<Rightarrow> []))\<rparr>"
    define r' where "r' = r\<lparr>rd_Parts := sort_by (\<lambda>a b. pt_Number a < pt_Number b) (upsertPart p (rd_Parts r)), rd_UpdatedAt := now\<rparr>"
    let ?sv4 = "sv2\<lparr>sv_stats := (sv_stats sv2)\<lparr>rs_Parts := rs_Parts (sv_stats sv2) + 1\<rparr>\<rparr>"
    obtain sv5 e5 where s: "save en r' ?sv4 = (sv5, e5)" by fastforce
    have cases: "sv' = sv2 \<or> sv' = ?sv3 \<or> sv' = sv5"
      using assms(4) unfolding PutPart_def None l r
      by (auto simp: l r put s Let_def simp flip: p_def r'_def split: option.splits if_splits)
    obtain r0 where r0: "r = r0\<lparr>rd_DeploymentID := d\<rparr>" using L r by blast
    have w: "W ?sv4" "ok_inv (C ?sv4)" "same_records (C sv) (C ?sv4)" using P(1) I2 by simp_all
    have r': "rd_DeploymentID r' = d" "same_declaration r r'" "receipt_edge (en_cfg en) now (OpPutPart d i number body n checksum) r r'"
      "\<not> has_verified_body (rd_State r')"
      using r by (simp_all add: r'_def r0 same_declaration_def receipt_expired_def has_verified_body_def)
    have n: "(\<forall>p \<in> set (rd_Parts r). 1 \<le> pt_Number p) \<longrightarrow> (\<forall>p \<in> set (rd_Parts r'). 1 \<le> pt_Number p)"
      using upsertPart_numbers [of "rd_Parts r" p] v(2) by (simp add: r'_def p_def)
    have "W sv5 \<and> ok_step now (OpPutPart d i number body n checksum) (C sv) (C sv5)"
      using load_save_ok [OF assms(1) v(1) assms(2,3) l [unfolded r(1)] w s r'(1-3) _ n] r'(4) by simp
    then show ?thesis using cases P(1) I2 D step_same by blast
  qed
qed

lemma Cancel_ok:
  assumes "plain_deployment d" "W sv" "ok_inv (C sv)" "Receipt_Cancel en now d i sv = (sv', x)"
  shows "W sv' \<and> ok_step now (OpCancel d i) (C sv) (C sv')"
proof (cases "validID i")
  case False
  then show ?thesis using assms by (intro unchanged_ok) (simp_all add: Receipt_Cancel_def)
next
  case v: True
  obtain sv1 y where l: "load en d i sv = (sv1, y)" by fastforce
  note L = load_effect [OF assms(1) v l assms(2)]
  show ?thesis
  proof (cases "\<exists>r. y = Inr r \<and> rd_State r \<noteq> StateAssigned \<and> rd_State r \<noteq> StateConsumed")
    case False
    then have "sv' = sv1" using assms(4) v by (auto simp: Receipt_Cancel_def l split: sum.splits if_splits)
    then show ?thesis using L assms(3) by (intro unchanged_ok) auto
  next
    case True
    then obtain r where r: "y = Inr r" "rd_State r \<noteq> StateAssigned" "rd_State r \<noteq> StateConsumed" by blast
    obtain n r0 where r0: "C sv (recordKey d i) = Some (Doc n r0)" "r = r0\<lparr>rd_DeploymentID := d\<rparr>" using L r by blast
    note R = receipts_invD [OF assms(3) r0(1) v]
    let ?r = "r\<lparr>rd_State := StateCancelled, rd_UpdatedAt := now\<rparr>"
    let ?sv2 = "deletePayload en ?r sv1"
    have f: "?sv2 = fold (store_delete en) (bodyKey d i # partKeys d i (rd_Parts r0)) sv1"
      by (simp add: deletePayload_fold r0(2) R(1))
    have w: "W ?sv2" "ok_inv (C ?sv2)" "same_records (C sv) (C ?sv2)"
      using delete_objects(1-3) [OF assms(1) v R(3) _ f] L assms(3) by simp_all
    obtain sv3 e where s: "save en ?r ?sv2 = (sv3, e)" by fastforce
    have "sv' = sv3" using assms(4) v r s by (auto simp: Receipt_Cancel_def l Let_def split: option.splits)
    moreover have "rd_DeploymentID ?r = d" "same_declaration r ?r" "receipt_edge (en_cfg en) now (OpCancel d i) r ?r" "\<not> has_verified_body (rd_State ?r)"
      using r by (simp_all add: r0(2) same_declaration_def has_verified_body_def)
    ultimately show ?thesis using load_save_ok [OF assms(1) v assms(2,3) l [unfolded r(1)] w s, of now "OpCancel d i"] by simp
  qed
qed

lemma Prepare_ok:
  assumes "plain_deployment d" "W sv" "ok_inv (C sv)" "PrepareRequest en now d i q sv = (sv', x)"
  shows "W sv' \<and> ok_step now (OpPrepare d i q) (C sv) (C sv')"
proof (cases "validAssignmentInput i d q")
  case False
  then show ?thesis using assms by (intro unchanged_ok) (simp_all add: PrepareRequest_def)
next
  case True
  then have v: "validID i" by (simp add: validAssignmentInput_def)
  obtain sv1 y where l: "load en d i sv = (sv1, y)" by fastforce
  note L = load_effect [OF assms(1) v l assms(2)]
  show ?thesis
  proof (cases "\<exists>r. y = Inr r \<and> assignmentEligible now (releaseExpiredAssignment now r)")
    case False
    then have "sv' = sv1" using assms(4) True by (auto simp: PrepareRequest_def l Let_def split: sum.splits if_splits)
    then show ?thesis using L assms(3) by (intro unchanged_ok) auto
  next
    case el: True
    then obtain r where r: "y = Inr r" "assignmentEligible now (releaseExpiredAssignment now r)" by blast
    obtain r0 where r0: "r = r0\<lparr>rd_DeploymentID := d\<rparr>" using L r by blast
    define r' where "r' = (releaseExpiredAssignment now r)\<lparr>rd_State := StateAssigned, rd_AssignedRequestID := q,
      rd_AssignmentExpiresAt := now + rc_AssignmentTTL (en_cfg en), rd_UpdatedAt := now\<rparr>"
    let ?sv2 = "sv1\<lparr>sv_stats := (sv_stats sv1)\<lparr>rs_Assigned := rs_Assigned (sv_stats sv1) + 1\<rparr>\<rparr>"
    obtain sv3 e where s: "save en r' ?sv2 = (sv3, e)" by fastforce
    have "sv' = sv3" using assms(4) True r(2) s by (auto simp: PrepareRequest_def l r(1) Let_def simp flip: r'_def split: option.splits)
    moreover have w: "W ?sv2" "ok_inv (C ?sv2)" "same_records (C sv) (C ?sv2)" "C ?sv2 = C sv" using L assms(3) by simp_all
    moreover have "rd_DeploymentID r' = d" "same_declaration r r'" "receipt_edge (en_cfg en) now (OpPrepare d i q) r r'"
      "rd_Parts r' = rd_Parts r" "has_verified_body (rd_State r)"
      using r(2) by (auto simp: r'_def r0 releaseExpiredAssignment_def assignmentEligible_def receipt_expired_def same_declaration_def
          has_verified_body_def split: if_splits)
    ultimately show ?thesis using load_save_ok [OF assms(1) v assms(2,3) l [unfolded r(1)] w(1-3) s, of now "OpPrepare d i q"] by simp
  qed
qed

lemma Finish_ok:
  assumes "plain_deployment d" "W sv" "ok_inv (C sv)" "FinishRequest en now d i q consumed sv = (sv', x)"
  shows "W sv' \<and> ok_step now (OpFinish d i q consumed) (C sv) (C sv')"
proof (cases "validID i \<and> q \<noteq> []")
  case False
  then show ?thesis using assms by (intro unchanged_ok) (auto simp: FinishRequest_def)
next
  case True
  then have v: "validID i" by simp
  obtain sv1 y where l: "load en d i sv = (sv1, y)" by fastforce
  note L = load_effect [OF assms(1) v l assms(2)]
  show ?thesis
  proof (cases "\<exists>r. y = Inr r \<and> rd_State r = StateAssigned \<and> rd_AssignedRequestID r = q")
    case False
    then have "sv' = sv1" using assms(4) True by (auto simp: FinishRequest_def l split: sum.splits if_splits)
    then show ?thesis using L assms(3) by (intro unchanged_ok) auto
  next
    case el: True
    then obtain r where r: "y = Inr r" "rd_State r = StateAssigned" "rd_AssignedRequestID r = q" by blast
    obtain r0 where r0: "r = r0\<lparr>rd_DeploymentID := d\<rparr>" using L r by blast
    let ?r = "r\<lparr>rd_State := if consumed then StateConsumed else StateVerified, rd_AssignedRequestID := [],
      rd_AssignmentExpiresAt := 0, rd_UpdatedAt := now\<rparr>"
    define sv2 where "sv2 = (if consumed then sv1\<lparr>sv_stats := (sv_stats sv1)\<lparr>rs_Consumed := rs_Consumed (sv_stats sv1) + 1\<rparr>\<rparr> else sv1)"
    have "save en ?r sv2 = (sv', x)" using assms(4) True r by (simp add: FinishRequest_def l sv2_def)
    moreover have w: "W sv2" "ok_inv (C sv2)" "same_records (C sv) (C sv2)" "C sv2 = C sv" using L assms(3) by (simp_all add: sv2_def)
    moreover have "rd_DeploymentID ?r = d" "same_declaration r ?r" "receipt_edge (en_cfg en) now (OpFinish d i q consumed) r ?r"
      "rd_Parts ?r = rd_Parts r" "has_verified_body (rd_State r)"
      using r(2,3) by (auto simp: r0 same_declaration_def has_verified_body_def)
    ultimately show ?thesis
      using load_save_ok [OF assms(1) v assms(2,3) l [unfolded r(1)] w(1-3), of ?r sv' x now "OpFinish d i q consumed"] by simp
  qed
qed

lemma reads_ok:
  "plain_deployment d \<Longrightarrow> W sv \<Longrightarrow> fst (Receipt_Get en d i sv) = sv' \<Longrightarrow> W sv' \<and> C sv' = C sv"
  "plain_deployment d \<Longrightarrow> W sv \<Longrightarrow> fst (OpenResponse en now d i sv) = sv' \<Longrightarrow> W sv' \<and> C sv' = C sv"
  "plain_deployment d \<Longrightarrow> W sv \<Longrightarrow> fst (OpenAssigned en now i d q ex sig sv) = sv' \<Longrightarrow> W sv' \<and> C sv' = C sv"
proof -
  assume d: "plain_deployment d" and w: "W sv"
  obtain sv1 y where l: "load en d i sv = (sv1, y)" by fastforce
  have L: "validID i \<Longrightarrow> W sv1 \<and> C sv1 = C sv" using load_effect [OF d _ l w] by blast
  have O: "validID i \<Longrightarrow> W (fst (open_body en d i r sv1)) \<and> C (fst (open_body en d i r sv1)) = C sv" for r
    using store_open_effect [of "bodyKey d i" sv1] receipt_keys [OF d] L
    by (auto simp: open_body_def split: prod.splits sum.splits)
  show "fst (Receipt_Get en d i sv) = sv' \<Longrightarrow> W sv' \<and> C sv' = C sv" using L w by (auto simp: Receipt_Get_def l)
  show "fst (OpenResponse en now d i sv) = sv' \<Longrightarrow> W sv' \<and> C sv' = C sv"
    using L O w by (auto simp: OpenResponse_def l split: sum.splits)
  have v: "validateAssignmentSignature en now i d q ex sig = Inr ms \<Longrightarrow> validID i" for ms
    by (auto simp: validateAssignmentSignature_def validAssignmentInput_def split: if_splits)
  show "fst (OpenAssigned en now i d q ex sig sv) = sv' \<Longrightarrow> W sv' \<and> C sv' = C sv"
    using L O v w by (auto simp: OpenAssigned_def l split: sum.splits)
qed

lemma composeParts_effect:
  assumes "plain_deployment d" "validID i" "\<forall>p \<in> set (rd_Parts r). 1 \<le> pt_Number p" "0 \<le> rd_SizeBytes r" "W sv"
    and "composeParts en d i r sv = (sv', x)"
  shows "W sv' \<and> (C sv' = C sv \<and> (\<exists>e. x = Inl e)
    \<or> (\<exists>b. int (length b) = rd_SizeBytes r \<and> C sv' = (C sv)(bodyKey d i \<mapsto> Raw b) \<and> (\<forall>a. x = Inr a \<longrightarrow> a = sum_hex (en_sha256 en b))))"
proof -
  obtain sv1 body where dr: "read_objects en (partKeys d i (rd_Parts r)) sv = (sv1, body)" by fastforce
  have 1: "W sv1" "C sv1 = C sv" using read_objects_effect [OF part_keys_ok [OF assms(1-3)] assms(5) dr] by auto
  obtain sv2 e where p: "store_put en (bodyKey d i) (map_sum id Raw body) (rd_SizeBytes r) (Some (''sha256'', rd_SHA256Hex r)) sv1 = (sv2, e)" by fastforce
  have k: "okkey (bodyKey d i)" using receipt_keys [OF assms(1,2)] by simp
  have x: "sv' = sv2" "x = (case e of Some e \<Rightarrow> Inl e | None \<Rightarrow> Inr (sum_hex (en_sha256 en (case body of Inr b \<Rightarrow> b | Inl _ \<Rightarrow> []))))"
    using assms(6) by (auto simp: composeParts_def drain_read_objects dr p split: option.splits)
  consider "C sv2 = C sv" "e \<noteq> None" | b where "body = Inr b" "int (length b) = rd_SizeBytes r" "C sv2 = (C sv)(bodyKey d i \<mapsto> Raw b)"
    using store_put_effect [OF k p 1(1)] 1(2) assms(4) by auto
  then show ?thesis using store_put_effect [OF k p 1(1)] x by cases (auto split: option.splits)
qed

lemma Complete_verified_step:
  assumes "plain_deployment d" "validID i" "C sv (recordKey d i) = Some (Doc n r0)" "ok_inv (C sv)"
    and r: "r = r0\<lparr>rd_DeploymentID := d, rd_State := StateVerifying, rd_UpdatedAt := now\<rparr>" "rd_State r0 \<in> {StateUploading, StateVerifying}" "now < rd_ExpiresAt r0"
    and w: "W sv1" "ok_inv (C sv1)" "touches_only d i (C sv) (C sv1)" "C sv1 (recordKey d i) = Some (Doc m (json_record r))"
    and c: "composeParts en d i r sv1 = (sv2, x)"
    and res: "sv' = (case x of Inl e \<Rightarrow> fst (save en (r\<lparr>rd_State := StateUploading, rd_Failure := ''storage_error''\<rparr>) sv2)
      | Inr actual \<Rightarrow> if \<not> EqualFold actual (rd_SHA256Hex r)
          then fst (rejectReceipt en now r ''checksum_mismatch'' (store_delete en (bodyKey d i) sv2))
          else fst (finalizeVerifiedReceipt en now d i r sv2))"
  shows "W sv' \<and> ok_step now (OpComplete d i) (C sv) (C sv')"
proof -
  note R = receipts_invD [OF assms(4,3,2)]
  have rp: "\<forall>p \<in> set (rd_Parts r). 1 \<le> pt_Number p" "0 \<le> rd_SizeBytes r" "rd_ID r = i" using R(1-3) by (simp_all add: r(1))
  note E = composeParts_effect [OF assms(1,2) rp(1,2) w(1) c]
  have nv: "\<not> has_verified_body (rd_State r')" if "C sv1 (recordKey d i) = Some (Doc k r')" for k r'
    using that w(4) by (auto simp: json_record_def r(1) has_verified_body_def)
  have 2: "W sv2" "ok_inv (C sv2)" "same_records (C sv1) (C sv2)"
    using E w(2) inv_body [OF w(2) assms(2) nv] same_records_upd(1) [OF assms(2)] by auto
  have step: "W s' \<and> ok_step now (OpComplete d i) (C sv) (C s')"
    if "W s" "ok_inv (C s)" "same_records (C sv1) (C s)" "save en r' s = (s', e)" "rd_DeploymentID r' = d" "same_declaration r0 r'"
      "rd_State r' \<in> {StateUploading, StateVerified, StateRejected}" "set (rd_Parts r') \<subseteq> set (rd_Parts r)"
      "has_verified_body (rd_State r') \<longrightarrow> (\<forall>c. C s (bodyKey d i) = Some c \<longrightarrow> body_of (en_sha256 en) r' c)" for s r' s' e
  proof -
    have t: "touches_only d i (C sv) (C s)" using touches_trans [OF w(3) touches_same [OF that(3)]] .
    have m: "C s (recordKey d i) = Some (Doc m (json_record r))" using that(3) w(4) assms(2) by (simp add: same_records_def)
    have e1: "receipt_edge (en_cfg en) now (OpComplete d i) r0 r'" using that(7) r(2,3) by auto
    have e2: "same_declaration r0 r" "receipt_edge (en_cfg en) now (OpComplete d i) r0 r" using r(2,3) by (auto simp: r(1) same_declaration_def)
    have p: "\<forall>p \<in> set (rd_Parts r'). 1 \<le> pt_Number p" using that(8) rp(1) by blast
    have "C s (recordKey d i) = C sv (recordKey d i) \<or> (\<exists>n1 r1. C s (recordKey d i) = Some (Doc n1 r1)
        \<and> same_declaration r0 r1 \<and> receipt_edge (en_cfg en) now (OpComplete d i) r0 r1)"
      using m e2 json_record_view(1,2) by blast
    then show ?thesis using save_edge [OF assms(1-4) t that(1,2) _ that(4,5,6) e1 p _ that(9)] by simp
  qed
  show ?thesis
  proof (cases x)
    case (Inl e)
    obtain s' e' where s: "save en (r\<lparr>rd_State := StateUploading, rd_Failure := ''storage_error''\<rparr>) sv2 = (s', e')" by fastforce
    show ?thesis using step [OF 2 s] res Inl s by (simp add: r(1) same_declaration_def has_verified_body_def)
  next
    case (Inr actual)
    then obtain b where b: "int (length b) = rd_SizeBytes r" "C sv2 (bodyKey d i) = Some (Raw b)" "actual = sum_hex (en_sha256 en b)"
      using E by auto
    show ?thesis
    proof (cases "EqualFold actual (rd_SHA256Hex r)")
      case False
      let ?s = "store_delete en (bodyKey d i) sv2"
      have k: "okkey (bodyKey d i)" using receipt_keys [OF assms(1,2)] by simp
      have 3: "W ?s" "ok_inv (C ?s)" "same_records (C sv1) (C ?s)"
        using store_delete_effect [OF k 2(1)] 2 inv_removed [OF 2(2)] same_records_trans [OF 2(3) same_records_upd(1) [OF assms(2)]] by auto
      obtain s' e' where s: "save en (r\<lparr>rd_State := StateRejected, rd_Failure := ''checksum_mismatch'', rd_UpdatedAt := now\<rparr>) ?s = (s', e')" by fastforce
      show ?thesis using step [OF 3 s] res Inr False s by (simp add: rejectReceipt_def Let_def r(1) same_declaration_def has_verified_body_def)
    next
      case True
      let ?s = "fold (store_delete en) (partKeys d i (rd_Parts r)) sv2"
      note D = delete_objects [OF assms(1,2) rp(1) 2(1) refl disjI1 [OF refl]]
      let ?st = "?s\<lparr>sv_stats := (sv_stats ?s)\<lparr>rs_Verified := rs_Verified (sv_stats ?s) + 1\<rparr>\<rparr>"
      have 3: "W ?st" "ok_inv (C ?st)" "same_records (C sv1) (C ?st)" using D(1) D(3) [OF 2(2)] same_records_trans [OF 2(3) D(2)] by simp_all
      obtain s' e' where s: "save en (r\<lparr>rd_State := StateVerified, rd_Parts := [], rd_Failure := [], rd_UpdatedAt := now\<rparr>) ?st = (s', e')" by fastforce
      have "C ?st (bodyKey d i) = Some (Raw b)" using D(4) [OF refl assms(2), of d] b(2) by simp
      then have "\<forall>c. C ?st (bodyKey d i) = Some c \<longrightarrow> body_of (en_sha256 en) (r\<lparr>rd_State := StateVerified, rd_Parts := [], rd_Failure := [], rd_UpdatedAt := now\<rparr>) c"
        using b True by (simp add: body_of_def)
      moreover have "sv' = s'" using res Inr True s by (simp add: finalizeVerifiedReceipt_def Let_def fold_delete_parts split: option.splits)
      ultimately show ?thesis using step [OF 3 s] by (simp add: r(1) same_declaration_def)
    qed
  qed
qed

lemma Complete_ok:
  assumes "plain_deployment d" "W sv" "ok_inv (C sv)" "Complete en now d i sv = (sv', x)"
  shows "W sv' \<and> ok_step now (OpComplete d i) (C sv) (C sv')"
proof (cases "validID i")
  case False
  then show ?thesis using assms by (intro unchanged_ok) (simp_all add: Complete_def)
next
  case v: True
  obtain sv1 y where l: "load en d i sv = (sv1, y)" by fastforce
  note L = load_effect [OF assms(1) v l assms(2)]
  show ?thesis
  proof (cases "\<exists>r n. y = Inr r \<and> rd_State r \<noteq> StateVerified \<and> completionSize now r = Inr n")
    case False
    then have "sv' = sv1" using assms(4) v by (auto simp: Complete_def l split: sum.splits if_splits)
    then show ?thesis using L assms(3) by (intro unchanged_ok) auto
  next
    case True
    then obtain r n where r: "y = Inr r" "rd_State r \<noteq> StateVerified" "completionSize now r = Inr n" by blast
    obtain m r0 where r0: "C sv (recordKey d i) = Some (Doc m r0)" "r = r0\<lparr>rd_DeploymentID := d\<rparr>" using L r by blast
    have st: "rd_State r0 \<in> {StateUploading, StateVerifying}" "now < rd_ExpiresAt r0"
      using r(3) by (auto simp: completionSize_def r0 receipt_expired_def split: if_splits)
    have w1: "W sv1" "ok_inv (C sv1)" "same_records (C sv) (C sv1)" "C sv1 = C sv" using L assms(3) by simp_all
    show ?thesis
    proof (cases "n = rd_SizeBytes r")
      case False
      let ?r = "r\<lparr>rd_State := StateRejected, rd_Failure := ''size_mismatch'', rd_UpdatedAt := now\<rparr>"
      obtain s' e where s: "save en ?r sv1 = (s', e)" by fastforce
      have "C sv' = C s' \<and> W sv' = W s'" using assms(4) v r False s by (auto simp: Complete_def l rejectReceipt_def Let_def)
      moreover have "rd_DeploymentID ?r = d" "same_declaration r ?r" "receipt_edge (en_cfg en) now (OpComplete d i) r ?r" "\<not> has_verified_body (rd_State ?r)"
        using st by (auto simp: r0(2) same_declaration_def has_verified_body_def)
      ultimately show ?thesis using load_save_ok [OF assms(1) v assms(2,3) l [unfolded r(1)] w1(1-3) s, of now "OpComplete d i"] by simp
    next
      case eq: True
      define r1 where "r1 = r\<lparr>rd_State := StateVerifying, rd_UpdatedAt := now\<rparr>"
      obtain sv2 e where s: "save en r1 sv1 = (sv2, e)" by fastforce
      have r1: "rd_DeploymentID r1 = d" "same_declaration r r1" "receipt_edge (en_cfg en) now (OpComplete d i) r r1"
        "\<not> has_verified_body (rd_State r1)" "rd_Parts r1 = rd_Parts r"
        using st by (auto simp: r1_def r0(2) same_declaration_def has_verified_body_def)
      show ?thesis
      proof (cases e)
        case (Some e1)
        then have "sv' = sv2" using assms(4) v r eq s by (auto simp: Complete_def l Let_def simp flip: r1_def)
        then show ?thesis using load_save_ok [OF assms(1) v assms(2,3) l [unfolded r(1)] w1(1-3) s r1(1-3)] r1(4,5) by simp
      next
        case None
        have ri: "rd_ID r1 = i" "0 \<le> rd_SizeBytes r1" "\<forall>p \<in> set (rd_Parts r1). 1 \<le> pt_Number p"
          using receipts_invD [OF assms(3) r0(1) v] by (simp_all add: r1_def r0)
        note S = save_step [OF assms(1) v r1(1) ri(1) s w1(1,2) ri(2,3)]
        have w2: "W sv2" "ok_inv (C sv2)" "touches_only d i (C sv) (C sv2)" "C sv2 (recordKey d i) = Some (Doc (en_json_len en r1) (json_record r1))"
          using S(1-4) r1(4) w1(4) None by simp_all
        obtain sv3 z where c: "composeParts en d i r1 sv2 = (sv3, z)" by fastforce
        have res: "sv' = (case z of Inl e \<Rightarrow> fst (save en (r1\<lparr>rd_State := StateUploading, rd_Failure := ''storage_error''\<rparr>) sv3)
          | Inr actual \<Rightarrow> if \<not> EqualFold actual (rd_SHA256Hex r1)
              then fst (rejectReceipt en now r1 ''checksum_mismatch'' (store_delete en (bodyKey d i) sv3))
              else fst (finalizeVerifiedReceipt en now d i r1 sv3))"
          using arg_cong [OF assms(4), of fst] v r eq s None c by (auto simp: Complete_def l Let_def split: sum.splits simp flip: r1_def)
        show ?thesis by (rule Complete_verified_step [OF assms(1) v r0(1) assms(3) _ st w2 c res]) (simp add: r1_def r0)
      qed
    qed
  qed
qed

lemma load_keeps: "load en d i sv = (sv', x) \<Longrightarrow> W sv \<Longrightarrow> W sv' \<and> C sv' = C sv"
  by (auto simp: load_def split: prod.splits sum.splits dest!: store_open_effect)

lemma resolve_effect: "resolveCreateIdempotency en d inp sv = (sv', x) \<Longrightarrow> W sv \<Longrightarrow> W sv' \<and> C sv' = C sv"
proof -
  assume a: "resolveCreateIdempotency en d inp sv = (sv', x)" and w: "W sv"
  obtain sv1 y where o: "store_open en (idempotencyKey en d (ci_IdempotencyKey inp)) sv = (sv1, y)" by fastforce
  have 1: "W sv1" "C sv1 = C sv" using store_open_effect [OF o w] by auto
  have "W (fst (load en d i sv1)) \<and> C (fst (load en d i sv1)) = C sv" for i using load_keeps [of d i sv1] 1 by (metis prod.collapse)
  then have "W (fst (loadIdempotency en d (ci_IdempotencyKey inp) sv)) \<and> C (fst (loadIdempotency en d (ci_IdempotencyKey inp) sv)) = C sv"
    using 1 by (auto simp: loadIdempotency_def o split: sum.splits content.splits)
  then show ?thesis using a w
    by (auto simp: resolveCreateIdempotency_def findIdempotentReceipt_def split: prod.splits sum.splits if_splits option.splits)
qed

lemma saveIdempotency_effect:
  assumes "plain_deployment (rd_DeploymentID r)" "saveIdempotency en r sv = (sv', e)" "W sv"
  shows "W sv' \<and> (C sv' = C sv \<or> C sv' = (C sv)(idempotencyKey en (rd_DeploymentID r) (rd_IdempotencyKey r) \<mapsto> Raw (rd_ID r)))"
proof -
  obtain sv1 e1 where p: "store_put en (idempotencyKey en (rd_DeploymentID r) (rd_IdempotencyKey r)) (Inr (Raw (rd_ID r)))
      (int (length (rd_ID r))) None sv = (sv1, e1)" by fastforce
  show ?thesis using store_put_effect [OF idempotency_keys [OF assms(1)] p assms(3)] assms(2) by (auto simp: saveIdempotency_def p)
qed

lemma Create_ok:
  assumes "plain_deployment d" "W sv" "ok_inv (C sv)" "Create en now raw d inp sv = (sv', x)"
  shows "W sv' \<and> ok_step now (OpCreate raw d inp) (C sv) (C sv')"
proof (cases "validateCreateInput en d inp")
  case (Some e)
  then show ?thesis using assms by (intro unchanged_ok) (simp_all add: Create_def)
next
  case None
  then have sz: "0 \<le> ci_SizeBytes inp" by (auto simp: validateCreateInput_def split: if_splits)
  obtain sv1 y where f: "resolveCreateIdempotency en d inp sv = (sv1, y)" by fastforce
  have 1: "W sv1 \<and> C sv1 = C sv" using resolve_effect [OF f assms(2)] .
  define r where "r = new_record en now (newID raw) d inp"
  obtain sv2 e where s: "save en r sv1 = (sv2, e)" by fastforce
  have rr: "rd_DeploymentID r = d" "rd_ID r = newID raw" "rd_Parts r = []" "\<not> has_verified_body (rd_State r)" "0 \<le> rd_SizeBytes r"
    using sz by (simp_all add: r_def new_record_def has_verified_body_def)
  have S: "W sv2" "ok_inv (C sv2)" "touches_only d (newID raw) (C sv) (C sv2)"
    using save_step(1-3) [OF assms(1) newID_valid rr(1,2) s] 1 assms(3) rr by simp_all
  obtain sv3 e3 where si: "saveIdempotency en r sv2 = (sv3, e3)" by fastforce
  have I: "W sv3" "ok_inv (C sv3)" "same_records (C sv2) (C sv3)"
    using saveIdempotency_effect [OF _ si S(1)] assms(1) rr(1) S(2) inv_idempotency [OF S(2)] same_records_upd(3) by auto
  have "C sv' \<in> {C sv1, C sv2, C sv3} \<and> W sv'"
    using assms(4) None 1 S(1) I(1) s si
    by (auto simp: Create_def f Let_def simp flip: r_def split: sum.splits option.splits if_splits prod.splits)
  moreover have "ok_step now (OpCreate raw d inp) (C sv) C'" if "ok_inv C'" "touches_only d (newID raw) (C sv) C'" for C'
    using that unfolding step_ok_def record_moves_def touches_only_def by (metis op_creates.simps(1) prod.inject)
  ultimately show ?thesis using 1 S I touches_trans [OF S(3) touches_same [OF I(3)]] assms(3) touches_same [OF same_records_refl] by auto
qed

lemma cleanupObject_ok:
  assumes "okkey key" "W sv" "ok_inv (C sv)"
  shows "W (cleanupObject en now key sv) \<and> ok_step now OpCleanup (C sv) (C (cleanupObject en now key sv))"
proof -
  obtain sv1 y where o: "store_open en key sv = (sv1, y)" by fastforce
  note O = store_open_effect [OF o assms(2)]
  define rr where "rr = snd (readCleanupRecord en key sv)"
  have rc: "readCleanupRecord en key sv = (sv1, rr)" by (auto simp: rr_def readCleanupRecord_def o split: sum.splits)
  show ?thesis
  proof (cases "has_suffix key ''/record.json'' \<and> rr \<noteq> None")
    case False
    then have "cleanupObject en now key sv = sv \<or> cleanupObject en now key sv = sv1" by (auto simp: cleanupObject_def rc)
    then show ?thesis using O assms step_same by auto
  next
    case True
    then obtain n r0 where c: "C sv key = Some (Doc n r0)" "rr = Some (r0\<lparr>rd_DeploymentID := deploymentFromRecordKey key\<rparr>)"
      using rc O assms(1) by (auto simp: readCleanupRecord_def o decodeRecord_def Let_def split: sum.splits content.splits if_splits)
    obtain d i where di: "plain_deployment d" "validID i" "key = recordKey d i" using assms(3) c(1) unfolding receipts_inv_def by blast
    define r where "r = r0\<lparr>rd_DeploymentID := d\<rparr>"
    have rr: "rr = Some r" using c(2) deploymentFromRecordKey_recordKey [OF di(2)] by (simp add: r_def di(3))
    note R = receipts_invD [OF assms(3) c(1) [unfolded di(3)] di(2)]
    note go = stored_save_ok [OF di(1,2) assms(3) c(1) [unfolded di(3)] r_def]
    show ?thesis
    proof (cases "receipt_expired now r \<and> rd_State r \<noteq> StateExpired")
      case True
      let ?r = "r\<lparr>rd_State := StateExpired\<rparr>"
      let ?sv2 = "sv1\<lparr>sv_stats := (sv_stats sv1)\<lparr>rs_Expired := rs_Expired (sv_stats sv1) + 1\<rparr>\<rparr>"
      let ?sv3 = "deletePayload en ?r ?sv2"
      have f: "?sv3 = fold (store_delete en) (bodyKey d i # partKeys d i (rd_Parts r0)) ?sv2"
        by (simp add: deletePayload_fold r_def R(1))
      have w: "W ?sv3" "ok_inv (C ?sv3)" "same_records (C sv) (C ?sv3)"
        using delete_objects(1-3) [OF di(1,2) R(3) _ f] O assms(3) by simp_all
      obtain sv4 e where s: "save en ?r ?sv3 = (sv4, e)" by fastforce
      have "cleanupObject en now key sv = sv4" using True \<open>has_suffix key _ \<and> _\<close> s by (simp add: cleanupObject_def rc rr Let_def)
      then show ?thesis using go [OF w s, of now OpCleanup] True by (simp add: r_def same_declaration_def has_verified_body_def receipt_expired_def)
    next
      case ne: False
      show ?thesis
      proof (cases "rd_State r = StateAssigned \<and> \<not> now < rd_AssignmentExpiresAt r")
        case True
        let ?r = "r\<lparr>rd_State := StateVerified, rd_AssignedRequestID := [], rd_AssignmentExpiresAt := 0, rd_UpdatedAt := now\<rparr>"
        obtain sv4 e where s: "save en ?r sv1 = (sv4, e)" by fastforce
        have w: "W sv1" "ok_inv (C sv1)" "same_records (C sv) (C sv1)" using O assms(3) by simp_all
        have "cleanupObject en now key sv = sv4" using True ne \<open>has_suffix key _ \<and> _\<close> s by (simp add: cleanupObject_def rc rr Let_def)
        then show ?thesis using go [OF w s, of now OpCleanup] True O by (simp add: r_def same_declaration_def has_verified_body_def)
      next
        case False
        then have "cleanupObject en now key sv = sv1" using ne \<open>has_suffix key _ \<and> _\<close> by (auto simp: cleanupObject_def rc rr)
        then show ?thesis using O assms step_same by simp
      qed
    qed
  qed
qed

lemma Cleanup_ok:
  assumes "W sv" "ok_inv (C sv)" "Cleanup en now sv = (sv', x)"
  shows "W sv' \<and> ok_step now OpCleanup (C sv) (C sv')"
proof -
  obtain s y where l: "Store_List (en_store en) ''deployments/'' (sv_store sv) = (s, y)" by fastforce
  note L = list_effect [OF l assms(1)]
  have fold: "W (fold (cleanupObject en now) ks sv1) \<and> ok_step now OpCleanup (C sv1) (C (fold (cleanupObject en now) ks sv1))"
    if "\<forall>k \<in> set ks. okkey k" "W sv1" "ok_inv (C sv1)" for ks sv1
    using that
  proof (induction ks arbitrary: sv1)
    case Nil
    then show ?case by (simp add: step_same)
  next
    case (Cons k ks)
    have c: "W (cleanupObject en now k sv1)" "ok_step now OpCleanup (C sv1) (C (cleanupObject en now k sv1))"
      using cleanupObject_ok [of k sv1 now] Cons.prems by auto
    then show ?case using Cons.IH [of "cleanupObject en now k sv1"] Cons.prems(1) cleanup_trans [OF c(2)] by (auto simp: step_ok_def)
  qed
  show ?thesis
  proof (cases y)
    case (Inl e)
    then show ?thesis using assms L by (auto simp: Cleanup_def l intro!: step_same)
  next
    case (Inr ks)
    then show ?thesis using assms L fold [of ks "sv\<lparr>sv_store := s\<rparr>"] by (auto simp: Cleanup_def l)
  qed
qed

lemma read_objects_contents:
  "\<forall>k \<in> set ks. okkey k \<Longrightarrow> W sv \<Longrightarrow> read_objects en ks sv = (sv', Inr b) \<Longrightarrow>
   \<exists>bs. map (C sv) ks = map (\<lambda>b. Some (Raw b)) bs \<and> b = concat bs"
proof (induction ks arbitrary: sv sv' b)
  case (Cons k ks)
  obtain sv1 y where o: "store_open en k sv = (sv1, y)" by fastforce
  note O = store_open_effect [OF o Cons.prems(2)]
  obtain sv2 z where r: "read_objects en ks sv1 = (sv2, z)" by fastforce
  obtain b1 b2 where b: "y = Inr (Raw b1)" "z = Inr b2" "b = b1 @ b2"
    using Cons.prems(3) by (auto simp: o r split: sum.splits content.splits)
  obtain bs where "map (C sv1) ks = map (\<lambda>b. Some (Raw b)) bs" "b2 = concat bs" using Cons.IH [of sv1 sv2 b2] Cons.prems(1) O r b(2) by auto
  then have "map (C sv) (k # ks) = map (\<lambda>b. Some (Raw b)) (b1 # bs)" "b = concat (b1 # bs)" using O Cons.prems(1) b by auto
  then show ?case by blast
qed simp

definition upload_step :: "ResponseUpload \<Rightarrow> 's Service \<Rightarrow> ResponseUpload \<Rightarrow> 's Service \<Rightarrow> bool" where
  "upload_step u sv u' sv' \<longleftrightarrow> W sv' \<and> ok_inv (C sv') \<and> same_records (C sv) (C sv') \<and> ru_deploymentID u' = ru_deploymentID u
     \<and> ru_id u' = ru_id u \<and> ru_hashed u' = ru_hashed u \<and> ru_size u' = ru_size u \<and> ru_closed u' = ru_closed u
     \<and> (\<forall>p \<in> set (ru_parts u'). 1 \<le> pt_Number p)"

lemma upload_step_refl: "W sv \<Longrightarrow> ok_inv (C sv) \<Longrightarrow> upload_ok (C sv) u data \<Longrightarrow> upload_step u sv u sv"
  by (simp add: upload_step_def upload_ok_numbers)

lemma upload_step_trans: "upload_step u sv u' sv' \<Longrightarrow> upload_step u' sv' u'' sv'' \<Longrightarrow> upload_step u sv u'' sv''"
  by (auto simp: upload_step_def intro: same_records_trans)

lemma flushPart_upload:
  assumes "W sv" "ok_inv (C sv)" "upload_ok (C sv) u data" "flushPart en u sv = (u', sv', e)"
  shows "upload_step u sv u' sv'" "e = None \<Longrightarrow> upload_ok (C sv') u' data \<and> ru_buffer u' = []"
proof -
  let ?d = "ru_deploymentID u" and ?i = "ru_id u" and ?n = "int (length (ru_parts u)) + 1"
  from assms(3) obtain bs where u: "plain_deployment ?d" "validID ?i" "map pt_Number (ru_parts u) = map (\<lambda>j. int j + 1) [0..<length (ru_parts u)]"
    "map (C sv) (partKeys ?d ?i (ru_parts u)) = map (\<lambda>b. Some (Raw b)) bs" "concat bs @ ru_buffer u @ data = ru_hashed u"
    by (auto simp: upload_ok_def)
  have k: "okkey (partKey ?d ?i ?n)" using part_keys [OF u(1,2)] by simp
  obtain sv1 e1 where p: "store_put en (partKey ?d ?i ?n) (Inr (Raw (ru_buffer u))) (int (length (ru_buffer u))) None sv = (sv1, e1)" by fastforce
  have P: "W sv1" "C sv1 = C sv \<and> e1 \<noteq> None \<or> C sv1 = (C sv)(partKey ?d ?i ?n \<mapsto> Raw (ru_buffer u))"
    using store_put_effect [OF k p assms(1)] by auto
  have I: "ok_inv (C sv1)" "same_records (C sv) (C sv1)"
    using P(2) assms(2) inv_part [OF assms(2) u(2), of ?n] same_records_upd(2) [OF u(2), of ?n] by auto
  note num = upload_ok_numbers [OF assms(3)]
  define u1 where "u1 = u\<lparr>ru_parts := ru_parts u @ [\<lparr>pt_Number = ?n, pt_SizeBytes = int (length (ru_buffer u)),
      pt_SHA256Hex = sum_hex (en_sha256 en (ru_buffer u))\<rparr>], ru_buffer := []\<rparr>"
  have r: "if ru_buffer u = [] then u' = u \<and> sv' = sv \<and> e = None else C sv' = C sv1 \<and> W sv' = W sv1 \<and> u' = (if e1 = None then u1 else u) \<and> (e = None) = (e1 = None)"
    using assms(4) by (auto simp: flushPart_def p u1_def Let_def split: if_splits option.splits)
  show "upload_step u sv u' sv'"
    using r assms(1,2) P(1) I num by (auto simp: upload_step_def u1_def split: if_splits)
  assume e: "e = None"
  show "upload_ok (C sv') u' data \<and> ru_buffer u' = []"
  proof (cases "ru_buffer u = []")
    case True
    then show ?thesis using r assms(3) by simp
  next
    case False
    then have c: "C sv' = (C sv)(partKey ?d ?i ?n \<mapsto> Raw (ru_buffer u))" "u' = u1" using r e P(2) by auto
    have "partKey ?d ?i (pt_Number q) \<noteq> partKey ?d ?i ?n" if "q \<in> set (ru_parts u)" for q
    proof -
      have "pt_Number q \<in> set (map pt_Number (ru_parts u))" using that by simp
      then have "1 \<le> pt_Number q" "pt_Number q \<noteq> ?n" unfolding u(3) by auto
      then show ?thesis using partKey_inj [OF u(2), of "pt_Number q" ?n] by simp
    qed
    then have "map (C sv') (partKeys ?d ?i (ru_parts u)) = map (C sv) (partKeys ?d ?i (ru_parts u))" by (auto simp: c partKeys_def)
    moreover have "map (C sv') (partKeys ?d ?i (ru_parts u1)) = map (C sv') (partKeys ?d ?i (ru_parts u)) @ [C sv' (partKey ?d ?i ?n)]"
      by (simp add: u1_def partKeys_def)
    moreover have "C sv' (partKey ?d ?i ?n) = Some (Raw (ru_buffer u))" by (simp add: c(1))
    ultimately have "map (C sv') (partKeys ?d ?i (ru_parts u1)) = map (\<lambda>b. Some (Raw b)) (bs @ [ru_buffer u])"
      using u(4) by simp
    then show ?thesis using u assms(3) c(2) unfolding upload_ok_def by (auto simp: u1_def intro!: exI [of _ "bs @ [ru_buffer u]"])
  qed
qed

lemma write_chunk_upload:
  assumes "W sv" "ok_inv (C sv)" "upload_ok (C sv) u (chunk @ rest)" "write_chunk en chunk u sv = (u', sv', e)"
  shows "upload_step u sv u' sv'" "e = None \<Longrightarrow> upload_ok (C sv') u' rest"
proof -
  let ?u = "u\<lparr>ru_buffer := ru_buffer u @ chunk\<rparr>"
  have u: "upload_ok (C sv) ?u rest" using assms(3) by (simp add: upload_ok_def)
  have s: "upload_step u sv ?u sv" using assms(1,2) upload_ok_numbers [OF u] by (simp add: upload_step_def)
  show "upload_step u sv u' sv'"
    using assms(4) flushPart_upload(1) [OF assms(1,2) u] s upload_step_trans [OF s] by (auto simp: write_chunk_def Let_def split: if_splits)
  show "e = None \<Longrightarrow> upload_ok (C sv') u' rest"
    using assms(4) flushPart_upload(2) [OF assms(1,2) u] u by (auto simp: write_chunk_def Let_def split: if_splits)
qed

lemma write_loop_upload:
  "W sv \<Longrightarrow> ok_inv (C sv) \<Longrightarrow> upload_ok (C sv) u data \<Longrightarrow> write_loop en data u sv = (u', sv', e) \<Longrightarrow>
   upload_step u sv u' sv' \<and> (e = None \<longrightarrow> upload_ok (C sv') u' [])"
proof (induction "2 * length data + (if length (ru_buffer u) = nat (rc_MaxPartBytes (en_cfg en)) then 1 else 0 :: nat)"
    arbitrary: data u sv rule: less_induct)
  case less
  let ?limit = "nat (rc_MaxPartBytes (en_cfg en))"
  define n where "n = min (length data) (?limit - length (ru_buffer u))"
  obtain u1 sv1 e1 where c: "write_chunk en (take n data) u sv = (u1, sv1, e1)" by (metis prod_cases3)
  have W1: "upload_step u sv u1 sv1" "e1 = None \<Longrightarrow> upload_ok (C sv1) u1 (drop n data)"
    using write_chunk_upload [OF less.prems(1,2) _ c, of "drop n data"] less.prems(3) by simp_all
  note eq = less.prems(4) [unfolded write_loop.simps [of en data u sv] Let_def, folded n_def, unfolded c prod.case]
  show ?case
  proof (cases "data = [] \<or> ?limit < length (ru_buffer u) \<or> ?limit = 0 \<or> e1 \<noteq> None")
    case True
    then show ?thesis using eq W1(1) upload_step_refl [OF less.prems(1-3)] less.prems(3) by (auto split: if_splits)
  next
    case False
    then have rec: "write_loop en (drop n data) u1 sv1 = (u', sv', e)" and ok: "upload_ok (C sv1) u1 (drop n data)" using eq W1(2) by simp_all
    have b: "ru_buffer u1 = (if length (ru_buffer u @ take n data) = ?limit then [] else ru_buffer u @ take n data)"
      using write_chunk_buffer [of en "take n data" u sv u1 sv1] c False by simp
    have "length (ru_buffer u1) \<noteq> ?limit" using b False by auto
    moreover have "n = 0 \<Longrightarrow> length (ru_buffer u) = ?limit" using False by (auto simp: n_def min_def split: if_splits)
    ultimately have lt: "2 * length (drop n data) + (if length (ru_buffer u1) = ?limit then 1 else 0 :: nat)
        < 2 * length data + (if length (ru_buffer u) = ?limit then 1 else 0)" using False by (cases "n = 0") auto
    have "W sv1" "ok_inv (C sv1)" using W1(1) by (auto simp: upload_step_def)
    from less.hyps [OF lt this ok rec] show ?thesis using upload_step_trans [OF W1(1)] by blast
  qed
qed

lemma write_all_upload:
  "W sv \<Longrightarrow> ok_inv (C sv) \<Longrightarrow> upload_ok (C sv) u [] \<Longrightarrow> write_all en chunks u sv = (u', sv', e) \<Longrightarrow>
   W sv' \<and> ok_inv (C sv') \<and> same_records (C sv) (C sv') \<and> ru_deploymentID u' = ru_deploymentID u \<and> ru_id u' = ru_id u
   \<and> (\<forall>p \<in> set (ru_parts u'). 1 \<le> pt_Number p)
   \<and> (e = None \<longrightarrow> upload_ok (C sv') u' [] \<and> ru_hashed u' = ru_hashed u @ concat chunks \<and> ru_closed u' = ru_closed u)"
proof (induction chunks arbitrary: u sv)
  case Nil
  then show ?case using upload_ok_numbers by auto
next
  case (Cons b bs)
  obtain u1 sv1 e1 where c: "ResponseUpload_Write en b u sv = (u1, sv1, e1)" by (metis prod_cases3)
  let ?u = "u\<lparr>ru_hashed := ru_hashed u @ b, ru_size := ru_size u + int (length b)\<rparr>"
  have u: "upload_ok (C sv) ?u b" using Cons.prems(3) by (auto simp: upload_ok_def)
  have w: "e1 \<noteq> None \<and> u1 = u \<and> sv1 = sv \<or> write_loop en b ?u sv = (u1, sv1, e1)"
    using c by (auto simp: ResponseUpload_Write_def split: if_splits)
  show ?case
  proof (cases "e1 \<noteq> None \<and> u1 = u \<and> sv1 = sv")
    case True
    then show ?thesis using Cons.prems c upload_ok_numbers by auto
  next
    case False
    then have "upload_step ?u sv u1 sv1 \<and> (e1 = None \<longrightarrow> upload_ok (C sv1) u1 [])" using write_loop_upload [OF Cons.prems(1,2) u] w by blast
    then have s: "W sv1" "ok_inv (C sv1)" "same_records (C sv) (C sv1)" "ru_deploymentID u1 = ru_deploymentID u" "ru_id u1 = ru_id u"
      "ru_hashed u1 = ru_hashed u @ b" "ru_closed u1 = ru_closed u" "\<forall>p \<in> set (ru_parts u1). 1 \<le> pt_Number p"
      "e1 = None \<longrightarrow> upload_ok (C sv1) u1 []" by (auto simp: upload_step_def)
    show ?thesis
    proof (cases e1)
      case None
      then have "write_all en bs u1 sv1 = (u', sv', e)" using Cons.prems(4) c by simp
      then show ?thesis using Cons.IH [OF s(1,2)] s None same_records_trans [OF s(3)] by auto
    next
      case (Some x)
      then show ?thesis using Cons.prems(4) c s by auto
    qed
  qed
qed

lemma Commit_effect:
  assumes "W sv" "ok_inv (C sv)" "upload_ok (C sv) u []" "\<not> ru_closed u" "C sv (recordKey (ru_deploymentID u) (ru_id u)) = None"
    and "Commit en now u sv = (u', sv', x)"
  shows "W sv' \<and> ok_inv (C sv') \<and> touches_only (ru_deploymentID u) (ru_id u) (C sv) (C sv')
    \<and> (\<forall>r. x = Inr r \<longrightarrow> r = response_record en now u
        \<and> C sv' (recordKey (ru_deploymentID u) (ru_id u)) = Some (Doc (en_json_len en r) (json_record r))
        \<and> C sv' (bodyKey (ru_deploymentID u) (ru_id u)) = Some (Raw (ru_hashed u)))"
proof -
  let ?d = "ru_deploymentID u" and ?i = "ru_id u"
  obtain u1 sv1 e1 where f: "flushPart en u sv = (u1, sv1, e1)" by (metis prod_cases3)
  note F = flushPart_upload [OF assms(1-3) f]
  have s1: "W sv1" "ok_inv (C sv1)" "same_records (C sv) (C sv1)" and u1: "ru_deploymentID u1 = ?d" "ru_id u1 = ?i" "ru_hashed u1 = ru_hashed u"
    "ru_size u1 = ru_size u" "\<forall>p \<in> set (ru_parts u1). 1 \<le> pt_Number p"
    using F(1) by (auto simp: upload_step_def)
  have di: "plain_deployment ?d" "validID ?i" using assms(3) by (auto simp: upload_ok_def)
  show ?thesis
  proof (cases e1)
    case (Some e)
    then show ?thesis using assms(4,6) f s1 touches_same by (auto simp: Commit_def)
  next
    case None
    obtain bs where bs: "map (C sv1) (partKeys ?d ?i (ru_parts u1)) = map (\<lambda>b. Some (Raw b)) bs" "concat bs = ru_hashed u" "ru_size u = int (length (ru_hashed u))"
      using F(2) [OF None] u1 assms(3) by (auto simp: upload_ok_def)
    let ?u = "u1\<lparr>ru_closed := True\<rparr>" and ?ks = "partKeys ?d ?i (ru_parts u1)"
    define r where "r = response_record en now ?u"
    have r: "r = response_record en now u" using u1 by (simp add: r_def response_record_def)
    obtain sv2 body where dr: "read_objects en ?ks sv1 = (sv2, body)" by fastforce
    have 2: "W sv2" "C sv2 = C sv1" using read_objects_effect [OF part_keys_ok [OF di u1(5)] s1(1) dr] by auto
    have body: "b = ru_hashed u" if "body = Inr b" for b
      using read_objects_contents [OF part_keys_ok [OF di u1(5)] s1(1)] dr that bs(1,2) by (fastforce dest!: map_injective simp: inj_def)
    obtain sv3 e3 where p: "store_put en (bodyKey ?d ?i) (map_sum id Raw body) (ru_size u) (Some (''sha256'', rd_SHA256Hex r)) sv2 = (sv3, e3)" by fastforce
    have k: "okkey (bodyKey ?d ?i)" using receipt_keys [OF di] by simp
    have 3: "W sv3" "C sv3 = C sv1 \<and> e3 \<noteq> None \<or> C sv3 = (C sv1)(bodyKey ?d ?i \<mapsto> Raw (ru_hashed u))"
      using store_put_effect [OF k p 2(1)] 2(2) body by auto
    have none: "C sv1 (recordKey ?d ?i) = None" using s1(3) assms(5) di by (simp add: same_records_def)
    have I3: "ok_inv (C sv3)" "same_records (C sv1) (C sv3)"
      using 3(2) s1(2) inv_body [OF s1(2) di(2), of ?d] none same_records_upd(1) [OF di(2)] by auto
    let ?sv4 = "deleteParts en ?u sv3"
    have f4: "?sv4 = fold (store_delete en) ?ks sv3" using u1 by (simp add: deleteParts_def fold_delete_parts)
    note D = delete_objects [OF di u1(5) 3(1) f4 disjI1 [OF refl]]
    have I4: "ok_inv (C ?sv4)" "same_records (C sv) (C ?sv4)"
      using D(3) [OF I3(1)] same_records_trans [OF same_records_trans [OF s1(3) I3(2)] D(2)] by auto
    obtain sv5 e5 where s: "save en r ?sv4 = (sv5, e5)" by fastforce
    have rr: "rd_DeploymentID r = ?d" "rd_ID r = ?i" "rd_Parts r = []" "0 \<le> rd_SizeBytes r"
      "body_of (en_sha256 en) r (Raw (ru_hashed u))"
      using bs(3) by (simp_all add: r response_record_def body_of_def EqualFold_def)
    show ?thesis
    proof (cases e3)
      case (Some e)
      then have "sv' = ?sv4" "\<nexists>r. x = Inr r" using assms(4,6) f None u1 p dr by (auto simp: Commit_def Let_def drain_read_objects r_def)
      then show ?thesis using D(1) I4 touches_same by auto
    next
      case n3: None
      have b4: "C ?sv4 (bodyKey ?d ?i) = Some (Raw (ru_hashed u))" using D(4) [OF refl di(2), of ?d] 3(2) n3 by simp
      note S = save_step [OF di rr(1,2) s D(1) I4(1) rr(4)]
      have "\<forall>p \<in> set (rd_Parts r). 1 \<le> pt_Number p" "has_verified_body (rd_State r) \<longrightarrow> (\<forall>c. C ?sv4 (bodyKey ?d ?i) = Some c \<longrightarrow> body_of (en_sha256 en) r c)"
        using rr b4 by simp_all
      note S = S [OF this]
      have "C sv' = C sv5" "W sv' = W sv5" "x = (case e5 of None \<Rightarrow> Inr r | Some e \<Rightarrow> Inl e)"
        using assms(4,6) f None n3 u1 p dr s by (auto simp: Commit_def Let_def drain_read_objects simp flip: r_def split: option.splits)
      then show ?thesis using S(1,2,4) S(6) [OF di(2), of ?d] b4 touches_trans [OF touches_same [OF I4(2)] S(3)] r by (auto split: option.splits)
    qed
  qed
qed

lemma store_response_effect:
  assumes "plain_deployment d" "W sv" "ok_inv (C sv)" "C sv (recordKey d (newID raw)) = None" "store_response en now raw d chunks sv = (sv', x)"
  shows "W sv' \<and> ok_inv (C sv') \<and> touches_only d (newID raw) (C sv) (C sv')
    \<and> (\<forall>r. x = Inr r \<longrightarrow> rd_ID r = newID raw \<and> rd_DeploymentID r = d \<and> rd_Direction r = ''response'' \<and> rd_State r = StateVerified
        \<and> rd_ExpiresAt r = now + rc_Retention (en_cfg en)
        \<and> C sv' (recordKey d (newID raw)) = Some (Doc (en_json_len en r) (json_record r)) \<and> C sv' (bodyKey d (newID raw)) = Some (Raw (concat chunks)))"
proof -
  define u where "u = \<lparr>ru_deploymentID = d, ru_id = newID raw, ru_parts = [], ru_buffer = [], ru_hashed = [], ru_size = 0, ru_closed = False\<rparr>"
  have u: "BeginResponse raw d = Inr u" using assms(1) by (simp add: BeginResponse_def u_def plain_deployment_def)
  have ok: "upload_ok (C sv) u []" using assms(1) newID_valid by (simp add: upload_ok_def u_def partKeys_def)
  obtain u1 sv1 e where w: "write_all en chunks u sv = (u1, sv1, e)" by (metis prod_cases3)
  note A = write_all_upload [OF assms(2,3) ok w]
  have i: "ru_deploymentID u1 = d" "ru_id u1 = newID raw" using A by (auto simp: u_def)
  show ?thesis
  proof (cases e)
    case (Some e1)
    then have sv': "sv' = snd (Abort en u1 sv1)" "\<nexists>r. x = Inr r" using assms(5) by (auto simp: store_response_def u w)
    have "W sv' \<and> ok_inv (C sv') \<and> same_records (C sv) (C sv')"
    proof (cases "ru_closed u1")
      case True
      then show ?thesis using sv' A by (simp add: Abort_def)
    next
      case False
      have f: "sv' = fold (store_delete en) (partKeys d (newID raw) (ru_parts u1)) sv1"
        using sv' False i by (simp add: Abort_def deleteParts_def fold_delete_parts)
      have p: "\<forall>p \<in> set (ru_parts u1). 1 \<le> pt_Number p" "W sv1" "ok_inv (C sv1)" "same_records (C sv) (C sv1)" using A by auto
      show ?thesis using delete_objects(1-3) [OF assms(1) newID_valid p(1,2) f disjI1 [OF refl]] p(3) same_records_trans [OF p(4)] by auto
    qed
    then show ?thesis using sv'(2) touches_same by auto
  next
    case None
    obtain u2 where c: "Commit en now u1 sv1 = (u2, sv', x)" using assms(5) None by (cases "Commit en now u1 sv1") (auto simp: store_response_def u w)
    have a: "W sv1" "ok_inv (C sv1)" "upload_ok (C sv1) u1 []" "\<not> ru_closed u1" "ru_hashed u1 = concat chunks" "same_records (C sv) (C sv1)"
      using A None by (auto simp: u_def)
    have "C sv1 (recordKey d (newID raw)) = None" using a(6) assms(4) newID_valid by (simp add: same_records_def)
    then show ?thesis using Commit_effect [OF a(1-4) _ c] i a(5) touches_trans [OF touches_same [OF a(6)]] by (auto simp: response_record_def)
  qed
qed

lemma op_step:
  assumes "op_deployment op" "W sv" "ok_inv (C sv)" "\<And>raw d chunks. op = OpResponse raw d chunks \<Longrightarrow> C sv (recordKey d (newID raw)) = None"
  shows "W (apply_op en now op sv) \<and> ok_step now op (C sv) (C (apply_op en now op sv))"
proof (cases op)
  case (OpCreate raw d inp)
  then show ?thesis using Create_ok [of d sv now raw inp] assms(1-3) by (simp add: prod_eq_iff)
next
  case (OpPutPart d i number body n checksum)
  then show ?thesis using PutPart_ok [of d sv now i number body n checksum] assms(1-3) by (simp add: prod_eq_iff)
next
  case (OpComplete d i)
  then show ?thesis using Complete_ok [of d sv now i] assms(1-3) by (simp add: prod_eq_iff)
next
  case (OpGet d i)
  then show ?thesis using reads_ok(1) [of d sv i] assms(1-3) step_same by simp
next
  case (OpCancel d i)
  then show ?thesis using Cancel_ok [of d sv now i] assms(1-3) by (simp add: prod_eq_iff)
next
  case (OpPrepare d i q)
  then show ?thesis using Prepare_ok [of d sv now i q] assms(1-3) by (simp add: prod_eq_iff)
next
  case (OpFinish d i q consumed)
  then show ?thesis using Finish_ok [of d sv now i q consumed] assms(1-3) by (simp add: prod_eq_iff)
next
  case (OpOpenAssigned i d q expires sig)
  then show ?thesis using reads_ok(3) [of d sv now i q expires sig] assms(1-3) step_same by simp
next
  case (OpOpenResponse d i)
  then show ?thesis using reads_ok(2) [of d sv now i] assms(1-3) step_same by simp
next
  case OpCleanup
  then show ?thesis using Cleanup_ok [of sv now] assms(2,3) by (simp add: prod_eq_iff)
next
  case (OpResponse raw d chunks)
  let ?sv = "fst (store_response en now raw d chunks sv)"
  have e: "W ?sv" "ok_inv (C ?sv)" "touches_only d (newID raw) (C sv) (C ?sv)"
    using store_response_effect [of d sv raw now chunks ?sv "snd (store_response en now raw d chunks sv)"] assms OpResponse by auto
  have "ok_step now op (C sv) (C ?sv)"
    using e(2,3) unfolding OpResponse step_ok_def record_moves_def touches_only_def by (metis op_creates.simps(2) prod.inject)
  then show ?thesis using e(1) OpResponse by simp
qed


lemma fresh_step:
  assumes "fresh_run ((t, op) # ops) (C sv)" "W sv" "ok_inv (C sv)"
  shows "W (apply_op en t op sv)" "ok_inv (C (apply_op en t op sv))" "ok_step t op (C sv) (C (apply_op en t op sv))"
    "fresh_run ops (C (apply_op en t op sv))"
proof -
  let ?sv = "apply_op en t op sv"
  have "C sv (recordKey d (newID raw)) = None" if "op = OpResponse raw d chunks" for raw d chunks
    using assms(1) newID_valid [of raw] unfolding that fresh_run_def by (cases "C sv (recordKey d (newID raw))") auto
  then have s: "W ?sv \<and> ok_step t op (C sv) (C ?sv)" using op_step [of op sv t] assms by (auto simp: fresh_run_def)
  then show "W ?sv" "ok_inv (C ?sv)" "ok_step t op (C sv) (C ?sv)" by (auto simp: step_ok_def)
  have new: "C sv (recordKey d i) \<noteq> None \<or> op_creates op d i" if "validID i" "C ?sv (recordKey d i) \<noteq> None" for d i
  proof -
    have "record_moves (en_cfg en) t op d i (C sv (recordKey d i)) (C ?sv (recordKey d i))" using s that(1) by (simp add: step_ok_def)
    then show ?thesis using that(2) by (auto simp: record_moves_def)
  qed
  have "i \<notin> set (op_ids ops)" if v: "validID i" "C ?sv (recordKey d i) \<noteq> None" for d i
  proof (cases "op_creates op d i")
    case True
    then show ?thesis using assms(1) op_creates_id [OF True] by (auto simp: fresh_run_def)
  next
    case False
    then show ?thesis using new [OF v] v(1) assms(1) by (auto simp: fresh_run_def)
  qed
  then show "fresh_run ops (C ?sv)" using assms(1) by (auto simp: fresh_run_def)
qed

lemma run_keeps:
  "fresh_run (ops @ ops') (C sv) \<Longrightarrow> W sv \<Longrightarrow> ok_inv (C sv) \<Longrightarrow>
   W (run_receipts en ops sv) \<and> ok_inv (C (run_receipts en ops sv)) \<and> fresh_run ops' (C (run_receipts en ops sv))"
proof (induction ops arbitrary: sv)
  case (Cons x ops)
  obtain t op where x: "x = (t, op)" by fastforce
  show ?case using fresh_step [of t op "ops @ ops'" sv] Cons x by (simp add: run_receipts_def)
qed (simp add: run_receipts_def)

lemma run_preserves:
  assumes "fresh_run ops (C sv)" "W sv" "ok_inv (C sv)" "validID i" "C sv (recordKey d i) = Some (Doc n r)" "P r"
    and "\<And>t op r r'. (t, op) \<in> set ops \<Longrightarrow> P r \<Longrightarrow> op_addresses op d i \<Longrightarrow> receipt_edge (en_cfg en) t op r r' \<Longrightarrow> P r'"
  shows "\<exists>n r. C (run_receipts en ops sv) (recordKey d i) = Some (Doc n r) \<and> P r"
  using assms
proof (induction ops arbitrary: sv n r)
  case (Cons x ops)
  obtain t op where x: "x = (t, op)" by fastforce
  note S = fresh_step [OF Cons.prems(1-3) [unfolded x]]
  have "\<not> op_creates op d i" using Cons.prems(1,4,5) op_creates_id by (fastforce simp: fresh_run_def x)
  moreover have "record_moves (en_cfg en) t op d i (C sv (recordKey d i)) (C (apply_op en t op sv) (recordKey d i))"
    using S(3) Cons.prems(4) by (simp add: step_ok_def)
  ultimately have m: "C (apply_op en t op sv) (recordKey d i) = C sv (recordKey d i) \<or> (\<exists>n' r'. C (apply_op en t op sv) (recordKey d i) = Some (Doc n' r')
      \<and> op_addresses op d i \<and> receipt_edge (en_cfg en) t op r r')"
    using Cons.prems(5) by (auto simp: record_moves_def)
  have "(t, op) \<in> set (x # ops)" by (simp add: x)
  then obtain n' r' where r': "C (apply_op en t op sv) (recordKey d i) = Some (Doc n' r')" "P r'"
    using m Cons.prems(5,6) Cons.prems(7) [of t op r] by auto
  have "\<exists>n r. C (run_receipts en ops (apply_op en t op sv)) (recordKey d i) = Some (Doc n r) \<and> P r"
    by (rule Cons.IH [OF S(4,1,2) Cons.prems(4) r']) (rule Cons.prems(7), simp_all)
  then show ?case by (simp add: x run_receipts_def)
qed (auto simp: run_receipts_def)

text \<open>While an assignment lasts and its request is not finished, the receipt stays with that request.\<close>

lemma claim_held:
  assumes "fresh_run ops (C sv)" "W sv" "ok_inv (C sv)" "plain_deployment d" "validID i"
    and "C sv (recordKey d i) = Some (Doc n r)" "rd_State r = StateAssigned" "rd_AssignedRequestID r = q" "rd_AssignmentExpiresAt r = T"
    and "\<forall>(t, op) \<in> set ops. t < T \<and> (\<forall>c. op \<noteq> OpFinish d i q c)" "t' < T"
  shows "\<exists>e. snd (PrepareRequest en t' d i q' (run_receipts en ops sv)) = Inl e"
proof -
  let ?P = "\<lambda>r. rd_State r = StateAssigned \<and> rd_AssignedRequestID r = q \<and> rd_AssignmentExpiresAt r = T \<or> rd_State r \<in> {StateCancelled, StateExpired}"
  let ?sv = "run_receipts en ops sv"
  have step: "?P r'" if "(t, op) \<in> set ops" "?P r" "op_addresses op d i" "receipt_edge (en_cfg en) t op r r'" for t op r r'
    using that assms(10) by (cases op) (auto split: if_splits)
  obtain n1 r1 where r1: "C ?sv (recordKey d i) = Some (Doc n1 r1)" "?P r1"
    using run_preserves [OF assms(1-3,5,6), of ?P] step assms(7-9) by blast
  obtain sv1 y where l: "load en d i ?sv = (sv1, y)" by fastforce
  have W: "W ?sv" using run_keeps [of ops "[]" sv] assms(1-3) by simp
  have "\<not> assignmentEligible t' (releaseExpiredAssignment t' r)" if "y = Inr r" for r
    using load_effect [OF assms(4,5) l W] r1 that assms(11) by (auto simp: assignmentEligible_def releaseExpiredAssignment_def)
  then show ?thesis by (auto simp: PrepareRequest_def l Let_def split: sum.splits)
qed

lemma dead_stays:
  assumes "fresh_run ops (C sv)" "W sv" "ok_inv (C sv)" "plain_deployment d" "validID i"
    and "C sv (recordKey d i) = Some (Doc n r)" "rd_State r \<in> {StateConsumed, StateRejected, StateCancelled, StateExpired}"
  shows "\<exists>e. snd (PrepareRequest en t d i q (run_receipts en ops sv)) = Inl e"
    "\<exists>e. snd (OpenAssigned en t i d q ex sig (run_receipts en ops sv)) = Inl e"
proof -
  let ?P = "\<lambda>r. rd_State r \<in> {StateConsumed, StateRejected, StateCancelled, StateExpired}"
  let ?sv = "run_receipts en ops sv"
  have step: "?P r'" if "(t, op) \<in> set ops" "?P r" "op_addresses op d i" "receipt_edge (en_cfg en) t op r r'" for t op r r'
    using that by (cases op) auto
  obtain n1 r1 where r1: "C ?sv (recordKey d i) = Some (Doc n1 r1)" "?P r1"
    using run_preserves [OF assms(1-3,5,6), of ?P] step assms(7) by blast
  obtain sv1 y where l: "load en d i ?sv = (sv1, y)" by fastforce
  have W: "W ?sv" using run_keeps [of ops "[]" sv] assms(1-3) by simp
  have dead: "?P r" if "y = Inr r" for r using load_effect [OF assms(4,5) l W] r1 that by auto
  then have "\<not> assignmentEligible t (releaseExpiredAssignment t r)" if "y = Inr r" for r
    using that by (fastforce simp: assignmentEligible_def releaseExpiredAssignment_def)
  then show "\<exists>e. snd (PrepareRequest en t d i q ?sv) = Inl e" by (auto simp: PrepareRequest_def l Let_def split: sum.splits)
  show "\<exists>e. snd (OpenAssigned en t i d q ex sig ?sv) = Inl e" using dead by (fastforce simp: OpenAssigned_def l split: sum.splits)
qed

text \<open>What a download delivers.\<close>

lemma downloads:
  assumes "plain_deployment d" "W sv" "ok_inv (C sv)"
    and "OpenAssigned en t i d q ex sig sv = (sv', Inr (c, r)) \<or> OpenResponse en t d i sv = (sv', Inr (c, r))"
  shows "body_of (en_sha256 en) r c \<and> rd_ID r = i \<and> rd_DeploymentID r = d"
proof -
  obtain sv1 y where l: "load en d i sv = (sv1, y)" by fastforce
  have v: "validID i" using assms(4)
    by (auto simp: OpenAssigned_def OpenResponse_def validateAssignmentSignature_def validAssignmentInput_def split: sum.splits if_splits prod.splits option.splits)
  note L = load_effect [OF assms(1) v l assms(2)]
  obtain sv2 z where o: "store_open en (bodyKey d i) sv1 = (sv2, z)" by fastforce
  have O: "okkey (bodyKey d i)" "\<forall>c. z = Inr c \<longrightarrow> C sv (bodyKey d i) = Some c"
    using store_open_effect [OF o] L receipt_keys [OF assms(1) v] by auto
  have r: "y = Inr r" "has_verified_body (rd_State r)" "z = Inr c"
    using assms(4) by (auto simp: OpenAssigned_def OpenResponse_def open_body_def l o has_verified_body_def split: sum.splits if_splits)
  obtain n r0 where r0: "C sv (recordKey d i) = Some (Doc n r0)" "r = r0\<lparr>rd_DeploymentID := d\<rparr>" using L r(1) by blast
  have "body_of (en_sha256 en) r0 c" using receipts_invD(4) [OF assms(3) r0(1) v] r O(2) by (simp add: r0(2))
  then show ?thesis using receipts_invD(1) [OF assms(3) r0(1) v] by (simp add: r0(2) body_of_def)
qed

text \<open>A store without failures never makes an upload fail.\<close>

lemma put_healthy_service:
  "okkey k \<Longrightarrow> healthy (sv_store sv) \<Longrightarrow> store_put en k (Inr c) n m sv = (sv', e) \<Longrightarrow> n = int (content_len c) \<Longrightarrow> healthy (sv_store sv') \<and> e = None"
  using put_healthy [of k c n m "sv_store sv"] by (auto simp: store_put_def split: prod.splits)

lemma save_healthy:
  "plain_deployment (rd_DeploymentID r) \<Longrightarrow> validID (rd_ID r) \<Longrightarrow> healthy (sv_store sv) \<Longrightarrow> save en r sv = (sv', e) \<Longrightarrow> healthy (sv_store sv') \<and> e = None"
  using receipt_keys [of "rd_DeploymentID r" "rd_ID r"]
  by (auto simp: save_def Let_def split: prod.splits dest!: put_healthy_service [rotated 2])

lemma delete_healthy_service: "\<forall>k \<in> set ks. okkey k \<Longrightarrow> healthy (sv_store sv) \<Longrightarrow> healthy (sv_store (fold (store_delete en) ks sv))"
proof (induction ks arbitrary: sv)
  case (Cons k ks)
  have "healthy (sv_store (store_delete en k sv))"
    using delete_healthy [of k "sv_store sv" "fst (Store_Delete (en_store en) k (sv_store sv))"] Cons.prems by (simp add: store_delete_def) (metis prod.collapse)
  then show ?case using Cons by simp
qed simp

lemma flush_healthy:
  assumes "upload_ok C' u data" "healthy (sv_store sv)" "flushPart en u sv = (u', sv', e)"
  shows "healthy (sv_store sv') \<and> e = None"
proof -
  have k: "okkey (partKey (ru_deploymentID u) (ru_id u) (int (length (ru_parts u)) + 1))"
    using assms(1) by (intro part_keys) (auto simp: upload_ok_def)
  obtain sv1 e1 where p: "store_put en (partKey (ru_deploymentID u) (ru_id u) (int (length (ru_parts u)) + 1)) (Inr (Raw (ru_buffer u))) (int (length (ru_buffer u))) None sv = (sv1, e1)"
    by fastforce
  show ?thesis using assms(2,3) p put_healthy_service [OF k assms(2) p]
    by (auto simp: flushPart_def Let_def split: if_splits prod.splits option.splits)
qed

lemma write_loop_healthy:
  "W sv \<Longrightarrow> ok_inv (C sv) \<Longrightarrow> upload_ok (C sv) u data \<Longrightarrow> healthy (sv_store sv) \<Longrightarrow> 0 < rc_MaxPartBytes (en_cfg en) \<Longrightarrow>
   int (length (ru_buffer u)) < rc_MaxPartBytes (en_cfg en) \<Longrightarrow> write_loop en data u sv = (u', sv', e) \<Longrightarrow>
   healthy (sv_store sv') \<and> e = None \<and> int (length (ru_buffer u')) < rc_MaxPartBytes (en_cfg en)"
proof (induction "length data" arbitrary: data u sv rule: less_induct)
  case less
  let ?limit = "nat (rc_MaxPartBytes (en_cfg en))"
  define n where "n = min (length data) (?limit - length (ru_buffer u))"
  obtain u1 sv1 e1 where c: "write_chunk en (take n data) u sv = (u1, sv1, e1)" by (metis prod_cases3)
  have W1: "upload_step u sv u1 sv1" "e1 = None \<Longrightarrow> upload_ok (C sv1) u1 (drop n data)"
    using write_chunk_upload [OF less.prems(1,2) _ c, of "drop n data"] less.prems(3) by simp_all
  have "upload_ok (C sv) (u\<lparr>ru_buffer := ru_buffer u @ take n data\<rparr>) (drop n data)" using less.prems(3) by (simp add: upload_ok_def)
  then have h: "healthy (sv_store sv1) \<and> e1 = None"
    using c flush_healthy less.prems(4) by (fastforce simp: write_chunk_def Let_def split: if_splits)
  have b: "int (length (ru_buffer u1)) < rc_MaxPartBytes (en_cfg en)"
    using write_chunk_buffer [of en "take n data" u sv u1 sv1] c h less.prems(5,6) by (auto simp: n_def min_def)
  note eq = less.prems(7) [unfolded write_loop.simps [of en data u sv] Let_def, folded n_def, unfolded c prod.case]
  show ?case
  proof (cases "data = []")
    case True
    then show ?thesis using eq less.prems(4,6) by auto
  next
    case False
    then have "length (drop n data) < length data" using less.prems(5,6) by (auto simp: n_def)
    moreover have "write_loop en (drop n data) u1 sv1 = (u', sv', e)" using eq False h less.prems(5,6) by (auto split: if_splits)
    ultimately show ?thesis using less.hyps [of "drop n data" sv1 u1] W1 h b less.prems(5) by (auto simp: upload_step_def)
  qed
qed

lemma write_all_healthy:
  "W sv \<Longrightarrow> ok_inv (C sv) \<Longrightarrow> upload_ok (C sv) u [] \<Longrightarrow> healthy (sv_store sv) \<Longrightarrow> 0 < rc_MaxPartBytes (en_cfg en) \<Longrightarrow>
   int (length (ru_buffer u)) < rc_MaxPartBytes (en_cfg en) \<Longrightarrow> \<not> ru_closed u \<Longrightarrow>
   ru_size u + int (length (concat chunks)) \<le> rc_MaxObjectBytes (en_cfg en) \<Longrightarrow> write_all en chunks u sv = (u', sv', e) \<Longrightarrow>
   healthy (sv_store sv') \<and> e = None"
proof (induction chunks arbitrary: u sv)
  case (Cons b bs)
  obtain u1 sv1 e1 where c: "ResponseUpload_Write en b u sv = (u1, sv1, e1)" by (metis prod_cases3)
  let ?u = "u\<lparr>ru_hashed := ru_hashed u @ b, ru_size := ru_size u + int (length b)\<rparr>"
  have u: "upload_ok (C sv) ?u b" using Cons.prems(3) by (auto simp: upload_ok_def)
  have w: "write_loop en b ?u sv = (u1, sv1, e1)" using c Cons.prems(7,8) by (auto simp: ResponseUpload_Write_def)
  have h: "healthy (sv_store sv1)" "e1 = None" "int (length (ru_buffer u1)) < rc_MaxPartBytes (en_cfg en)"
    using write_loop_healthy [OF Cons.prems(1,2) u Cons.prems(4,5) _ w] Cons.prems(6) by auto
  have s: "upload_step ?u sv u1 sv1" "upload_ok (C sv1) u1 []" using write_loop_upload [OF Cons.prems(1,2) u w] h(2) by auto
  have "write_all en bs u1 sv1 = (u', sv', e)" using Cons.prems(9) c h(2) by simp
  then show ?case using Cons.IH [of sv1 u1] s h Cons.prems(5,7,8) by (auto simp: upload_step_def)
qed simp

lemma read_objects_healthy:
  "\<forall>k \<in> set ks. okkey k \<Longrightarrow> W sv \<Longrightarrow> healthy (sv_store sv) \<Longrightarrow> map (C sv) ks = map (\<lambda>b. Some (Raw b)) bs \<Longrightarrow>
   \<exists>sv'. read_objects en ks sv = (sv', Inr (concat bs)) \<and> healthy (sv_store sv')"
proof (induction ks arbitrary: sv bs)
  case (Cons k ks)
  obtain b bs' where bs: "bs = b # bs'" "C sv k = Some (Raw b)" "map (C sv) ks = map (\<lambda>b. Some (Raw b)) bs'"
    using Cons.prems(4) by (cases bs) auto
  obtain sv1 y where o: "store_open en k sv = (sv1, y)" by fastforce
  have "healthy (sv_store sv1)" "y = Inr (Raw b)"
    using open_healthy [of k "sv_store sv"] Cons.prems(1,3) o bs(2) by (auto simp: store_open_def split: prod.splits)
  then show ?case using Cons.IH [of sv1 bs'] Cons.prems(1) store_open_effect [OF o Cons.prems(2)] bs by (auto simp: o)
qed simp

lemma Commit_healthy:
  assumes "W sv" "ok_inv (C sv)" "upload_ok (C sv) u []" "\<not> ru_closed u" "healthy (sv_store sv)" "Commit en now u sv = (u', sv', x)"
  shows "healthy (sv_store sv') \<and> (\<exists>r. x = Inr r)"
proof -
  let ?d = "ru_deploymentID u" and ?i = "ru_id u"
  obtain u1 sv1 e1 where f: "flushPart en u sv = (u1, sv1, e1)" by (metis prod_cases3)
  note F = flushPart_upload [OF assms(1-3) f]
  have h1: "healthy (sv_store sv1)" "e1 = None" using flush_healthy [OF assms(3,5) f] by auto
  have s1: "W sv1" "ok_inv (C sv1)" and u1: "ru_deploymentID u1 = ?d" "ru_id u1 = ?i" "ru_hashed u1 = ru_hashed u" "ru_size u1 = ru_size u"
    "\<forall>p \<in> set (ru_parts u1). 1 \<le> pt_Number p" using F(1) by (auto simp: upload_step_def)
  have di: "plain_deployment ?d" "validID ?i" using assms(3) by (auto simp: upload_ok_def)
  obtain bs where bs: "map (C sv1) (partKeys ?d ?i (ru_parts u1)) = map (\<lambda>b. Some (Raw b)) bs" "concat bs = ru_hashed u" "ru_size u = int (length (ru_hashed u))"
    using F(2) [OF h1(2)] u1 assms(3) by (auto simp: upload_ok_def)
  let ?u = "u1\<lparr>ru_closed := True\<rparr>" and ?ks = "partKeys ?d ?i (ru_parts u1)"
  define r where "r = response_record en now ?u"
  have ks: "\<forall>k \<in> set ?ks. okkey k" using part_keys_ok [OF di u1(5)] .
  obtain sv2 where dr: "read_objects en ?ks sv1 = (sv2, Inr (ru_hashed u))" and h2: "healthy (sv_store sv2)"
    using read_objects_healthy [OF ks s1(1) h1(1) bs(1)] bs(2) by auto
  obtain sv3 e3 where p: "store_put en (bodyKey ?d ?i) (Inr (Raw (ru_hashed u))) (ru_size u) (Some (''sha256'', rd_SHA256Hex r)) sv2 = (sv3, e3)" by fastforce
  have h3: "healthy (sv_store sv3)" "e3 = None" using put_healthy_service [OF _ h2 p] receipt_keys [OF di] bs(3) by auto
  let ?sv4 = "deleteParts en ?u sv3"
  have h4: "healthy (sv_store ?sv4)" using delete_healthy_service [OF ks h3(1)] u1 by (simp add: deleteParts_def fold_delete_parts)
  obtain sv5 e5 where s: "save en r ?sv4 = (sv5, e5)" by fastforce
  have "healthy (sv_store sv5)" "e5 = None" using save_healthy [OF _ _ h4 s] di u1 by (auto simp: r_def response_record_def)
  then show ?thesis using assms(4,6) f h1 u1 p h3(2) dr s by (auto simp: Commit_def Let_def drain_read_objects simp flip: r_def)
qed

lemma response_roundtrip:
  assumes "plain_deployment d" "W sv" "ok_inv (C sv)" "C sv (recordKey d (newID raw)) = None" "healthy (sv_store sv)"
    and "0 < rc_MaxPartBytes (en_cfg en)" "int (length (concat chunks)) \<le> rc_MaxObjectBytes (en_cfg en)"
    and "\<forall>r. en_json_len en r \<le> maxReceiptRecordBytes" "t < now + rc_Retention (en_cfg en)"
    and "store_response en now raw d chunks sv = (sv', x)"
  shows "\<exists>r. x = Inr r \<and> rd_ID r = newID raw \<and> rd_SizeBytes r = int (length (concat chunks))
    \<and> snd (OpenResponse en t d (newID raw) sv') = Inr (Raw (concat chunks), r)"
proof -
  define u where "u = \<lparr>ru_deploymentID = d, ru_id = newID raw, ru_parts = [], ru_buffer = [], ru_hashed = [], ru_size = 0, ru_closed = False\<rparr>"
  have u: "BeginResponse raw d = Inr u" using assms(1) by (simp add: BeginResponse_def u_def plain_deployment_def)
  have ok: "upload_ok (C sv) u []" using assms(1) newID_valid by (simp add: upload_ok_def u_def partKeys_def)
  obtain u1 sv1 e where w: "write_all en chunks u sv = (u1, sv1, e)" by (metis prod_cases3)
  have h1: "healthy (sv_store sv1)" "e = None"
    using write_all_healthy [OF assms(2,3) ok assms(5,6) _ _ _ w] assms(6,7) by (auto simp: u_def)
  have a: "W sv1" "ok_inv (C sv1)" "upload_ok (C sv1) u1 []" "\<not> ru_closed u1" "ru_hashed u1 = concat chunks" "same_records (C sv) (C sv1)"
    "ru_deploymentID u1 = d" "ru_id u1 = newID raw" using write_all_upload [OF assms(2,3) ok w] h1(2) by (auto simp: u_def)
  obtain u2 where c: "Commit en now u1 sv1 = (u2, sv', x)" using assms(10) h1(2) by (cases "Commit en now u1 sv1") (auto simp: store_response_def u w)
  obtain r where r: "x = Inr r" "healthy (sv_store sv')" using Commit_healthy [OF a(1-4) h1(1) c] by auto
  have none: "C sv1 (recordKey d (newID raw)) = None" using a(6) assms(4) newID_valid by (simp add: same_records_def)
  have C: "W sv'" "r = response_record en now u1" "C sv' (recordKey d (newID raw)) = Some (Doc (en_json_len en r) (json_record r))"
    "C sv' (bodyKey d (newID raw)) = Some (Raw (concat chunks))"
    using Commit_effect [OF a(1-4) _ c] none r(1) a(5,7,8) by auto
  have ru: "ru_size u1 = int (length (concat chunks))" using a(3,5) by (simp add: upload_ok_def)
  have rr: "r = \<lparr>rd_ID = newID raw, rd_DeploymentID = d, rd_Direction = ''response'', rd_State = StateVerified,
      rd_SizeBytes = int (length (concat chunks)), rd_SHA256Hex = sum_hex (en_sha256 en (concat chunks)), rd_Parts = [], rd_CreatedAt = now,
      rd_UpdatedAt = now, rd_ExpiresAt = now + rc_Retention (en_cfg en), rd_AssignedRequestID = [],
      rd_AssignmentExpiresAt = 0, rd_Failure = [], rd_IdempotencyKey = []\<rparr>"
    using C(2) a(5,7,8) ru by (simp add: response_record_def)
  obtain sv2 y where o: "store_open en (recordKey d (newID raw)) sv' = (sv2, y)" by fastforce
  have y: "y = Inr (Doc (en_json_len en r) (json_record r))" "healthy (sv_store sv2)"
    using open_healthy [of "recordKey d (newID raw)" "sv_store sv'"] receipt_keys [OF assms(1) newID_valid] r(2) o C(3)
    by (auto simp: store_open_def split: prod.splits)
  have l: "load en d (newID raw) sv' = (sv2, Inr r)" using assms(8) by (simp add: load_def o y decodeRecord_def json_record_def rr)
  obtain sv3 z where o2: "store_open en (bodyKey d (newID raw)) sv2 = (sv3, z)" by fastforce
  have "z = Inr (Raw (concat chunks))"
    using open_healthy [of "bodyKey d (newID raw)" "sv_store sv2"] receipt_keys [OF assms(1) newID_valid] y(2) o2 C(4) store_open_effect [OF o C(1)]
    by (auto simp: store_open_def split: prod.splits)
  then have "snd (OpenResponse en t d (newID raw) sv') = Inr (Raw (concat chunks), r)"
    using assms(9) newID_valid by (simp add: OpenResponse_def l open_body_def o2 receipt_expired_def rr)
  then show ?thesis using r(1) rr by simp
qed

lemma Prepare_assigns:
  assumes "plain_deployment d" "W sv" "ok_inv (C sv)" "PrepareRequest en now d i q sv = (sv', Inr ref)"
  shows "validID i \<and> (\<exists>n r. C sv' (recordKey d i) = Some (Doc n r) \<and> rd_State r = StateAssigned \<and> rd_AssignedRequestID r = q
    \<and> rd_AssignmentExpiresAt r = now + rc_AssignmentTTL (en_cfg en))"
proof -
  obtain sv1 y where l: "load en d i sv = (sv1, y)" by fastforce
  have v: "validID i" using assms(4) by (auto simp: PrepareRequest_def validAssignmentInput_def split: if_splits)
  note L = load_effect [OF assms(1) v l assms(2)]
  obtain r where r: "y = Inr r" using assms(4) by (auto simp: PrepareRequest_def l split: if_splits sum.splits)
  have rid: "rd_ID r = i \<and> rd_DeploymentID r = d" using L r receipts_invD(1) [OF assms(3) _ v] by auto
  let ?r = "(releaseExpiredAssignment now r)\<lparr>rd_State := StateAssigned, rd_AssignedRequestID := q,
      rd_AssignmentExpiresAt := now + rc_AssignmentTTL (en_cfg en), rd_UpdatedAt := now\<rparr>"
  let ?sv2 = "sv1\<lparr>sv_stats := (sv_stats sv1)\<lparr>rs_Assigned := rs_Assigned (sv_stats sv1) + 1\<rparr>\<rparr>"
  have s: "save en ?r ?sv2 = (sv', None)"
    using assms(4) by (auto simp: PrepareRequest_def l r Let_def split: if_splits prod.splits option.splits)
  have "C sv' (recordKey d i) = Some (Doc (en_json_len en ?r) (json_record ?r))"
    using save_effect [OF _ _ s] L rid v assms(1) by (auto simp: releaseExpiredAssignment_def)
  then show ?thesis using v by (simp add: json_record_def)
qed

lemma Finish_consumes:
  assumes "plain_deployment d" "W sv" "ok_inv (C sv)" "FinishRequest en now d i q True sv = (sv', None)"
  shows "validID i \<and> (\<exists>n r. C sv' (recordKey d i) = Some (Doc n r) \<and> rd_State r = StateConsumed)"
proof -
  obtain sv1 y where l: "load en d i sv = (sv1, y)" by fastforce
  have v: "validID i" using assms(4) by (auto simp: FinishRequest_def split: if_splits)
  note L = load_effect [OF assms(1) v l assms(2)]
  obtain r where r: "y = Inr r" using assms(4) by (auto simp: FinishRequest_def l split: if_splits sum.splits)
  have rid: "rd_ID r = i \<and> rd_DeploymentID r = d" using L r receipts_invD(1) [OF assms(3) _ v] by auto
  let ?r = "r\<lparr>rd_State := StateConsumed, rd_AssignedRequestID := [], rd_AssignmentExpiresAt := 0, rd_UpdatedAt := now\<rparr>"
  let ?sv2 = "sv1\<lparr>sv_stats := (sv_stats sv1)\<lparr>rs_Consumed := rs_Consumed (sv_stats sv1) + 1\<rparr>\<rparr>"
  have s: "save en ?r ?sv2 = (sv', None)"
    using assms(4) by (auto simp: FinishRequest_def l r Let_def split: if_splits)
  have "C sv' (recordKey d i) = Some (Doc (en_json_len en ?r) (json_record ?r))"
    using save_effect [OF _ _ s] L rid v assms(1) by auto
  then show ?thesis using v by (simp add: json_record_def)
qed

end

section \<open>The service over the local store\<close>

definition local_env :: "string \<Rightarrow> ReceiptConfig \<Rightarrow> (bytes \<Rightarrow> 256 word) \<Rightarrow> (bytes \<Rightarrow> bytes \<Rightarrow> 256 word) \<Rightarrow> (Record \<Rightarrow> nat) \<Rightarrow> Record LocalFS Env" where
  "local_env dir cfg sha hmac json_len = \<lparr>en_store = Local (CHR ''/'' # dir), en_cfg = cfg, en_sha256 = sha, en_hmac = hmac,
     en_json_len = json_len\<rparr>"

definition new_service :: "bool list \<Rightarrow> Record LocalFS Service" where
  "new_service faults = \<lparr>sv_store = \<lparr>lf_files = [], lf_faults = faults\<rparr>,
     sv_stats = \<lparr>rs_Created = 0, rs_Parts = 0, rs_Verified = 0, rs_Rejected = 0, rs_Assigned = 0, rs_Consumed = 0, rs_Expired = 0\<rparr>\<rparr>"

definition stored_record :: "Record LocalFS Service \<Rightarrow> string \<Rightarrow> string \<Rightarrow> Record content option" where
  "stored_record sv d i = local_contents (sv_store sv) (recordKey d i)"

definition independent_run :: "(instant \<times> receipt_op) list \<Rightarrow> bool" where
  "independent_run ops \<longleftrightarrow> list_all (\<lambda>(t, op). op_deployment op) ops \<and> distinct (op_ids ops)"

lemma local_env_simps [simp]:
  "en_store (local_env dir cfg sha hmac jl) = Local (CHR ''/'' # dir)" "en_cfg (local_env dir cfg sha hmac jl) = cfg"
  "en_sha256 (local_env dir cfg sha hmac jl) = sha" "en_json_len (local_env dir cfg sha hmac jl) = jl"
  by (simp_all add: local_env_def)

interpretation local_receipts: receipt_service "local_env dir cfg sha hmac jl" local_contents plain_key local_wf no_faults
  for dir cfg sha hmac jl
proof (rule receipt_service.intro)
  show "object_store (en_store (local_env dir cfg sha hmac jl)) local_contents plain_key local_wf no_faults"
    by (simp add: local_store.object_store_axioms)
qed (unfold_locales, simp_all add: receipt_keys_plain idempotency_key_plain)

lemma new_service_ok [simp]:
  "local_wf (sv_store (new_service faults))" "local_contents (sv_store (new_service faults)) k = None"
  "receipts_inv sha (local_contents (sv_store (new_service faults)))"
  by (simp_all add: new_service_def local_wf_def local_contents_def receipts_inv_def)

lemma independent_fresh: "independent_run ops \<Longrightarrow> fresh_run ops (local_contents (sv_store (new_service faults)))"
  by (auto simp: independent_run_def fresh_run_def list_all_iff)

lemma independent_run_keeps:
  assumes "independent_run (ops @ ops')"
  shows "local_wf (sv_store (run_receipts (local_env dir cfg sha hmac jl) ops (new_service faults)))
    \<and> receipts_inv sha (local_contents (sv_store (run_receipts (local_env dir cfg sha hmac jl) ops (new_service faults))))
    \<and> fresh_run ops' (local_contents (sv_store (run_receipts (local_env dir cfg sha hmac jl) ops (new_service faults))))"
  using local_receipts.run_keeps [OF independent_fresh [OF assms]] by simp

text \<open>A concrete deployment with a toy digest, and a run that uploads and verifies a request body.\<close>

definition demo_cfg :: ReceiptConfig where
  "demo_cfg = \<lparr>rc_DownloadBaseURL = ''u'', rc_SigningKey = ''k'', rc_MaxObjectBytes = 100, rc_MaxPartBytes = 4, rc_Retention = 1000, rc_AssignmentTTL = 50\<rparr>"

abbreviation "demo_env \<equiv> local_env ''d'' demo_cfg (\<lambda>b. of_nat (length b)) (\<lambda>k m. 7) (\<lambda>r. 10)"

definition demo_id :: string where "demo_id = ''rcpt_00000000000000000000000000000001''"

definition demo_digest :: string where "demo_digest = ''0000000000000000000000000000000000000000000000000000000000000002''"

definition demo_ops :: "(instant \<times> receipt_op) list" where
  "demo_ops = [(0, OpCreate 1 ''d'' \<lparr>ci_Direction = ''request'', ci_SizeBytes = 2, ci_SHA256Hex = demo_digest, ci_IdempotencyKey = []\<rparr>),
     (1, OpPutPart ''d'' demo_id 1 (Inr ''hi'') 2 demo_digest), (3, OpComplete ''d'' demo_id)]"

abbreviation demo_verified :: "Record LocalFS Service" where "demo_verified \<equiv> run_receipts demo_env demo_ops (new_service [])"

definition demo_signature :: string where "demo_signature = ''0000000000000000000000000000000000000000000000000000000000000007''"

definition demo_steps_ok :: bool where
  "demo_steps_ok = (case PrepareRequest demo_env 4 ''d'' demo_id ''q'' demo_verified of
     (sv, Inl e) \<Rightarrow> False
   | (sv, Inr ref) \<Rightarrow> snd (FinishRequest demo_env 5 ''d'' demo_id ''q'' True sv) = None
       \<and> (case snd (OpenAssigned demo_env 5 demo_id ''d'' ''q'' ''54'' demo_signature sv) of Inl e \<Rightarrow> False | Inr (c, r) \<Rightarrow> c = Raw ''hi''))"

definition demo_state :: "(instant \<times> receipt_op) list \<Rightarrow> ReceiptState option" where
  "demo_state ops = (case stored_record (run_receipts demo_env ops (new_service [])) ''d'' demo_id of
     Some (Doc n r) \<Rightarrow> Some (rd_State r) | _ \<Rightarrow> None)"

text \<open>The service performs transitions outside its table: cleanup expires a cancelled receipt.\<close>

lemma transition_outside_policy:
  "demo_state (take 1 demo_ops @ [(1, OpCancel ''d'' demo_id)]) = Some StateCancelled
   \<and> demo_state (take 1 demo_ops @ [(1, OpCancel ''d'' demo_id), (1000, OpCleanup)]) = Some StateExpired
   \<and> \<not> canTransition StateCancelled StateExpired"
  by code_simp

lemma demo_steps: demo_steps_ok
  by code_simp

lemma demo_prepared:
  obtains sv ref sv1 r where "PrepareRequest demo_env 4 ''d'' demo_id ''q'' demo_verified = (sv, Inr ref)"
    "sv = run_receipts demo_env (demo_ops @ [(4, OpPrepare ''d'' demo_id ''q'')]) (new_service [])"
    "snd (FinishRequest demo_env 5 ''d'' demo_id ''q'' True sv) = None"
    "OpenAssigned demo_env 5 demo_id ''d'' ''q'' ''54'' demo_signature sv = (sv1, Inr (Raw ''hi'', r))"
proof -
  obtain sv x where p: "PrepareRequest demo_env 4 ''d'' demo_id ''q'' demo_verified = (sv, x)" by fastforce
  obtain sv1 y where o: "OpenAssigned demo_env 5 demo_id ''d'' ''q'' ''54'' demo_signature sv = (sv1, y)" by fastforce
  obtain ref where x: "x = Inr ref" using demo_steps p by (cases x) (simp_all add: demo_steps_ok_def)
  obtain r where "y = Inr (Raw ''hi'', r)" using demo_steps p o x by (cases y) (auto simp: demo_steps_ok_def)
  moreover have "snd (FinishRequest demo_env 5 ''d'' demo_id ''q'' True sv) = None" using demo_steps p x by (simp add: demo_steps_ok_def)
  moreover have "sv = run_receipts demo_env (demo_ops @ [(4, OpPrepare ''d'' demo_id ''q'')]) (new_service [])"
    using p by (simp add: run_receipts_def)
  ultimately show thesis using that p x o by blast
qed

lemma demo_independent: "independent_run demo_ops" "independent_run (demo_ops @ [(4, OpPrepare ''d'' demo_id ''q'')])"
  "independent_run (demo_ops @ [(5, OpCancel ''d'' demo_id)])"
  "independent_run ((demo_ops @ [(4, OpPrepare ''d'' demo_id ''q'')]) @ [(5, OpFinish ''d'' demo_id ''q'' True)])"
  by (simp_all add: independent_run_def demo_ops_def op_ids_def plain_deployment_def)

text \<open>
  C6: From an empty directory, whatever operations run at whatever times and whichever calls of the
  filesystem fail, every body handed out by \<open>OpenAssigned\<close> or \<open>OpenResponse\<close> is the one the receipt
  declares: raw bytes of the recorded size whose SHA-256 is the recorded one.
\<close>

theorem downloads_verified:
  assumes "independent_run ops" "plain_deployment d"
    and "sv = run_receipts (local_env dir cfg sha hmac jl) ops (new_service faults)"
    and "OpenAssigned (local_env dir cfg sha hmac jl) t i d q ex sig sv = (sv', Inr (c, r))
       \<or> OpenResponse (local_env dir cfg sha hmac jl) t d i sv = (sv', Inr (c, r))"
  shows "\<exists>b. c = Raw b \<and> int (length b) = rd_SizeBytes r \<and> EqualFold (sum_hex (sha b)) (rd_SHA256Hex r) \<and> rd_ID r = i \<and> rd_DeploymentID r = d"
  using local_receipts.downloads [OF assms(2) _ _ assms(4)] independent_run_keeps [of ops "[]" dir cfg sha hmac jl faults] assms(1,3)
  by (auto simp: body_of_def)

theorem downloads_verified_witness:
  "\<exists>sv' r. OpenAssigned demo_env 5 demo_id ''d'' ''q'' ''54'' demo_signature
      (run_receipts demo_env (demo_ops @ [(4, OpPrepare ''d'' demo_id ''q'')]) (new_service [])) = (sv', Inr (Raw ''hi'', r))
    \<and> EqualFold (sum_hex 2) (rd_SHA256Hex r)"
proof -
  obtain sv' r where o: "OpenAssigned demo_env 5 demo_id ''d'' ''q'' ''54'' demo_signature
      (run_receipts demo_env (demo_ops @ [(4, OpPrepare ''d'' demo_id ''q'')]) (new_service [])) = (sv', Inr (Raw ''hi'', r))"
    using demo_prepared by metis
  then show ?thesis
    using downloads_verified [OF demo_independent(2), of "''d''"] by (fastforce simp: plain_deployment_def)
qed



text \<open>
  C17: A successful \<open>PrepareRequest\<close> gives the receipt to one request: until its assignment expires or that
  request is finished, no sequence of operations makes the receipt available to another call of
  \<open>PrepareRequest\<close>.
\<close>

theorem claim_exclusive:
  assumes "independent_run (ops @ ops')" "plain_deployment d"
    and "PrepareRequest (local_env dir cfg sha hmac jl) t d i q (run_receipts (local_env dir cfg sha hmac jl) ops (new_service faults)) = (sv, Inr ref)"
    and "\<forall>(t1, op) \<in> set ops'. t1 < t + rc_AssignmentTTL cfg \<and> op \<noteq> OpFinish d i q True \<and> op \<noteq> OpFinish d i q False"
    and "t' < t + rc_AssignmentTTL cfg"
  shows "\<exists>e. snd (PrepareRequest (local_env dir cfg sha hmac jl) t' d i q' (run_receipts (local_env dir cfg sha hmac jl) ops' sv)) = Inl e"
proof -
  let ?en = "local_env dir cfg sha hmac jl" and ?op = "OpPrepare d i q"
  have "independent_run ((ops @ [(t, ?op)]) @ ops')" using assms(1,2) by (simp add: independent_run_def op_ids_def)
  from independent_run_keeps [OF this, of dir cfg sha hmac jl faults]
  have K: "local_wf (sv_store sv)" "receipts_inv sha (local_contents (sv_store sv))" "fresh_run ops' (local_contents (sv_store sv))"
    using assms(3) by (simp_all add: run_receipts_def)
  have w: "local_wf (sv_store (run_receipts ?en ops (new_service faults)))"
    "receipts_inv sha (local_contents (sv_store (run_receipts ?en ops (new_service faults))))" using independent_run_keeps [OF assms(1)] by blast+
  obtain n r where r: "validID i" "local_contents (sv_store sv) (recordKey d i) = Some (Doc n r)" "rd_State r = StateAssigned"
    "rd_AssignedRequestID r = q" "rd_AssignmentExpiresAt r = t + rc_AssignmentTTL cfg"
    using local_receipts.Prepare_assigns [OF assms(2) w(1) _ assms(3)] w(2) by auto
  have "\<forall>(t1, op) \<in> set ops'. t1 < t + rc_AssignmentTTL cfg \<and> (\<forall>c. op \<noteq> OpFinish d i q c)"
    using assms(4) by (fastforce split: prod.splits)
  then show ?thesis using local_receipts.claim_held [OF K(3,1) _ assms(2) r(1-5) _ assms(5)] K(2) by simp
qed

theorem claim_exclusive_witness:
  "\<exists>sv ref. PrepareRequest demo_env 4 ''d'' demo_id ''q'' demo_verified = (sv, Inr ref)
    \<and> (\<exists>e. snd (PrepareRequest demo_env 6 ''d'' demo_id ''p'' (run_receipts demo_env [(5, OpCancel ''d'' demo_id)] sv)) = Inl e)"
proof -
  obtain sv ref where p: "PrepareRequest demo_env 4 ''d'' demo_id ''q'' demo_verified = (sv, Inr ref)" using demo_prepared by metis
  then show ?thesis using claim_exclusive [OF demo_independent(3) _ p, of 6 "''p''"] by (simp add: plain_deployment_def demo_cfg_def)
qed

text \<open>
  C20: A receipt is used at most once: after \<open>FinishRequest\<close> has recorded it as consumed, no later sequence
  of operations lets a request be prepared with it or its body be opened for an assignment.
\<close>

theorem consumed_never_reused:
  assumes "independent_run (ops @ ops')" "plain_deployment d"
    and "FinishRequest (local_env dir cfg sha hmac jl) t d i q True (run_receipts (local_env dir cfg sha hmac jl) ops (new_service faults)) = (sv, None)"
  shows "(\<exists>e. snd (PrepareRequest (local_env dir cfg sha hmac jl) t' d i q' (run_receipts (local_env dir cfg sha hmac jl) ops' sv)) = Inl e)
    \<and> (\<exists>e. snd (OpenAssigned (local_env dir cfg sha hmac jl) t' i d q' ex sig (run_receipts (local_env dir cfg sha hmac jl) ops' sv)) = Inl e)"
proof -
  let ?en = "local_env dir cfg sha hmac jl" and ?op = "OpFinish d i q True"
  have "independent_run ((ops @ [(t, ?op)]) @ ops')" using assms(1,2) by (simp add: independent_run_def op_ids_def)
  from independent_run_keeps [OF this, of dir cfg sha hmac jl faults]
  have K: "local_wf (sv_store sv)" "receipts_inv sha (local_contents (sv_store sv))" "fresh_run ops' (local_contents (sv_store sv))"
    using assms(3) by (simp_all add: run_receipts_def)
  have w: "local_wf (sv_store (run_receipts ?en ops (new_service faults)))"
    "receipts_inv sha (local_contents (sv_store (run_receipts ?en ops (new_service faults))))" using independent_run_keeps [OF assms(1)] by blast+
  obtain n r where r: "validID i" "local_contents (sv_store sv) (recordKey d i) = Some (Doc n r)" "rd_State r = StateConsumed"
    using local_receipts.Finish_consumes [OF assms(2) w(1) _ assms(3)] w(2) by auto
  then show ?thesis using local_receipts.dead_stays [OF K(3,1) _ assms(2) r(1,2)] K(2) by simp
qed

theorem consumed_never_reused_witness:
  "\<exists>sv. FinishRequest demo_env 5 ''d'' demo_id ''q'' True
       (run_receipts demo_env (demo_ops @ [(4, OpPrepare ''d'' demo_id ''q'')]) (new_service [])) = (sv, None)
    \<and> (\<exists>e. snd (PrepareRequest demo_env 7 ''d'' demo_id ''p'' (run_receipts demo_env [] sv)) = Inl e)"
proof -
  obtain sv where p: "FinishRequest demo_env 5 ''d'' demo_id ''q'' True
       (run_receipts demo_env (demo_ops @ [(4, OpPrepare ''d'' demo_id ''q'')]) (new_service [])) = (sv, None)"
    using demo_prepared by (metis prod.collapse)
  then show ?thesis using consumed_never_reused [OF _ _ p, of "[]"] demo_independent(2) by (simp add: plain_deployment_def)
qed



end
