(* ===== verification/Config_Snapshot.thy ===== *)
theory Config_Snapshot
  imports Config_Types Dest_Policy
begin

text \<open>
  Preparation of a runtime configuration before it is activated
  (\<open>internal/config/snapshot_validate.go\<close>): every destination rule is normalized from its raw pattern
  and the whole snapshot is validated.  An error keeps the format string and its arguments; a wrapped
  cause is the optional last argument.  Where the code ranges over a Go map the fields are visited in
  the order they are written, which decides only which of several errors is reported.
  The argument \<open>idna\<close> is \<open>snapshotIDNA.ToASCII\<close> of \<open>golang.org/x/net/idna\<close>.
\<close>

section \<open>Characters and strings\<close>

definition snapshotIDAllowed :: "char \<Rightarrow> bool" where
  "snapshotIDAllowed c \<longleftrightarrow> is_lower c \<or> is_upper c \<or> is_digit c \<or> c \<in> set ''-_.:''"

definition snapshotHTTPTokenAllowed :: "char \<Rightarrow> bool" where
  "snapshotHTTPTokenAllowed c \<longleftrightarrow> is_digit c \<or> is_upper c \<or> is_lower c \<or> c \<in> set ''!#$%&*+-.^_|~'' \<or> c = CHR 0x27 \<or> c = CHR 0x60"

abbreviation MaxUpstreamProxyIDBytes :: nat where "MaxUpstreamProxyIDBytes \<equiv> 128"
abbreviation maxSnapshotStringBytes :: nat where "maxSnapshotStringBytes \<equiv> 1024"
abbreviation maxSnapshotListBytes :: nat where "maxSnapshotListBytes \<equiv> 128"
abbreviation maxSnapshotTagBytes :: nat where "maxSnapshotTagBytes \<equiv> 64"

datatype snapshot_error =
    ErrInvalidSnapshot string "string list" "snapshot_error option"
  | ErrSnapshotField string "snapshot_error option"
  | ErrNetip

abbreviation snapshotError :: "string \<Rightarrow> snapshot_error" where
  "snapshotError message \<equiv> ErrSnapshotField message None"

abbreviation wrapSnapshotError :: "snapshot_error \<Rightarrow> snapshot_error" where
  "wrapSnapshotError err \<equiv> ErrSnapshotField [] (Some err)"

abbreviation invalid :: "string \<Rightarrow> string list \<Rightarrow> snapshot_error option" where
  "invalid message args \<equiv> Some (ErrInvalidSnapshot message args None)"

definition validSnapshotString :: "string \<Rightarrow> nat \<Rightarrow> bool" where
  "validSnapshotString v maxBytes \<longleftrightarrow> length v \<le> maxBytes \<and> utf8_valid v"

definition validSnapshotID :: "string \<Rightarrow> bool" where
  "validSnapshotID v \<longleftrightarrow> v \<noteq> [] \<and> length v \<le> MaxUpstreamProxyIDBytes \<and> list_all snapshotIDAllowed v"

definition validHTTPHeaderName :: "string \<Rightarrow> bool" where
  "validHTTPHeaderName v \<longleftrightarrow> v \<noteq> [] \<and> length v \<le> 256 \<and> list_all snapshotHTTPTokenAllowed v"

definition isDeniedInjectionHeader :: "string \<Rightarrow> bool" where
  "isDeniedInjectionHeader v = (let lower = to_lower v in
     lower = ''host'' \<or> lower = ''content-length'' \<or> lower = ''transfer-encoding'' \<or> lower = ''connection''
     \<or> lower = ''proxy-authorization'' \<or> has_prefix lower ''x-straw-'')"

definition asciiLetters :: "string \<Rightarrow> bool" where
  "asciiLetters v = list_all (\<lambda>c. is_upper c \<or> is_lower c) v"

definition config_isMetadataIP :: "Addr \<Rightarrow> bool" where
  "config_isMetadataIP a \<longleftrightarrow> a \<in> set [ip4 169 254 169 254, ip4 169 254 169 253, ip4 169 254 170 2,
     ip4 100 100 100 200, ip4 100 100 100 201]"

fun validate_strings :: "string \<Rightarrow> string list \<Rightarrow> nat \<Rightarrow> string list \<Rightarrow> snapshot_error option" where
  "validate_strings name [] maxBytes seen = None"
| "validate_strings name (v # vs) maxBytes seen =
     (if \<not> validSnapshotString v maxBytes \<or> trim_space v \<noteq> v \<or> v = [] then invalid ''%s contains an invalid value'' [name]
      else if v \<in> set seen then invalid ''%s contains a duplicate value'' [name]
      else validate_strings name vs maxBytes (v # seen))"

definition validateStringList :: "string \<Rightarrow> string list \<Rightarrow> nat \<Rightarrow> snapshot_error option" where
  "validateStringList name vs maxBytes = validate_strings name vs maxBytes []"

section \<open>Host names\<close>

definition validateHostnameLabel :: "string \<Rightarrow> snapshot_error option" where
  "validateHostnameLabel label =
     (if list_all (\<lambda>c. is_lower c \<or> is_digit c \<or> c = CHR ''-'') label then None
      else Some (snapshotError ''hostname label contains an invalid character''))"

fun validate_labels :: "string list \<Rightarrow> snapshot_error option" where
  "validate_labels [] = None"
| "validate_labels (l # ls) =
     (if l = [] \<or> 63 < length l \<or> hd l = CHR ''-'' \<or> last l = CHR ''-'' then Some (snapshotError ''hostname label is invalid'')
      else case validateHostnameLabel l of Some e \<Rightarrow> Some e | None \<Rightarrow> validate_labels ls)"

definition validateHostnameLabels :: "string \<Rightarrow> snapshot_error option" where
  "validateHostnameLabels host = validate_labels (split_on CHR ''.'' host)"

definition contains_any :: "string \<Rightarrow> string \<Rightarrow> bool" where
  "contains_any s chars = list_ex (\<lambda>c. c \<in> set chars) s"

definition normalizeHostPattern :: "(string \<Rightarrow> string option) \<Rightarrow> string \<Rightarrow> snapshot_error + string" where
  "normalizeHostPattern idna raw0 =
     (let raw = trim_suffix (to_lower (trim_space raw0)) ''.'' in
      if raw = [] \<or> contains_any raw [CHR '' '', CHR ''/'', CHR 0x5C, CHR 0x09, CHR 0x0D, CHR 0x0A] then
        Inl (snapshotError ''hostname is empty or contains invalid characters'')
      else case ParseAddr raw of
        Some a \<Rightarrow> Inr (addr_string (Unmap a))
      | None \<Rightarrow>
         (case idna raw of
            None \<Rightarrow> Inl (snapshotError ''hostname is not valid IDNA'')
          | Some ascii \<Rightarrow>
             if ascii = [] \<or> 253 < length ascii then Inl (snapshotError ''hostname is not valid IDNA'')
             else let ascii = to_lower (trim_suffix ascii ''.'') in
               (case validateHostnameLabels ascii of Some e \<Rightarrow> Inl e | None \<Rightarrow> Inr ascii)))"

section \<open>Destination rules\<close>

definition hasNormalizedDestination :: "DenyRule \<Rightarrow> bool" where
  "hasNormalizedDestination r \<longleftrightarrow> dr_NormalizedHost r \<noteq> [] \<or> dr_NormalizedCIDR r \<noteq> [] \<or> dr_NormalizedIP r \<noteq> [] \<or> dr_NormalizedName r \<noteq> []"

definition countNormalizedDestination :: "DenyRule \<Rightarrow> nat" where
  "countNormalizedDestination r =
     length (filter (\<lambda>v. v \<noteq> []) [dr_NormalizedHost r, dr_NormalizedCIDR r, dr_NormalizedIP r, dr_NormalizedName r])"

definition clear_normalized :: "DenyRule \<Rightarrow> DenyRule" where
  "clear_normalized r = r\<lparr>dr_NormalizedHost := [], dr_NormalizedCIDR := [], dr_NormalizedIP := [], dr_NormalizedName := []\<rparr>"

definition normalizeRawHost :: "(string \<Rightarrow> string option) \<Rightarrow> DenyRule \<Rightarrow> string \<Rightarrow> snapshot_error + DenyRule" where
  "normalizeRawHost idna r raw = (case normalizeHostPattern idna raw of
     Inl e \<Rightarrow> Inl e
   | Inr normalized \<Rightarrow>
      if ParseAddr normalized \<noteq> None then Inl (snapshotError ''host rules must contain a hostname, not an IP'')
      else Inr (r\<lparr>dr_NormalizedHost := normalized\<rparr>))"

definition normalizeRawSuffix :: "(string \<Rightarrow> string option) \<Rightarrow> DenyRule \<Rightarrow> string \<Rightarrow> snapshot_error + DenyRule" where
  "normalizeRawSuffix idna r raw0 =
     (let raw = trim_prefix (trim_prefix raw0 ''*.'') ''.'' in
      if raw = [] \<or> contains_any raw ''*?/'' then Inl (snapshotError ''suffix is malformed'')
      else case normalizeHostPattern idna raw of
        Inl e \<Rightarrow> Inl e
      | Inr normalized \<Rightarrow>
         if ParseAddr normalized \<noteq> None then Inl (snapshotError ''suffix rules must contain a hostname, not an IP'')
         else if dr_RuleType r = ''host_suffix'' then Inr (r\<lparr>dr_NormalizedHost := normalized\<rparr>)
         else Inr (r\<lparr>dr_NormalizedName := normalized\<rparr>))"

definition normalizeRawCIDR :: "DenyRule \<Rightarrow> string \<Rightarrow> snapshot_error + DenyRule" where
  "normalizeRawCIDR r raw = (case ParsePrefix raw of
     None \<Rightarrow> Inl (wrapSnapshotError ErrNetip)
   | Some p0 \<Rightarrow>
      (let p = prefix_masked p0 in
       if dr_RuleType r = ''private_range'' \<and> \<not> IsPrivate (prefix_addr p) then
         Inl (snapshotError ''private_range must be a private CIDR'')
       else Inr (r\<lparr>dr_NormalizedCIDR := prefix_string p\<rparr>)))"

definition normalizeRawIP :: "DenyRule \<Rightarrow> string \<Rightarrow> snapshot_error + DenyRule" where
  "normalizeRawIP r raw = (case ParseAddr raw of
     None \<Rightarrow> Inl (wrapSnapshotError ErrNetip)
   | Some a0 \<Rightarrow>
      (let a = Unmap a0 in
       if dr_RuleType r = ''metadata_ip'' \<and> \<not> config_isMetadataIP a then
         Inl (snapshotError ''metadata_ip is not a recognized metadata address'')
       else Inr (r\<lparr>dr_NormalizedIP := addr_string a\<rparr>)))"

definition canonicalizeLegacyDestination :: "(string \<Rightarrow> string option) \<Rightarrow> DenyRule \<Rightarrow> snapshot_error + DenyRule" where
  "canonicalizeLegacyDestination idna r0 =
     (let r = clear_normalized r0 in
      if dr_RuleType r = ''host'' then normalizeRawHost idna r (dr_NormalizedHost r0)
      else if dr_RuleType r = ''host_suffix'' then normalizeRawSuffix idna r (dr_NormalizedHost r0)
      else if dr_RuleType r = ''cname_suffix'' then normalizeRawSuffix idna r (dr_NormalizedName r0)
      else if dr_RuleType r = ''cidr'' \<or> dr_RuleType r = ''private_range'' then normalizeRawCIDR r (dr_NormalizedCIDR r0)
      else if dr_RuleType r = ''ip'' \<or> dr_RuleType r = ''metadata_ip'' then normalizeRawIP r (dr_NormalizedIP r0)
      else Inl (snapshotError ''unsupported rule_type''))"

definition normalizeDestinationRule :: "(string \<Rightarrow> string option) \<Rightarrow> DenyRule \<Rightarrow> snapshot_error + DenyRule" where
  "normalizeDestinationRule idna r0 =
     (if dr_RawPattern r0 = [] then
        if \<not> hasNormalizedDestination r0 then Inl (snapshotError ''raw_pattern is required'')
        else (case canonicalizeLegacyDestination idna r0 of
          Inl e \<Rightarrow> Inl (ErrSnapshotField ''invalid legacy normalization'' (Some e))
        | Inr r \<Rightarrow> Inr r)
      else let raw = trim_space (dr_RawPattern r0) in
        if raw = [] then Inl (snapshotError ''raw_pattern is invalid'')
        else let r = clear_normalized r0 in
          if dr_RuleType r = ''host'' then normalizeRawHost idna r raw
          else if dr_RuleType r = ''host_suffix'' \<or> dr_RuleType r = ''cname_suffix'' then normalizeRawSuffix idna r raw
          else if dr_RuleType r = ''cidr'' \<or> dr_RuleType r = ''private_range'' then normalizeRawCIDR r raw
          else if dr_RuleType r = ''ip'' \<or> dr_RuleType r = ''metadata_ip'' then normalizeRawIP r raw
          else Inl (snapshotError ''unsupported rule_type''))"

fun normalizeDestinationRules :: "(string \<Rightarrow> string option) \<Rightarrow> DenyRule list \<Rightarrow> snapshot_error + DenyRule list" where
  "normalizeDestinationRules idna [] = Inr []"
| "normalizeDestinationRules idna (r # rs) = (case normalizeDestinationRule idna r of
     Inl e \<Rightarrow> Inl (ErrInvalidSnapshot ''destination rule %q raw_pattern is invalid'' [dr_ID r] (Some e))
   | Inr r' \<Rightarrow> (case normalizeDestinationRules idna rs of Inl e \<Rightarrow> Inl e | Inr rs' \<Rightarrow> Inr (r' # rs')))"

definition validateNormalizedHost :: "(string \<Rightarrow> string option) \<Rightarrow> string \<Rightarrow> bool \<Rightarrow> snapshot_error option" where
  "validateNormalizedHost idna v rejectIP =
     (if v = [] then Some (snapshotError ''hostname normalization is empty'')
      else if normalizeHostPattern idna v \<noteq> Inr v then Some (snapshotError ''hostname normalization is invalid'')
      else if rejectIP \<and> ParseAddr v \<noteq> None then Some (snapshotError ''host rules must contain a hostname, not an IP'')
      else None)"

definition validateNormalizedCIDR :: "DenyRule \<Rightarrow> snapshot_error option" where
  "validateNormalizedCIDR r = (case ParsePrefix (dr_NormalizedCIDR r) of
     None \<Rightarrow> Some (snapshotError ''CIDR normalization is invalid'')
   | Some p \<Rightarrow>
      if prefix_string p \<noteq> dr_NormalizedCIDR r then Some (snapshotError ''CIDR normalization is invalid'')
      else if dr_RuleType r = ''private_range'' \<and> \<not> IsPrivate (prefix_addr p) then Some (snapshotError ''private_range must be a private CIDR'')
      else None)"

definition validateNormalizedIP :: "DenyRule \<Rightarrow> snapshot_error option" where
  "validateNormalizedIP r = (case ParseAddr (dr_NormalizedIP r) of
     None \<Rightarrow> Some (snapshotError ''IP normalization is invalid'')
   | Some a \<Rightarrow>
      if addr_string a \<noteq> dr_NormalizedIP r then Some (snapshotError ''IP normalization is invalid'')
      else if dr_RuleType r = ''metadata_ip'' \<and> \<not> config_isMetadataIP a then Some (snapshotError ''IP normalization is invalid'')
      else None)"

definition validateNormalizedDestination :: "(string \<Rightarrow> string option) \<Rightarrow> DenyRule \<Rightarrow> snapshot_error option" where
  "validateNormalizedDestination idna r =
     (if countNormalizedDestination r \<noteq> 1 then Some (snapshotError ''exactly one normalized destination field is required'')
      else if dr_RuleType r = ''host'' then validateNormalizedHost idna (dr_NormalizedHost r) True
      else if dr_RuleType r = ''host_suffix'' then validateNormalizedHost idna (dr_NormalizedHost r) False
      else if dr_RuleType r = ''cname_suffix'' then validateNormalizedHost idna (dr_NormalizedName r) False
      else if dr_RuleType r = ''cidr'' \<or> dr_RuleType r = ''private_range'' then validateNormalizedCIDR r
      else if dr_RuleType r = ''ip'' \<or> dr_RuleType r = ''metadata_ip'' then validateNormalizedIP r
      else Some (snapshotError ''unsupported rule_type''))"

fun validate_rules :: "(string \<Rightarrow> string option) \<Rightarrow> DenyRule list \<Rightarrow> string list \<Rightarrow> snapshot_error option" where
  "validate_rules idna [] ids = None"
| "validate_rules idna (r # rs) ids =
     (if dr_ID r = [] \<or> \<not> validSnapshotID (dr_ID r) then invalid ''destination rule id is invalid'' []
      else if dr_ID r \<in> set ids then invalid ''duplicate destination rule %q'' [dr_ID r]
      else if dr_Action r \<noteq> ''deny'' \<and> dr_Action r \<noteq> ''allow_override'' then invalid ''destination rule %q has unsupported action'' [dr_ID r]
      else if \<not> validSnapshotString (dr_Reason r) maxSnapshotStringBytes then invalid ''destination rule %q has an invalid reason'' [dr_ID r]
      else case validateNormalizedDestination idna r of
        Some e \<Rightarrow> Some (ErrInvalidSnapshot ''destination rule %q'' [dr_ID r] (Some e))
      | None \<Rightarrow> validate_rules idna rs (dr_ID r # ids))"

definition validateDestinationRules :: "(string \<Rightarrow> string option) \<Rightarrow> DenyRule list \<Rightarrow> snapshot_error option" where
  "validateDestinationRules idna rules = validate_rules idna rules []"

section \<open>Pools and routes\<close>

definition validatePoolUpstreamProxy :: "ExecutorPool \<Rightarrow> snapshot_error option" where
  "validatePoolUpstreamProxy p = (case ep_UpstreamProxy p of
     None \<Rightarrow> None
   | Some u \<Rightarrow>
      if \<not> validSnapshotID (up_ID u) then invalid ''pool %q has an invalid upstream proxy id'' [ep_ID p]
      else if \<not> up_TrustedRemoteResolution u then invalid ''pool %q upstream proxy must enable trusted_remote_resolution'' [ep_ID p]
      else None)"

definition or_else :: "snapshot_error option \<Rightarrow> snapshot_error option \<Rightarrow> snapshot_error option" where
  "or_else a b = (case a of Some e \<Rightarrow> Some e | None \<Rightarrow> b)"

definition validatePoolRestrictions :: "ExecutorPool \<Rightarrow> snapshot_error option" where
  "validatePoolRestrictions p =
     or_else (validateStringList ''pool allowed_ip_types'' (ep_AllowedIPTypes p) maxSnapshotListBytes)
       (or_else (validateStringList ''pool allowed_countries'' (ep_AllowedCountries p) maxSnapshotListBytes)
          (validateStringList ''pool allowed_regions'' (ep_AllowedRegions p) maxSnapshotListBytes))"

definition validatePool :: "ExecutorPool \<Rightarrow> string list \<Rightarrow> snapshot_error option" where
  "validatePool p ids =
     (if ep_ID p = [] \<or> ep_ExecutorType p = [] then invalid ''pool id and executor_type are required'' []
      else if ep_ID p \<in> set ids then invalid ''duplicate pool %q'' [ep_ID p]
      else if \<not> validSnapshotID (ep_ID p) \<or> \<not> validSnapshotString (ep_ExecutorType p) maxSnapshotStringBytes then
        invalid ''pool %q has an invalid id or executor_type'' [ep_ID p]
      else or_else (validatePoolUpstreamProxy p)
        (or_else (validateStringList ''pool tags'' (ep_Tags p) maxSnapshotTagBytes) (validatePoolRestrictions p)))"

fun validatePools :: "ExecutorPool list \<Rightarrow> string list \<Rightarrow> snapshot_error + string list" where
  "validatePools [] ids = Inr ids"
| "validatePools (p # ps) ids = (case validatePool p ids of Some e \<Rightarrow> Inl e | None \<Rightarrow> validatePools ps (ep_ID p # ids))"

definition validateMatchCountry :: "string \<Rightarrow> snapshot_error option" where
  "validateMatchCountry country =
     (if country \<noteq> [] \<and> (length country \<noteq> 2 \<or> list_ex is_lower country \<or> \<not> asciiLetters country) then
        Some (ErrSnapshotField ''country must be an uppercase two-letter code'' None)
      else None)"

definition invalid_match_value :: "string \<Rightarrow> bool" where
  "invalid_match_value v \<longleftrightarrow> v \<noteq> [] \<and> (\<not> validSnapshotString v maxSnapshotListBytes \<or> trim_space v \<noteq> v)"

definition validateMatchValues :: "MatchConditions \<Rightarrow> snapshot_error option" where
  "validateMatchValues m =
     (if invalid_match_value (mc_Region m) then Some (snapshotError ''region is invalid'')
      else if invalid_match_value (mc_IPType m) then Some (snapshotError ''ip_type is invalid'')
      else if invalid_match_value (mc_IngressType m) then Some (snapshotError ''ingress_type is invalid'')
      else if mc_IngressType m \<notin> set [[], ''rest'', ''http_proxy'', ''connect''] then Some (snapshotError ''ingress_type is unsupported'')
      else None)"

definition validateMatchHost :: "(string \<Rightarrow> string option) \<Rightarrow> string \<Rightarrow> snapshot_error option" where
  "validateMatchHost idna host =
     (if host = [] then None
      else case normalizeHostPattern idna (trim_prefix host ''*.'') of
        Inl e \<Rightarrow> Some (ErrSnapshotField ''target_host is invalid'' (Some e))
      | Inr normalized \<Rightarrow>
         if host \<noteq> normalized \<and> host \<noteq> ''*.'' @ normalized then Some (snapshotError ''target_host must be normalized'') else None)"

definition validateMatchConditions :: "(string \<Rightarrow> string option) \<Rightarrow> MatchConditions \<Rightarrow> snapshot_error option" where
  "validateMatchConditions idna m =
     or_else (validateStringList ''tags'' (mc_Tags m) maxSnapshotTagBytes)
       (or_else (validateMatchCountry (mc_Country m)) (or_else (validateMatchValues m) (validateMatchHost idna (mc_TargetHost m))))"

fun validate_routes :: "(string \<Rightarrow> string option) \<Rightarrow> RoutingRule list \<Rightarrow> string list \<Rightarrow> string list \<Rightarrow> snapshot_error option" where
  "validate_routes idna [] pools ids = None"
| "validate_routes idna (r # rs) pools ids =
     (if rr_ID r = [] then invalid ''route id is required'' []
      else if rr_ID r \<in> set ids then invalid ''duplicate route %q'' [rr_ID r]
      else if rr_TargetPoolID r \<notin> set pools then invalid ''route %q targets unknown pool %q'' [rr_ID r, rr_TargetPoolID r]
      else if \<not> validSnapshotID (rr_ID r) \<or> \<not> validSnapshotID (rr_TargetPoolID r) then
        invalid ''route %q has an invalid id or target_pool_id'' [rr_ID r]
      else if rr_AllowStickyFallback r \<and> rr_StickySessionTTLSeconds r = 0 then
        invalid ''route %q enables sticky fallback without a sticky TTL'' [rr_ID r]
      else case validateMatchConditions idna (rr_Match r) of
        Some e \<Rightarrow> Some (ErrInvalidSnapshot ''route %q match'' [rr_ID r] (Some e))
      | None \<Rightarrow> validate_routes idna rs pools (rr_ID r # ids))"

definition validateRoutes :: "(string \<Rightarrow> string option) \<Rightarrow> RoutingRule list \<Rightarrow> string list \<Rightarrow> snapshot_error option" where
  "validateRoutes idna routes pools = validate_routes idna routes pools []"

fun validate_workers :: "WorkerSetting list \<Rightarrow> string list \<Rightarrow> snapshot_error option" where
  "validate_workers [] ids = None"
| "validate_workers (w # ws) ids =
     (if ws_WorkerID w = [] then invalid ''worker_id is required'' []
      else if ws_WorkerID w \<in> set ids then invalid ''duplicate worker setting %q'' [ws_WorkerID w]
      else if \<not> validSnapshotID (ws_WorkerID w) then invalid ''worker setting %q has an invalid worker_id'' [ws_WorkerID w]
      else validate_workers ws (ws_WorkerID w # ids))"

definition validateWorkerSettings :: "WorkerSetting list \<Rightarrow> snapshot_error option" where
  "validateWorkerSettings settings = validate_workers settings []"

section \<open>Injection policies and fingerprint profiles\<close>

definition validateInjectionOperation :: "string \<Rightarrow> InjectionOperation \<Rightarrow> snapshot_error option" where
  "validateInjectionOperation policyID op =
     (if io_Op op \<noteq> ''set'' \<and> io_Op op \<noteq> ''append'' \<and> io_Op op \<noteq> ''remove'' then
        invalid ''injection policy %q has an unsupported operation'' [policyID]
      else if \<not> validHTTPHeaderName (io_HeaderName op) \<or> isDeniedInjectionHeader (io_HeaderName op) then
        invalid ''injection policy %q has an invalid or denied header'' [policyID]
      else case b64_decode (io_ValueBase64 op) of
        None \<Rightarrow> invalid ''injection policy %q has an invalid value'' [policyID]
      | Some v \<Rightarrow> if contains_crlf v then invalid ''injection policy %q has an invalid value'' [policyID] else None)"

fun validate_operations :: "string \<Rightarrow> bool \<Rightarrow> InjectionOperation list \<Rightarrow> string list \<Rightarrow> snapshot_error + string list" where
  "validate_operations policyID enabled [] seenSet = Inr seenSet"
| "validate_operations policyID enabled (op # ops) seenSet =
     (case validateInjectionOperation policyID op of
        Some e \<Rightarrow> Inl e
      | None \<Rightarrow>
         if enabled \<and> io_Op op = ''set'' then
           (let key = to_lower (io_HeaderName op) in
            if key \<in> set seenSet then Inl (ErrInvalidSnapshot ''duplicate set operation for header %q'' [io_HeaderName op] None)
            else validate_operations policyID enabled ops (key # seenSet))
         else validate_operations policyID enabled ops seenSet)"

definition validateInjectionOperations :: "InjectionPolicy \<Rightarrow> string list \<Rightarrow> snapshot_error + string list" where
  "validateInjectionOperations policy seenSet = validate_operations (ip_ID policy) (ip_Enabled policy) (ip_Operations policy) seenSet"

fun validate_policies :: "InjectionPolicy list \<Rightarrow> string list \<Rightarrow> string list \<Rightarrow> snapshot_error option" where
  "validate_policies [] ids seenSet = None"
| "validate_policies (p # ps) ids seenSet =
     (if ip_ID p = [] \<or> \<not> validSnapshotID (ip_ID p) then invalid ''injection policy id is invalid'' []
      else if ip_ID p \<in> set ids then invalid ''duplicate injection policy %q'' [ip_ID p]
      else case validateInjectionOperations p seenSet of Inl e \<Rightarrow> Some e | Inr seen' \<Rightarrow> validate_policies ps (ip_ID p # ids) seen')"

definition validateInjectionPolicies :: "InjectionPolicy list \<Rightarrow> snapshot_error option" where
  "validateInjectionPolicies policies = validate_policies policies [] []"

definition validateFingerprintMetadata :: "FingerprintProfile \<Rightarrow> snapshot_error option" where
  "validateFingerprintMetadata p =
     (if fp_Enabled p \<and> (\<not> fp_SupportedByWorker p \<or> fp_ExecutorType p = [] \<or> fp_ProfileRef p = [] \<or> fp_ContractRevision p = []) then
        invalid ''enabled fingerprint profile %q is not executable'' [fp_Name p]
      else if \<not> validSnapshotString (fp_ExecutorType p) maxSnapshotListBytes \<or> \<not> validSnapshotString (fp_ProfileRef p) maxSnapshotListBytes
        \<or> \<not> validSnapshotString (fp_ContractRevision p) maxSnapshotListBytes then invalid ''fingerprint profile %q has invalid metadata'' [fp_Name p]
      else None)"

definition validateFingerprintProfile :: "FingerprintProfile \<Rightarrow> string list \<Rightarrow> snapshot_error option" where
  "validateFingerprintProfile p seen =
     (if fp_Name p = [] \<or> \<not> validSnapshotString (fp_Name p) maxSnapshotListBytes then invalid ''fingerprint profile name is invalid'' []
      else if fp_Name p \<in> set seen then invalid ''duplicate fingerprint profile %q'' [fp_Name p]
      else if fp_ScopeType p \<noteq> [] \<and> fp_ScopeType p \<noteq> ''global'' then invalid ''fingerprint profile %q has unsupported scope_type'' [fp_Name p]
      else if fp_Name p = ''default'' then None
      else validateFingerprintMetadata p)"

fun validate_profiles :: "FingerprintProfile list \<Rightarrow> string list \<Rightarrow> snapshot_error option" where
  "validate_profiles [] seen = None"
| "validate_profiles (p # ps) seen = or_else (validateFingerprintProfile p seen) (validate_profiles ps (fp_Name p # seen))"

definition validateFingerprintProfiles :: "FingerprintProfile list \<Rightarrow> snapshot_error option" where
  "validateFingerprintProfiles profiles = validate_profiles profiles []"

section \<open>Snapshots\<close>

definition validateSnapshot :: "(string \<Rightarrow> string option) \<Rightarrow> Snapshot \<Rightarrow> snapshot_error option" where
  "validateSnapshot idna s =
     (if sn_ConfigVersion s = 0 then invalid ''config_version must be positive'' []
      else if sn_DefaultTimeoutMs s = 0 \<or> sn_MaxTimeoutMs s = 0 \<or> sn_DefaultTimeoutMs s > sn_MaxTimeoutMs s then
        invalid ''timeouts must be positive and default_timeout_ms must not exceed max_timeout_ms'' []
      else case validatePools (sn_ExecutorPools s) [] of
        Inl e \<Rightarrow> Some e
      | Inr poolIDs \<Rightarrow>
          or_else (validateRoutes idna (sn_RoutingRules s) poolIDs)
            (or_else (validateDestinationRules idna (sn_DenyRules s))
               (or_else (validateInjectionPolicies (sn_InjectionPolicies s))
                  (or_else (validateFingerprintProfiles (sn_FingerprintProfiles s)) (validateWorkerSettings (sn_WorkerSettings s))))))"

definition PrepareSnapshot :: "(string \<Rightarrow> string option) \<Rightarrow> Snapshot \<Rightarrow> snapshot_error + Snapshot" where
  "PrepareSnapshot idna s = (case normalizeDestinationRules idna (sn_DenyRules s) of
     Inl e \<Rightarrow> Inl e
   | Inr rules \<Rightarrow>
      (let out = s\<lparr>sn_DenyRules := rules\<rparr> in
       case validateSnapshot idna out of Some e \<Rightarrow> Inl e | None \<Rightarrow> Inr out))"

definition ValidateSnapshot :: "(string \<Rightarrow> string option) \<Rightarrow> Snapshot \<Rightarrow> snapshot_error option" where
  "ValidateSnapshot idna s = (case PrepareSnapshot idna s of Inl e \<Rightarrow> Some e | Inr _ \<Rightarrow> None)"

section \<open>Well-formed snapshots\<close>

text \<open>What the rest of the system may assume of an activated snapshot.\<close>

definition set_keys :: "InjectionOperation list \<Rightarrow> string list" where
  "set_keys ops = map (to_lower \<circ> io_HeaderName) (filter (\<lambda>op. io_Op op = ''set'') ops)"

definition set_headers :: "InjectionPolicy list \<Rightarrow> string list" where
  "set_headers ps = set_keys (concat (map ip_Operations (filter ip_Enabled ps)))"

definition rule_field :: "DenyRule \<Rightarrow> string" where
  "rule_field r =
     (if dr_RuleType r \<in> {''host'', ''host_suffix''} then dr_NormalizedHost r
      else if dr_RuleType r = ''cname_suffix'' then dr_NormalizedName r
      else if dr_RuleType r \<in> {''cidr'', ''private_range''} then dr_NormalizedCIDR r
      else dr_NormalizedIP r)"

definition rule_canonical :: "(string \<Rightarrow> string option) \<Rightarrow> DenyRule \<Rightarrow> bool" where
  "rule_canonical idna r \<longleftrightarrow> validSnapshotID (dr_ID r) \<and> dr_Action r \<in> {''deny'', ''allow_override''}
     \<and> rule_field r \<noteq> [] \<and> countNormalizedDestination r = 1
     \<and> (dr_RuleType r \<in> {''host'', ''host_suffix'', ''cname_suffix''} \<and> normalizeHostPattern idna (rule_field r) = Inr (rule_field r)
        \<or> dr_RuleType r \<in> {''cidr'', ''private_range''} \<and> (\<exists>p. ParsePrefix (rule_field r) = Some p \<and> prefix_string p = rule_field r
             \<and> (dr_RuleType r = ''private_range'' \<longrightarrow> IsPrivate (prefix_addr p)))
        \<or> dr_RuleType r \<in> {''ip'', ''metadata_ip''} \<and> (\<exists>a. ParseAddr (rule_field r) = Some a \<and> addr_string a = rule_field r
             \<and> (dr_RuleType r = ''metadata_ip'' \<longrightarrow> config_isMetadataIP a)))"

definition injection_ok :: "InjectionOperation \<Rightarrow> bool" where
  "injection_ok op \<longleftrightarrow> io_Op op \<in> {''set'', ''append'', ''remove''} \<and> validHTTPHeaderName (io_HeaderName op)
     \<and> \<not> isDeniedInjectionHeader (io_HeaderName op) \<and> (\<exists>v. b64_decode (io_ValueBase64 op) = Some v \<and> \<not> contains_crlf v)"

definition profile_ok :: "FingerprintProfile \<Rightarrow> bool" where
  "profile_ok p \<longleftrightarrow> fp_Name p \<noteq> [] \<and> (fp_Name p = ''default'' \<or> \<not> fp_Enabled p
     \<or> fp_SupportedByWorker p \<and> fp_ExecutorType p \<noteq> [] \<and> fp_ProfileRef p \<noteq> [] \<and> fp_ContractRevision p \<noteq> [])"

definition pool_ok :: "ExecutorPool \<Rightarrow> bool" where
  "pool_ok p \<longleftrightarrow> validSnapshotID (ep_ID p) \<and> ep_ExecutorType p \<noteq> []
     \<and> distinct (ep_Tags p) \<and> distinct (ep_AllowedIPTypes p) \<and> distinct (ep_AllowedCountries p) \<and> distinct (ep_AllowedRegions p)
     \<and> (\<forall>u. ep_UpstreamProxy p = Some u \<longrightarrow> validSnapshotID (up_ID u) \<and> up_TrustedRemoteResolution u)"

definition route_ok :: "ExecutorPool list \<Rightarrow> RoutingRule \<Rightarrow> bool" where
  "route_ok pools r \<longleftrightarrow> validSnapshotID (rr_ID r) \<and> rr_TargetPoolID r \<in> ep_ID ` set pools
     \<and> (rr_AllowStickyFallback r \<longrightarrow> rr_StickySessionTTLSeconds r \<noteq> 0) \<and> distinct (mc_Tags (rr_Match r))
     \<and> mc_IngressType (rr_Match r) \<in> {[], ''rest'', ''http_proxy'', ''connect''}"

definition snapshot_ok :: "(string \<Rightarrow> string option) \<Rightarrow> Snapshot \<Rightarrow> bool" where
  "snapshot_ok idna s \<longleftrightarrow> sn_ConfigVersion s \<noteq> 0 \<and> 0 < sn_DefaultTimeoutMs s \<and> sn_DefaultTimeoutMs s \<le> sn_MaxTimeoutMs s
     \<and> distinct (map ep_ID (sn_ExecutorPools s)) \<and> list_all pool_ok (sn_ExecutorPools s)
     \<and> distinct (map rr_ID (sn_RoutingRules s)) \<and> list_all (route_ok (sn_ExecutorPools s)) (sn_RoutingRules s)
     \<and> distinct (map dr_ID (sn_DenyRules s)) \<and> list_all (rule_canonical idna) (sn_DenyRules s)
     \<and> distinct (map ip_ID (sn_InjectionPolicies s)) \<and> distinct (set_headers (sn_InjectionPolicies s))
     \<and> list_all injection_ok (concat (map ip_Operations (sn_InjectionPolicies s)))
     \<and> distinct (map fp_Name (sn_FingerprintProfiles s)) \<and> list_all profile_ok (sn_FingerprintProfiles s)
     \<and> distinct (map ws_WorkerID (sn_WorkerSettings s))"

lemma set_keys_simps [simp]:
  "set_keys [] = []" "set_keys (xs @ ys) = set_keys xs @ set_keys ys"
  "set_keys (op # ops) = (if io_Op op = ''set'' then to_lower (io_HeaderName op) # set_keys ops else set_keys ops)"
  by (simp_all add: set_keys_def)

lemma or_else_None [simp]: "or_else a b = None \<longleftrightarrow> a = None \<and> b = None"
  by (cases a) (simp_all add: or_else_def)

lemma validate_strings_None: "validate_strings name vs m seen = None \<Longrightarrow> distinct vs \<and> set vs \<inter> set seen = {}"
  by (induction name vs m seen rule: validate_strings.induct) (auto split: if_splits)

lemma validateStringList_None: "validateStringList name vs m = None \<Longrightarrow> distinct vs"
  using validate_strings_None by (auto simp: validateStringList_def)

lemma validatePools_Inr:
  "validatePools ps ids = Inr ids' \<Longrightarrow>
   distinct (map ep_ID ps) \<and> ep_ID ` set ps \<inter> set ids = {} \<and> list_all pool_ok ps \<and> set ids' = ep_ID ` set ps \<union> set ids"
proof (induction ps ids rule: validatePools.induct)
  case (2 p ps ids)
  have v: "validatePool p ids = None" "validatePools ps (ep_ID p # ids) = Inr ids'" using "2.prems" by (auto split: option.splits)
  have "pool_ok p \<and> ep_ID p \<notin> set ids"
    using v(1) by (auto simp: validatePool_def pool_ok_def validatePoolUpstreamProxy_def validatePoolRestrictions_def
        split: if_splits option.splits dest: validateStringList_None)
  then show ?case using "2.IH" [OF v] by auto
qed simp

lemma validate_routes_None:
  "validate_routes idna rs ps ids = None \<Longrightarrow> set ps = ep_ID ` set pools \<Longrightarrow>
   distinct (map rr_ID rs) \<and> rr_ID ` set rs \<inter> set ids = {} \<and> list_all (route_ok pools) rs"
  by (induction idna rs ps ids rule: validate_routes.induct)
    (auto simp: route_ok_def validateMatchConditions_def validateMatchValues_def
      split: if_splits option.splits dest: validateStringList_None)

lemma parse_empty: "ParseAddr [] = None" "ParsePrefix [] = None"
  by (simp_all add: ParseAddr_def ParsePrefix_def)

lemma validateNormalizedDestination_None:
  "validateNormalizedDestination idna r = None \<Longrightarrow> validSnapshotID (dr_ID r) \<Longrightarrow> dr_Action r \<in> {''deny'', ''allow_override''} \<Longrightarrow> rule_canonical idna r"
  by (auto simp: validateNormalizedDestination_def rule_canonical_def rule_field_def parse_empty validateNormalizedHost_def validateNormalizedCIDR_def
      validateNormalizedIP_def split: if_splits option.splits)

lemma validate_rules_None:
  "validate_rules idna rs ids = None \<Longrightarrow> distinct (map dr_ID rs) \<and> dr_ID ` set rs \<inter> set ids = {} \<and> list_all (rule_canonical idna) rs"
proof (induction idna rs ids rule: validate_rules.induct)
  case (2 idna r rs ids)
  have v: "validateNormalizedDestination idna r = None" "validSnapshotID (dr_ID r)" "dr_Action r \<in> {''deny'', ''allow_override''}"
    "dr_ID r \<notin> set ids" "validate_rules idna rs (dr_ID r # ids) = None"
    using "2.prems" by (auto split: if_splits option.splits)
  have "rule_canonical idna r" using validateNormalizedDestination_None v(1-3) by blast
  moreover have "distinct (map dr_ID rs) \<and> dr_ID ` set rs \<inter> set (dr_ID r # ids) = {} \<and> list_all (rule_canonical idna) rs"
    using "2.IH" "2.prems" v by (auto split: if_splits option.splits)
  ultimately show ?case using v(4) by auto
qed simp

lemma validate_workers_None: "validate_workers ws ids = None \<Longrightarrow> distinct (map ws_WorkerID ws) \<and> ws_WorkerID ` set ws \<inter> set ids = {}"
  by (induction ws ids rule: validate_workers.induct) (auto split: if_splits)

lemma validate_profiles_None:
  "validate_profiles ps seen = None \<Longrightarrow> distinct (map fp_Name ps) \<and> fp_Name ` set ps \<inter> set seen = {} \<and> list_all profile_ok ps"
  by (induction ps seen rule: validate_profiles.induct)
    (auto simp: validateFingerprintProfile_def validateFingerprintMetadata_def profile_ok_def split: if_splits)

lemma validateInjectionOperation_None: "validateInjectionOperation i op = None \<Longrightarrow> injection_ok op"
  by (auto simp: validateInjectionOperation_def injection_ok_def split: if_splits option.splits)

lemma validate_operations_Inr:
  "validate_operations i en ops seen = Inr seen' \<Longrightarrow> distinct seen \<Longrightarrow>
   list_all injection_ok ops \<and> distinct seen' \<and>
   (en \<longrightarrow> mset seen' = mset seen + mset (set_keys ops)) \<and> (\<not> en \<longrightarrow> seen' = seen)"
  by (induction i en ops seen rule: validate_operations.induct)
    (auto simp: Let_def split: option.splits if_splits dest: validateInjectionOperation_None)

lemma validate_policies_None:
  "validate_policies ps ids seen = None \<Longrightarrow> distinct seen \<Longrightarrow>
   distinct (map ip_ID ps) \<and> ip_ID ` set ps \<inter> set ids = {} \<and> distinct (set_headers ps) \<and> set (set_headers ps) \<inter> set seen = {}
   \<and> list_all injection_ok (concat (map ip_Operations ps))"
proof (induction ps ids seen rule: validate_policies.induct)
  case (2 p ps ids seen)
  obtain seen' where v: "validSnapshotID (ip_ID p)" "ip_ID p \<notin> set ids" "validateInjectionOperations p seen = Inr seen'"
    "validate_policies ps (ip_ID p # ids) seen' = None" using "2.prems" by (auto split: if_splits sum.splits)
  note O = validate_operations_Inr [OF v(3) [unfolded validateInjectionOperations_def] "2.prems"(2)]
  have IH: "distinct (map ip_ID ps)" "ip_ID ` set ps \<inter> set (ip_ID p # ids) = {}" "distinct (set_headers ps)"
    "set (set_headers ps) \<inter> set seen' = {}" "list_all injection_ok (concat (map ip_Operations ps))"
    using "2.IH" [OF _ _ v(3,4)] O v by (auto simp: validSnapshotID_def)
  show ?case
  proof (cases "ip_Enabled p")
    case True
    let ?h = "set_keys (ip_Operations p)"
    have m: "mset seen' = mset (seen @ ?h)" using O True by simp
    then have "distinct (seen @ ?h)" "set seen' = set (seen @ ?h)" using O by (metis mset_eq_imp_distinct_iff, metis set_mset_mset)
    then show ?thesis using IH v O True by (auto simp: set_headers_def)
  next
    case False
    then show ?thesis using IH v O by (auto simp: set_headers_def)
  qed
qed (simp add: set_headers_def)

lemma validateSnapshot_None: "validateSnapshot idna s = None \<Longrightarrow> snapshot_ok idna s"
proof -
  assume a: "validateSnapshot idna s = None"
  obtain ids where p: "validatePools (sn_ExecutorPools s) [] = Inr ids"
    and t: "sn_ConfigVersion s \<noteq> 0" "sn_DefaultTimeoutMs s \<noteq> 0" "sn_DefaultTimeoutMs s \<le> sn_MaxTimeoutMs s"
    and v: "validate_routes idna (sn_RoutingRules s) ids [] = None" "validate_rules idna (sn_DenyRules s) [] = None"
      "validate_policies (sn_InjectionPolicies s) [] [] = None" "validate_profiles (sn_FingerprintProfiles s) [] = None"
      "validate_workers (sn_WorkerSettings s) [] = None"
    using a by (auto simp: validateSnapshot_def validateRoutes_def validateDestinationRules_def validateInjectionPolicies_def
        validateFingerprintProfiles_def validateWorkerSettings_def not_less split: if_splits sum.splits)
  have "0 < sn_DefaultTimeoutMs s" using t(2) by (simp add: word_neq_0_conv)
  then show ?thesis
    using t validatePools_Inr [OF p] validate_routes_None [OF v(1), of "sn_ExecutorPools s"] validate_rules_None [OF v(2)]
      validate_policies_None [OF v(3)] validate_profiles_None [OF v(4)] validate_workers_None [OF v(5)]
    by (simp add: snapshot_ok_def)
qed

section \<open>Preparing keeps what the operator wrote\<close>

lemma normalize_raw_keeps:
  "normalizeRawHost idna r raw = Inr r' \<Longrightarrow> clear_normalized r' = clear_normalized r"
  "normalizeRawSuffix idna r raw = Inr r' \<Longrightarrow> clear_normalized r' = clear_normalized r"
  "normalizeRawCIDR r raw = Inr r' \<Longrightarrow> clear_normalized r' = clear_normalized r"
  "normalizeRawIP r raw = Inr r' \<Longrightarrow> clear_normalized r' = clear_normalized r"
  by (auto simp: normalizeRawHost_def normalizeRawSuffix_def normalizeRawCIDR_def normalizeRawIP_def clear_normalized_def Let_def
      split: sum.splits option.splits if_splits)

lemma clear_normalized_idem [simp]: "clear_normalized (clear_normalized r) = clear_normalized r"
  by (simp add: clear_normalized_def)

lemma clear_normalized_fields [simp]:
  "dr_RuleType (clear_normalized r) = dr_RuleType r" "dr_RawPattern (clear_normalized r) = dr_RawPattern r"
  by (simp_all add: clear_normalized_def)

lemma normalizeDestinationRule_keeps:
  "normalizeDestinationRule idna r = Inr r' \<Longrightarrow> clear_normalized r' = clear_normalized r"
  by (auto simp: normalizeDestinationRule_def canonicalizeLegacyDestination_def Let_def split: if_splits sum.splits
      dest!: normalize_raw_keeps)

lemma normalizeDestinationRules_keeps:
  "normalizeDestinationRules idna rs = Inr rs' \<Longrightarrow> map clear_normalized rs' = map clear_normalized rs"
  by (induction idna rs arbitrary: rs' rule: normalizeDestinationRules.induct)
    (auto split: sum.splits dest: normalizeDestinationRule_keeps)

lemma normalizeDestinationRule_raw:
  assumes "clear_normalized r' = clear_normalized r" "dr_RawPattern r \<noteq> []"
  shows "normalizeDestinationRule idna r' = normalizeDestinationRule idna r"
proof -
  have "dr_RuleType r' = dr_RuleType r" "dr_RawPattern r' = dr_RawPattern r"
    using assms(1) clear_normalized_fields by metis+
  then show ?thesis using assms by (simp add: normalizeDestinationRule_def Let_def)
qed

lemma normalizeDestinationRules_again:
  "normalizeDestinationRules idna rs = Inr rs' \<Longrightarrow> \<forall>r \<in> set rs. dr_RawPattern r \<noteq> [] \<Longrightarrow> normalizeDestinationRules idna rs' = Inr rs'"
proof (induction idna rs arbitrary: rs' rule: normalizeDestinationRules.induct)
  case (2 idna r rs)
  obtain r1 rs1 where n: "normalizeDestinationRule idna r = Inr r1" "normalizeDestinationRules idna rs = Inr rs1" "rs' = r1 # rs1"
    using "2.prems"(1) by (auto split: sum.splits)
  have "normalizeDestinationRule idna r1 = Inr r1"
    using normalizeDestinationRule_raw [OF normalizeDestinationRule_keeps [OF n(1)]] n(1) "2.prems"(2) by simp
  moreover have "normalizeDestinationRules idna rs1 = Inr rs1" using "2.IH" [OF n(1,2)] "2.prems"(2) by simp
  ultimately show ?case by (simp add: n(3))
qed simp

section \<open>Resolving the injection policies of a prepared snapshot\<close>

abbreviation byte_limit_error :: ValidationError where
  "byte_limit_error \<equiv> injection_error ''injected header bytes exceed configured maximum''"

lemma resolveInjectionOperation_ok:
  assumes "injection_ok op" "io_Op op = ''set'' \<Longrightarrow> to_lower (io_HeaderName op) \<notin> set seen"
  obtains v where "resolveInjectionOperation op seen = Inr (\<lparr>ro_Op = io_Op op, ro_HeaderName = io_HeaderName op, ro_Value = v\<rparr>,
    if io_Op op = ''set'' then to_lower (io_HeaderName op) # seen else seen)"
  using assms by (auto simp: injection_ok_def resolveInjectionOperation_def isDeniedInjectionHeader_def alwaysDeniedInjectionHeaders_def Let_def)

lemma resolve_ops_ok:
  "list_all injection_ok ops \<Longrightarrow> distinct (set_keys ops) \<Longrightarrow> set (set_keys ops) \<inter> set seen = {} \<Longrightarrow>
   (\<exists>rs. resolve_ops m ops seen n = Inr rs \<and> map ro_HeaderName rs = map io_HeaderName ops)
   \<or> m > 0 \<and> resolve_ops m ops seen n = Inl byte_limit_error"
proof (induction ops arbitrary: seen n)
  case (Cons op ops)
  let ?seen = "if io_Op op = ''set'' then to_lower (io_HeaderName op) # seen else seen"
  have "injection_ok op" "io_Op op = ''set'' \<Longrightarrow> to_lower (io_HeaderName op) \<notin> set seen" using Cons.prems(1,3) by auto
  then obtain v where v: "resolveInjectionOperation op seen = Inr (\<lparr>ro_Op = io_Op op, ro_HeaderName = io_HeaderName op, ro_Value = v\<rparr>, ?seen)"
    using resolveInjectionOperation_ok by blast
  define n' where "n' = n + of_nat (length (io_HeaderName op) + length v)"
  have "resolve_ops m (op # ops) seen n = (if m > 0 \<and> n' > m then Inl byte_limit_error
      else case resolve_ops m ops ?seen n' of Inl e \<Rightarrow> Inl e
        | Inr rs \<Rightarrow> Inr (\<lparr>ro_Op = io_Op op, ro_HeaderName = io_HeaderName op, ro_Value = v\<rparr> # rs))"
    by (simp add: v n'_def Let_def del: of_nat_add)
  moreover have "list_all injection_ok ops" "distinct (set_keys ops)" "set (set_keys ops) \<inter> set ?seen = {}"
    using Cons.prems by (simp_all split: if_splits)
  ultimately show ?case using Cons.IH [of ?seen n'] by fastforce
qed simp

lemma mset_concat_map_cong: "mset xs = mset ys \<Longrightarrow> mset (concat (map f xs)) = mset (concat (map f ys))"
  by (metis mset_concat mset_map sum_mset_sum_list)

lemma enabled_operations_perm:
  "mset (concat (map ip_Operations (filter ip_Enabled (sort_key ip_ID ps)))) = mset (concat (map ip_Operations (filter ip_Enabled ps)))"
  by (rule mset_concat_map_cong) simp

lemma list_all_perm: "mset xs = mset ys \<Longrightarrow> list_all P xs \<longleftrightarrow> list_all P ys"
  by (metis list_all_iff mset_eq_setD)

section \<open>Properties\<close>

text \<open>A snapshot with one rule of each kind, prepared under an IDNA conversion that leaves ASCII names as they are.\<close>

definition demo_rule :: "string \<Rightarrow> string \<Rightarrow> string \<Rightarrow> DenyRule" where
  "demo_rule i typ raw = \<lparr>dr_ID = i, dr_RuleType = typ, dr_Action = ''deny'', dr_Enabled = True, dr_Reason = [], dr_RawPattern = raw,
     dr_NormalizedHost = [], dr_NormalizedCIDR = [], dr_NormalizedIP = [], dr_NormalizedName = []\<rparr>"

definition demo_snapshot :: Snapshot where
  "demo_snapshot = (NewSnapshot 1)\<lparr>sn_ExecutorPools := [\<lparr>ep_ID = ''p'', ep_ExecutorType = ''go'', ep_Tags = [], ep_Enabled = True,
       ep_AllowDegradedWorkers = False, ep_AllowedIPTypes = [], ep_AllowedCountries = [], ep_AllowedRegions = [], ep_UpstreamProxy = None\<rparr>],
     sn_DenyRules := [demo_rule ''a'' ''host'' ''Example.com.'', demo_rule ''b'' ''cidr'' ''10.1.2.3/8'', demo_rule ''c'' ''metadata_ip'' ''169.254.169.254''],
     sn_InjectionPolicies := [\<lparr>ip_ID = ''i'', ip_Enabled = True, ip_Operations = [\<lparr>io_Op = ''set'', io_HeaderName = ''X-A'', io_ValueBase64 = ''YQ==''\<rparr>]\<rparr>]\<rparr>"

definition demo_prepared_snapshot :: Snapshot where
  "demo_prepared_snapshot = demo_snapshot\<lparr>sn_DenyRules := [(demo_rule ''a'' ''host'' ''Example.com.'')\<lparr>dr_NormalizedHost := ''example.com''\<rparr>,
     (demo_rule ''b'' ''cidr'' ''10.1.2.3/8'')\<lparr>dr_NormalizedCIDR := ''10.0.0.0/8''\<rparr>,
     (demo_rule ''c'' ''metadata_ip'' ''169.254.169.254'')\<lparr>dr_NormalizedIP := ''169.254.169.254''\<rparr>]\<rparr>"

lemma demo_snapshot_prepared: "PrepareSnapshot Some demo_snapshot = Inr demo_prepared_snapshot"
  by code_simp



text \<open>
  C31: Preparing is idempotent on snapshots whose rules carry raw patterns: publishing a prepared snapshot again
  neither fails nor changes it, whatever the IDNA conversion does.
\<close>

theorem prepare_idempotent:
  assumes "PrepareSnapshot idna s = Inr out" "\<forall>r \<in> set (sn_DenyRules s). dr_RawPattern r \<noteq> []"
  shows "PrepareSnapshot idna out = Inr out"
proof -
  obtain rs where n: "normalizeDestinationRules idna (sn_DenyRules s) = Inr rs" "out = s\<lparr>sn_DenyRules := rs\<rparr>" "validateSnapshot idna out = None"
    using assms(1) by (auto simp: PrepareSnapshot_def Let_def split: sum.splits option.splits)
  have "normalizeDestinationRules idna rs = Inr rs" using normalizeDestinationRules_again [OF n(1) assms(2)] .
  then show ?thesis using n(2,3) by (simp add: PrepareSnapshot_def)
qed

theorem prepare_idempotent_witness:
  "PrepareSnapshot Some demo_snapshot = Inr demo_prepared_snapshot \<and> PrepareSnapshot Some demo_prepared_snapshot = Inr demo_prepared_snapshot"
  using demo_snapshot_prepared prepare_idempotent [OF demo_snapshot_prepared] by (simp add: demo_snapshot_def demo_rule_def)

text \<open>
  C22: The injection policies of a prepared snapshot cannot fail a request at resolution: without a byte limit
  every enabled operation is resolved, and with one the only possible failure is that limit.
\<close>

theorem prepared_injections_resolve:
  assumes "PrepareSnapshot idna s = Inr out"
  shows "(\<exists>ops. resolveInjectionOperations (sn_InjectionPolicies out) m = Inr ops
      \<and> mset (map ro_HeaderName ops) = mset (map io_HeaderName (concat (map ip_Operations (filter ip_Enabled (sn_InjectionPolicies out))))))
    \<or> m > 0 \<and> resolveInjectionOperations (sn_InjectionPolicies out) m = Inl byte_limit_error"
proof -
  let ?ps = "sn_InjectionPolicies out"
  let ?ops = "concat (map ip_Operations (filter ip_Enabled (sort_key ip_ID ?ps)))" and ?en = "concat (map ip_Operations (filter ip_Enabled ?ps))"
  have ok: "snapshot_ok idna out"
    using assms validateSnapshot_None [of idna out] by (auto simp: PrepareSnapshot_def Let_def split: sum.splits option.splits)
  have m: "mset ?ops = mset ?en" by (rule enabled_operations_perm)
  then have "mset (set_keys ?ops) = mset (set_keys ?en)" by (simp add: set_keys_def)
  then have d: "distinct (set_keys ?ops)" using ok by (metis snapshot_ok_def set_headers_def mset_eq_imp_distinct_iff)
  have "list_all injection_ok ?en" using ok by (auto simp: snapshot_ok_def list_all_iff)
  then have "list_all injection_ok ?ops" using list_all_perm [OF m] by blast
  then have r: "(\<exists>rs. resolve_ops m ?ops [] 0 = Inr rs \<and> map ro_HeaderName rs = map io_HeaderName ?ops)
      \<or> m > 0 \<and> resolve_ops m ?ops [] 0 = Inl byte_limit_error" using resolve_ops_ok d by simp
  have h: "mset (map io_HeaderName ?ops) = mset (map io_HeaderName ?en)" by (simp only: mset_map m)
  have eq: "resolveInjectionOperations ?ps m = resolve_ops m ?ops [] 0" by (simp add: resolveInjectionOperations_def)
  show ?thesis unfolding eq using r h by metis
qed

theorem prepared_injections_resolve_witness:
  "PrepareSnapshot Some demo_snapshot = Inr demo_prepared_snapshot
   \<and> (\<exists>ops. resolveInjectionOperations (sn_InjectionPolicies demo_prepared_snapshot) 0 = Inr ops \<and> mset (map ro_HeaderName ops) = {#''X-A''#})"
proof -
  have "concat (map ip_Operations (filter ip_Enabled (sn_InjectionPolicies demo_prepared_snapshot)))
      = [\<lparr>io_Op = ''set'', io_HeaderName = ''X-A'', io_ValueBase64 = ''YQ==''\<rparr>]"
    by (simp add: demo_prepared_snapshot_def demo_snapshot_def)
  then show ?thesis using demo_snapshot_prepared prepared_injections_resolve [OF demo_snapshot_prepared, of 0] by simp
qed

text \<open>
  C23: Rules of type \<open>metadata_ip\<close> never take effect: preparing stores their address in \<open>normalized_ip\<close>, compiling
  reads \<open>normalized_cidr\<close>.  In a prepared snapshot they are exactly the rules without a value, and the compiled
  policy is the one without them.
\<close>

theorem metadata_rules_dropped:
  assumes "PrepareSnapshot idna s = Inr out"
  shows "compileDenyRules (sn_DenyRules out) = compileDenyRules (filter (\<lambda>r. dr_RuleType r \<noteq> ''metadata_ip'') (sn_DenyRules out))
    \<and> (\<forall>r \<in> set (sn_DenyRules out). denyRuleValue r = [] \<longleftrightarrow> dr_RuleType r = ''metadata_ip'')"
proof -
  have ok: "list_all (rule_canonical idna) (sn_DenyRules out)"
    using assms validateSnapshot_None [of idna out] by (auto simp: PrepareSnapshot_def snapshot_ok_def Let_def split: sum.splits option.splits)
  have v: "denyRuleValue r = [] \<longleftrightarrow> dr_RuleType r = ''metadata_ip''" if "rule_canonical idna r" for r
    using that by (auto simp: rule_canonical_def rule_field_def denyRuleValue_def denyRuleCIDRTypes_def countNormalizedDestination_def split: if_splits)
  have f: "foldl compile_step c rs = foldl compile_step c (filter (\<lambda>r. dr_RuleType r \<noteq> ''metadata_ip'') rs)"
    if "list_all (rule_canonical idna) rs" for c rs
    using that
  proof (induction rs arbitrary: c)
    case (Cons r rs)
    have "compile_step c r = c" if "dr_RuleType r = ''metadata_ip''"
      using v [of r] that Cons.prems by (auto simp: compile_step_def compileCIDRDenyRule_def denyRuleCIDRTypes_def)
    then show ?case using Cons by simp
  qed simp
  show ?thesis using f [OF ok, of compile_init] ok v by (simp add: compileDenyRules_def list_all_iff)
qed

theorem metadata_rules_dropped_witness:
  "PrepareSnapshot Some demo_snapshot = Inr demo_prepared_snapshot
   \<and> compileDenyRules (sn_DenyRules demo_prepared_snapshot) = compileDenyRules (butlast (sn_DenyRules demo_prepared_snapshot))"
proof -
  have "filter (\<lambda>r. dr_RuleType r \<noteq> ''metadata_ip'') (sn_DenyRules demo_prepared_snapshot) = butlast (sn_DenyRules demo_prepared_snapshot)"
    by (simp add: demo_prepared_snapshot_def demo_rule_def)
  then show ?thesis using demo_snapshot_prepared metadata_rules_dropped [OF demo_snapshot_prepared] by simp
qed

end
