(* ===== verification/Response_Stream.thy ===== *)
theory Response_Stream
  imports Stream_Senders Lifecycle Routing Receipts
begin

text \<open>
  Control's end of a response: the loops of \<open>readResponse\<close>, \<open>streamRawResponse\<close> and \<open>streamTunnel\<close>
  (\<open>internal/control/response_stream.go\<close>, \<open>raw_response.go\<close>, \<open>tunnel.go\<close>).  Each loop selects among the
  request context, the upload goroutine, the deadline, a ticker and the frames from the worker; a run is
  the sequence of selected events with the instants they are handled at.  A turn of the upload goroutine
  is an event of its own.  The three states extend one record of what they share.  What a client write
  does is given by a list of faults: \<open>None\<close> for a complete write, \<open>Some n\<close> for a failure after \<open>n\<close> bytes.
  No writer of the program implements the optional \<open>WriteRawResponseStart\<close> interface.
\<close>

section \<open>Options and results\<close>

record DispatcherOptions =
  do_MaxInlineResponseBodyBytes :: uint64
  do_MaxFrameDataBytes :: uint64
  do_MaxTimeoutMs :: uint64
  do_AssignmentAckTimeout :: int
  do_InitialUploadCreditBytes :: uint64
  do_InitialDownloadCreditBytes :: uint64
  do_MaxInflightUploadBytes :: uint64
  do_MaxInflightDownloadBytes :: uint64
  do_FrameIdleTimeout :: int

definition NewDefaultRequestDispatcher :: "DispatcherOptions \<Rightarrow> DispatcherOptions" where
  "NewDefaultRequestDispatcher o' = o'\<lparr>
     do_AssignmentAckTimeout := (if do_AssignmentAckTimeout o' = 0 then 2000 else do_AssignmentAckTimeout o'),
     do_InitialUploadCreditBytes := (if do_InitialUploadCreditBytes o' = 0 then 8388608 else do_InitialUploadCreditBytes o'),
     do_InitialDownloadCreditBytes := (if do_InitialDownloadCreditBytes o' = 0 then 8388608 else do_InitialDownloadCreditBytes o'),
     do_MaxInflightUploadBytes := (if do_MaxInflightUploadBytes o' = 0 then 16777216 else do_MaxInflightUploadBytes o'),
     do_MaxInflightDownloadBytes := (if do_MaxInflightDownloadBytes o' = 0 then 16777216 else do_MaxInflightDownloadBytes o'),
     do_MaxFrameDataBytes := (if do_MaxFrameDataBytes o' = 0 then 1048576 else do_MaxFrameDataBytes o'),
     do_FrameIdleTimeout := (if do_FrameIdleTimeout o' = 0 then 15000 else do_FrameIdleTimeout o')\<rparr>"

definition initialDownloadCredit :: "DispatcherOptions \<Rightarrow> uint64" where
  "initialDownloadCredit o' = min (do_InitialDownloadCreditBytes o') (do_MaxInflightDownloadBytes o')"

record dispatchResult =
  res_status :: uint32
  res_headers :: "header list"
  res_body :: bytes
  res_size :: uint64
  res_egressMs :: int
  res_selectedFingerprintProfile :: string
  res_executedFingerprintProfile :: string
  res_responseReceiptID :: string
  res_responseReceiptSHA256 :: string

definition empty_result :: dispatchResult where
  "empty_result = \<lparr>res_status = 0, res_headers = [], res_body = [], res_size = 0, res_egressMs = 0,
     res_selectedFingerprintProfile = [], res_executedFingerprintProfile = [], res_responseReceiptID = [], res_responseReceiptSHA256 = []\<rparr>"

section \<open>Errors\<close>

definition timeoutTypeName :: "string \<Rightarrow> string" where
  "timeoutTypeName t = to_lower (trim_prefix t ''TIMEOUT_TYPE_'')"

definition errorFramePipelineError :: "ErrorCode \<Rightarrow> ErrorFrame \<Rightarrow> PipelineError" where
  "errorFramePipelineError code f = \<lparr>pe_Code = code, pe_Message = ef_Message f,
     pe_TimeoutType = (case ef_TimeoutType f of None \<Rightarrow> [] | Some t \<Rightarrow> timeoutTypeName t),
     pe_RetryAfterMs = retryAfterMs (ef_RetryAfterMs f), pe_UpstreamStatus = ef_UpstreamStatus f, pe_Details = ef_Details f\<rparr>"

definition requestStreamPipelineError :: "upload_err \<Rightarrow> PipelineError" where
  "requestStreamPipelineError e = (case e of
     UploadReadFailed \<Rightarrow> pipeline_error BodyTooLarge
   | _ \<Rightarrow> pipeline_error TransportUnavailable)"

definition timeout_error :: "string \<Rightarrow> PipelineError" where
  "timeout_error typ = (pipeline_error TimeoutExceeded)\<lparr>pe_TimeoutType := typ\<rparr>"

section \<open>What the loops share\<close>

record 'r stream_state =
  ss_validator :: StreamValidator
  ss_c2eSeq :: uint64
  ss_upload :: "upload_state option"
  ss_uploading :: bool
  ss_uploadErr :: "upload_err option option"
  ss_sent :: "'r StreamFrame list"
  ss_failures :: nat
  ss_result :: dispatchResult
  ss_egressStart :: "instant option"
  ss_outboundStarted :: bool
  ss_responseStarted :: bool

datatype 'r stream_input =
    ClientGone
  | UploadTurn "nat \<Rightarrow> bytes \<times> upload_read_err" bool
  | UploadReported
  | DeadlinePassed
  | Tick bool
  | FrameArrived "'r StreamFrame option"
  | FramesClosed

definition sendCancel :: "string \<Rightarrow> ('r, 'z) stream_state_scheme \<Rightarrow> ('r, 'z) stream_state_scheme" where
  "sendCancel reason s = s\<lparr>ss_sent := ss_sent s @ [mk_frame (ss_c2eSeq s) defaultRequestAttempt (Cancel reason)]\<rparr>"

definition sendDownloadCredit :: "uint64 \<Rightarrow> ('r, 'z) stream_state_scheme \<Rightarrow> ('r, 'z) stream_state_scheme" where
  "sendDownloadCredit n s =
     (if n = 0 then s
      else s\<lparr>ss_sent := ss_sent s @ [mk_frame (ss_c2eSeq s) defaultRequestAttempt (Credit 0 n)], ss_c2eSeq := ss_c2eSeq s + 1\<rparr>)"

definition routeFailure :: "('r, 'z) stream_state_scheme \<Rightarrow> ('r, 'z) stream_state_scheme" where
  "routeFailure s = s\<lparr>ss_failures := ss_failures s + 1\<rparr>"

definition routeProtocolFailure :: "string \<Rightarrow> ('r, 'z) stream_state_scheme \<Rightarrow> ('r, 'z) stream_state_scheme \<times> PipelineError option" where
  "routeProtocolFailure message s = (routeFailure s, Some ((pipeline_error ProtocolError)\<lparr>pe_Message := message\<rparr>))"

definition streamLost :: "ErrorCode \<Rightarrow> ('r, 'z) stream_state_scheme \<Rightarrow> ('r, 'z) stream_state_scheme \<times> PipelineError option" where
  "streamLost code s = (routeFailure s, Some (pipeline_error code))"

definition executorError :: "ErrorFrame \<Rightarrow> ('r, 'z) stream_state_scheme \<Rightarrow> ('r, 'z) stream_state_scheme \<times> PipelineError option" where
  "executorError f s = (case ValidateExecutorError (ef_Code f) of
     (code, violation) \<Rightarrow> (if violation then routeFailure s else s, Some (errorFramePipelineError code f)))"

definition validateOutboundStartFrame ::
    "RouteOutcome \<Rightarrow> OutboundStartFrame \<Rightarrow> ('r, 'z) stream_state_scheme \<Rightarrow> ('r, 'z) stream_state_scheme \<times> PipelineError option" where
  "validateOutboundStartFrame route f s =
     (if o_ProtocolMinor route \<ge> upstreamProxyProtocolMinor \<and> ss_outboundStarted s then routeProtocolFailure ''duplicate outbound start frame'' s
      else if os_UpstreamProxyId f \<noteq> o_UpstreamProxyID route then
        routeProtocolFailure ''executed upstream proxy did not match selected route'' s
      else (s\<lparr>ss_outboundStarted := True\<rparr>, None))"

definition validateResponseStartFrame ::
    "RouteOutcome \<Rightarrow> ('r, 'z) stream_state_scheme \<Rightarrow> ('r, 'z) stream_state_scheme \<times> PipelineError option" where
  "validateResponseStartFrame route s =
     (if o_ProtocolMinor route \<ge> upstreamProxyProtocolMinor \<and> \<not> ss_outboundStarted s then
        routeProtocolFailure ''response started before outbound start'' s
      else if o_ProtocolMinor route \<ge> upstreamProxyProtocolMinor \<and> ss_responseStarted s then
        routeProtocolFailure ''duplicate response start frame'' s
      else (s\<lparr>ss_responseStarted := True\<rparr>, None))"

definition validateResponseDataFrame ::
    "RouteOutcome \<Rightarrow> ('r, 'z) stream_state_scheme \<Rightarrow> ('r, 'z) stream_state_scheme \<times> PipelineError option" where
  "validateResponseDataFrame route s =
     (if o_ProtocolMinor route \<ge> upstreamProxyProtocolMinor \<and> \<not> ss_responseStarted s then
        routeProtocolFailure ''response data arrived before response start'' s
      else (s, None))"

definition validateResponseEndFrame ::
    "RouteOutcome \<Rightarrow> bool \<Rightarrow> ('r, 'z) stream_state_scheme \<Rightarrow> ('r, 'z) stream_state_scheme \<times> PipelineError option" where
  "validateResponseEndFrame route success s =
     (if o_ProtocolMinor route \<ge> upstreamProxyProtocolMinor \<and> success \<and> (\<not> ss_outboundStarted s \<or> \<not> ss_responseStarted s) then
        routeProtocolFailure ''successful end arrived before response start'' s
      else (s, None))"

definition validateRouteResponseFrame ::
    "RouteOutcome \<Rightarrow> 'r payload \<Rightarrow> ('r, 'z) stream_state_scheme \<Rightarrow> ('r, 'z) stream_state_scheme \<times> PipelineError option" where
  "validateRouteResponseFrame route p s = (case p of
     OutboundStart f \<Rightarrow> validateOutboundStartFrame route f s
   | ResponseStart _ _ \<Rightarrow> validateResponseStartFrame route s
   | Data _ _ \<Rightarrow> validateResponseDataFrame route s
   | EndFrame success \<Rightarrow> validateResponseEndFrame route success s
   | _ \<Rightarrow> (s, None))"

text \<open>Whether to go on with the frame, whether the stream is done, and the error.\<close>

definition acceptedResponseFrame :: "FrameOutcome \<Rightarrow> bool \<times> bool \<times> PipelineError option" where
  "acceptedResponseFrame outcome =
     (if outcome = FrameDuplicate \<or> outcome = FrameAfterTerminal then (False, False, None)
      else if outcome \<noteq> FrameAccepted then (False, True, Some (pipeline_error ProtocolError))
      else (True, False, None))"

definition responseStreamTick :: "instant \<Rightarrow> bool \<Rightarrow> ('r, 'z) stream_state_scheme \<Rightarrow> ('r, 'z) stream_state_scheme \<times> PipelineError option" where
  "responseStreamTick now connected s =
     (if \<not> connected then streamLost TransportUnavailable s
      else if IdleExpired now (ss_validator s) then (sendCancel ''idle_timeout'' s, Some (timeout_error ''idle_timeout''))
      else (s, None))"

definition egressMillis :: "instant option \<Rightarrow> instant \<Rightarrow> int" where
  "egressMillis start end' = (case start of None \<Rightarrow> 0 | Some t \<Rightarrow> end' - t)"

text \<open>One turn of the upload goroutine, which shares the sender and the gate with the loop.\<close>

definition upload_step :: "DispatcherOptions \<Rightarrow> int \<Rightarrow> (nat \<Rightarrow> bytes \<times> upload_read_err) \<Rightarrow> bool \<Rightarrow> ('r, 'z) stream_state_scheme \<Rightarrow> ('r, 'z) stream_state_scheme" where
  "upload_step opts bodySize rd ctxDone s = (case ss_upload s of
     None \<Rightarrow> s
   | Some u \<Rightarrow>
      if \<not> ss_uploading s then s
      else (case streamRequestBody_turn bodySize (do_MaxFrameDataBytes opts) rd ctxDone u of
        (fs, UploadBlocked) \<Rightarrow> s
      | (fs, UploadContinue u') \<Rightarrow> s\<lparr>ss_sent := ss_sent s @ fs, ss_upload := Some u'\<rparr>
      | (fs, UploadReturn e) \<Rightarrow>
          s\<lparr>ss_sent := ss_sent s @ fs, ss_uploading := False, ss_uploadErr := Some e,
            ss_upload := Some (u\<lparr>u_c2e := \<lparr>c2e_seq = c2e_seq (u_c2e u) + of_nat (length fs)\<rparr>, u_gate := gate_close (u_gate u)\<rparr>)\<rparr>))"

definition grant_upload :: "uint64 \<Rightarrow> ('r, 'z) stream_state_scheme \<Rightarrow> ('r, 'z) stream_state_scheme" where
  "grant_upload n s = s\<lparr>ss_upload := map_option (\<lambda>u. u\<lparr>u_gate := gate_grant n (u_gate u)\<rparr>) (ss_upload s)\<rparr>"

text \<open>Publishing download credit through the upload's sender, when there is an upload.\<close>

definition upload_credit :: "uint64 \<Rightarrow> upload_state \<Rightarrow> ('r, 'z) stream_state_scheme \<Rightarrow> ('r, 'z) stream_state_scheme" where
  "upload_credit n u s = (case c2e_credit (u_c2e u) n of
     (fs, c) \<Rightarrow> s\<lparr>ss_sent := ss_sent s @ fs, ss_upload := Some (u\<lparr>u_c2e := c\<rparr>)\<rparr>)"

definition return_credit :: "uint64 \<Rightarrow> ('r, 'z) stream_state_scheme \<Rightarrow> ('r, 'z) stream_state_scheme" where
  "return_credit n s =
     (let s = s\<lparr>ss_result := (ss_result s)\<lparr>res_size := res_size (ss_result s) + n\<rparr>\<rparr>;
          s = (case ss_upload s of
                 Some u \<Rightarrow> (let s = upload_credit n u s in s\<lparr>ss_c2eSeq := (case ss_upload s of Some u \<Rightarrow> c2e_seq (u_c2e u) | None \<Rightarrow> ss_c2eSeq s)\<rparr>)
               | None \<Rightarrow> sendDownloadCredit n s)
      in s\<lparr>ss_validator := GrantCredit n (ss_validator s)\<rparr>)"

definition upload_event :: "(string \<Rightarrow> ('r, 'z) stream_state_scheme \<Rightarrow> ('r, 'z) stream_state_scheme) \<Rightarrow> ('r, 'z) stream_state_scheme
    \<Rightarrow> ('r, 'z) stream_state_scheme \<times> bool \<times> PipelineError option" where
  "upload_event cancel s = (case ss_uploadErr s of
     None \<Rightarrow> (s, False, None)
   | Some None \<Rightarrow> (s\<lparr>ss_uploadErr := None\<rparr>, False, None)
   | Some (Some e) \<Rightarrow> (cancel ''client_upload_failed'' (s\<lparr>ss_uploadErr := None\<rparr>), True, Some (requestStreamPipelineError e)))"

definition acceptOutboundStart :: "instant \<Rightarrow> OutboundStartFrame \<Rightarrow> ('r, 'z) stream_state_scheme \<Rightarrow> ('r, 'z) stream_state_scheme \<times> PipelineError option" where
  "acceptOutboundStart now f s =
     (let s = s\<lparr>ss_egressStart := Some now,
        ss_result := (ss_result s)\<lparr>res_executedFingerprintProfile := os_ExecutedFingerprintProfile f\<rparr>\<rparr> in
      if \<not> validateExecutedFingerprint (res_selectedFingerprintProfile (ss_result s)) (res_executedFingerprintProfile (ss_result s)) then
        (s, Some ((pipeline_error ProtocolError)\<lparr>pe_Message := ''executed fingerprint profile mismatch''\<rparr>))
      else (s, None))"

text \<open>The loop around \<open>next\<close>: it ends when a turn is done or fails; \<open>None\<close> while it still waits.\<close>

fun stream_loop :: "(instant \<Rightarrow> 'e \<Rightarrow> 's \<Rightarrow> 's \<times> bool \<times> PipelineError option) \<Rightarrow> (instant \<times> 'e) list \<Rightarrow> 's \<Rightarrow> 's \<times> PipelineError option option" where
  "stream_loop step [] s = (s, None)"
| "stream_loop step ((now, ev) # evs) s = (case step now ev s of
     (s', done, perr) \<Rightarrow> if done \<or> perr \<noteq> None then (s', Some perr) else stream_loop step evs s')"

definition start_upload :: "DispatcherOptions \<Rightarrow> bool \<Rightarrow> uint64 \<Rightarrow> upload_state option" where
  "start_upload opts streamed seq =
     (if streamed then Some \<lparr>u_gate = newTunnelUploadGate (do_InitialUploadCreditBytes opts), u_c2e = \<lparr>c2e_seq = seq\<rparr>, u_offset = 0\<rparr>
      else None)"

definition new_stream_state :: "DispatcherOptions \<Rightarrow> instant \<Rightarrow> uint64 \<Rightarrow> upload_state option \<Rightarrow> dispatchResult \<Rightarrow> 'r stream_state" where
  "new_stream_state opts now seq upload result =
     \<lparr>ss_validator = NewStreamValidator defaultRequestAttempt (initialDownloadCredit opts) (do_FrameIdleTimeout opts) now,
      ss_c2eSeq = seq, ss_upload = upload, ss_uploading = (upload \<noteq> None), ss_uploadErr = None, ss_sent = [], ss_failures = 0,
      ss_result = result, ss_egressStart = None, ss_outboundStarted = False, ss_responseStarted = False\<rparr>"

definition started_result :: "string option \<Rightarrow> dispatchResult" where
  "started_result fingerprint = empty_result\<lparr>res_status := 200, res_selectedFingerprintProfile := selectedFingerprintForRequest fingerprint\<rparr>"

section \<open>Decoded responses\<close>

record ('r, 's) decodedResponseStreamState = "'r stream_state" +
  ds_responseUpload :: "ResponseUpload option"
  ds_service :: "'s Service"

type_synonym ('r, 's) decoded = "('r, 's) decodedResponseStreamState"

definition acceptResponseData ::
    "DispatcherOptions \<Rightarrow> 's Env \<Rightarrow> bytes \<Rightarrow> ('r, 's) decoded \<Rightarrow> ('r, 's) decoded \<times> PipelineError option" where
  "acceptResponseData opts en d s = (case ds_responseUpload s of
     Some u \<Rightarrow>
       (case ResponseUpload_Write en d u (ds_service s) of
          (u', sv, Some e) \<Rightarrow> (s\<lparr>ds_responseUpload := Some u', ds_service := sv\<rparr>, Some (pipeline_error BodyTooLarge))
        | (u', sv, None) \<Rightarrow> (return_credit (of_nat (length d)) (s\<lparr>ds_responseUpload := Some u', ds_service := sv\<rparr>), None))
   | None \<Rightarrow>
       (let s = s\<lparr>ss_result := (ss_result s)\<lparr>res_body := res_body (ss_result s) @ d\<rparr>\<rparr> in
        if int (length (res_body (ss_result s))) > uint (do_MaxInlineResponseBodyBytes opts) then (s, Some (pipeline_error BodyTooLarge))
        else (return_credit (of_nat (length d)) s, None)))"

text \<open>The first component tells whether the payload was one of the progress frames.\<close>

definition acceptResponseProgress ::
    "DispatcherOptions \<Rightarrow> 's Env \<Rightarrow> instant \<Rightarrow> 'r payload \<Rightarrow> ('r, 's) decoded \<Rightarrow> bool \<times> ('r, 's) decoded \<times> PipelineError option" where
  "acceptResponseProgress opts en now p s = (case p of
     OutboundStart f \<Rightarrow> (True, acceptOutboundStart now f s)
   | ResponseStart status headers \<Rightarrow> (True, s\<lparr>ss_result := (ss_result s)\<lparr>res_status := status, res_headers := headers\<rparr>\<rparr>, None)
   | Data _ d \<Rightarrow> (True, acceptResponseData opts en d s)
   | Credit up _ \<Rightarrow> (True, grant_upload up s, None)
   | _ \<Rightarrow> (False, s, None))"

definition acceptResponseTerminal ::
    "instant \<Rightarrow> 'r payload \<Rightarrow> ('r, 's) decoded \<Rightarrow> ('r, 's) decoded \<times> bool \<times> PipelineError option" where
  "acceptResponseTerminal now p s = (case p of
     ErrorP f \<Rightarrow> (case executorError f s of (s, e) \<Rightarrow> (s, True, e))
   | CancelledP \<Rightarrow> (s, True, Some (pipeline_error Cancelled))
   | EndFrame _ \<Rightarrow> (s\<lparr>ss_result := (ss_result s)\<lparr>res_egressMs := egressMillis (ss_egressStart s) now\<rparr>\<rparr>, True, None)
   | Trailers _ \<Rightarrow> (s, False, None)
   | _ \<Rightarrow> (routeFailure s, True, Some (pipeline_error ProtocolError)))"

definition acceptResponseFrame ::
    "DispatcherOptions \<Rightarrow> 's Env \<Rightarrow> RouteOutcome \<Rightarrow> instant \<Rightarrow> 'r StreamFrame option \<Rightarrow> ('r, 's) decoded
      \<Rightarrow> ('r, 's) decoded \<times> bool \<times> PipelineError option" where
  "acceptResponseFrame opts en route now mf s =
     (let (v, out) = Accept now (ss_validator s) mf;
          s = s\<lparr>ss_validator := v\<rparr>;
          (ok, done, perr) = acceptedResponseFrame out in
      if \<not> ok \<or> done then (s, done, perr)
      else let p = frame_payload (the mf) in
        (case validateRouteResponseFrame route p s of
           (s, Some e) \<Rightarrow> (s, True, Some e)
         | (s, None) \<Rightarrow>
            (case acceptResponseProgress opts en now p s of
               (True, s, e) \<Rightarrow> (s, False, e)
             | (False, s, _) \<Rightarrow> acceptResponseTerminal now p s)))"

definition decoded_next ::
    "DispatcherOptions \<Rightarrow> 's Env \<Rightarrow> RouteOutcome \<Rightarrow> int \<Rightarrow> instant \<Rightarrow> 'r stream_input \<Rightarrow> ('r, 's) decoded
      \<Rightarrow> ('r, 's) decoded \<times> bool \<times> PipelineError option" where
  "decoded_next opts en route bodySize now ev s = (case ev of
     ClientGone \<Rightarrow> (sendCancel ''client_cancelled'' s, True, Some (pipeline_error Cancelled))
   | UploadTurn rd ctxDone \<Rightarrow> (upload_step opts bodySize rd ctxDone s, False, None)
   | UploadReported \<Rightarrow> upload_event sendCancel s
   | DeadlinePassed \<Rightarrow> (sendCancel ''deadline_exceeded'' s, True, Some (timeout_error ''total_deadline_timeout''))
   | Tick connected \<Rightarrow> (case responseStreamTick now connected s of (s, e) \<Rightarrow> (s, False, e))
   | FramesClosed \<Rightarrow> (case streamLost WorkerDisconnected s of (s, e) \<Rightarrow> (s, True, e))
   | FrameArrived mf \<Rightarrow> acceptResponseFrame opts en route now mf s)"

definition commitResponseReceipt ::
    "'s Env \<Rightarrow> instant \<Rightarrow> ('r, 's) decoded \<Rightarrow> ('r, 's) decoded \<times> PipelineError option" where
  "commitResponseReceipt en now s = (case ds_responseUpload s of
     None \<Rightarrow> (s, None)
   | Some u \<Rightarrow>
      (case Commit en now u (ds_service s) of
         (u', sv, Inl e) \<Rightarrow> (s\<lparr>ds_responseUpload := Some u', ds_service := sv\<rparr>, Some (pipeline_error ControlInternalError))
       | (u', sv, Inr r) \<Rightarrow>
           if rd_SizeBytes r < 0 then (s\<lparr>ds_responseUpload := Some u', ds_service := sv\<rparr>, Some (pipeline_error ControlInternalError))
           else (s\<lparr>ds_responseUpload := None, ds_service := sv, ss_result := (ss_result s)\<lparr>res_responseReceiptID := rd_ID r,
                   res_responseReceiptSHA256 := rd_SHA256Hex r, res_size := of_int (rd_SizeBytes r)\<rparr>\<rparr>, None)))"

definition abort_response :: "'s Env \<Rightarrow> ('r, 's) decoded \<Rightarrow> ('r, 's) decoded" where
  "abort_response en s = (case ds_responseUpload s of
     None \<Rightarrow> s
   | Some u \<Rightarrow> (case Abort en u (ds_service s) of (u', sv) \<Rightarrow> s\<lparr>ds_responseUpload := Some u', ds_service := sv\<rparr>))"

definition close_gate :: "('r, 'z) stream_state_scheme \<Rightarrow> ('r, 'z) stream_state_scheme" where
  "close_gate s = s\<lparr>ss_upload := map_option (\<lambda>u. u\<lparr>u_gate := gate_close (u_gate u)\<rparr>) (ss_upload s)\<rparr>"

text \<open>
  \<open>receipt\<close> is the receipt mode with the random identifier of the stored response, \<open>enabled\<close> whether Control has a
  receipt service.  The result is the final state with the error, or the waiting state.
\<close>

definition readResponse ::
    "DispatcherOptions \<Rightarrow> 's Env \<Rightarrow> bool \<Rightarrow> RouteOutcome \<Rightarrow> string \<Rightarrow> string option \<Rightarrow> 128 word option \<Rightarrow> int \<Rightarrow> uint64 \<Rightarrow> upload_state option
      \<Rightarrow> instant \<Rightarrow> (instant \<times> 'r stream_input) list \<Rightarrow> instant \<Rightarrow> 's Service \<Rightarrow> ('r, 's) decoded \<times> PipelineError option option" where
  "readResponse opts en enabled route deploymentID fingerprint receipt bodySize seq upload now evs commitTime sv =
     (let s0 = stream_state.extend (new_stream_state opts now seq upload empty_result) \<lparr>ds_responseUpload = None, ds_service = sv\<rparr>;
          begun = (case receipt of
             None \<Rightarrow> Inr None
           | Some raw \<Rightarrow>
              if \<not> enabled then Inl ((pipeline_error BodyRefUnavailable)\<lparr>pe_Message := ''response receipts are not enabled''\<rparr>)
              else (case BeginResponse raw deploymentID of Inl e \<Rightarrow> Inl (pipeline_error ControlInternalError) | Inr u \<Rightarrow> Inr (Some u))) in
      case begun of
        Inl e \<Rightarrow> (s0, Some (Some e))
      | Inr ru \<Rightarrow>
         (case stream_loop (decoded_next opts en route bodySize) evs
                 (s0\<lparr>ss_result := started_result fingerprint, ds_responseUpload := ru\<rparr>) of
            (s, None) \<Rightarrow> (s, None)
          | (s, Some (Some e)) \<Rightarrow> (close_gate (abort_response en s), Some (Some e))
          | (s, Some None) \<Rightarrow> (case commitResponseReceipt en commitTime s of (s, e) \<Rightarrow> (close_gate s, Some e))))"

section \<open>Raw responses\<close>

definition httpTokenAllowed :: "char \<Rightarrow> bool" where
  "httpTokenAllowed c \<longleftrightarrow> c \<in> set ''!#$%&*+-.^_|~'' \<or> c = CHR 0x27 \<or> c = CHR 0x60 \<or> is_digit c \<or> is_upper c \<or> is_lower c"

definition isValidHTTPToken :: "string \<Rightarrow> bool" where
  "isValidHTTPToken s \<longleftrightarrow> s \<noteq> [] \<and> list_all httpTokenAllowed s"

definition responseConnectionHeaders :: "header list \<Rightarrow> string list" where
  "responseConnectionHeaders headers =
     concat (map (\<lambda>(name, value). if EqualFold name ''connection'' then map (to_lower \<circ> trim_space) (split_on CHR '','' value) else []) headers)"

definition rawResponseHeaderAllowed :: "string \<Rightarrow> string list \<Rightarrow> bool" where
  "rawResponseHeaderAllowed name connectionHeaders =
     (if \<not> isValidHTTPToken name \<or> has_prefix (to_lower name) ''x-straw-'' then False
      else let lower = to_lower name in
        if lower \<in> set connectionHeaders then False
        else lower \<notin> set [''transfer-encoding'', ''content-length'', ''connection'', ''proxy-authorization'', ''keep-alive'',
          ''proxy-authenticate'', ''proxy-connection'', ''te'', ''trailer'', ''upgrade''])"

datatype client_write = ClientHead uint32 "header list" | ClientData bytes | ClientTrailers "header list"

record 'r rawResponseStreamState = "'r stream_state" +
  rw_out :: "client_write list"
  rw_faults :: "nat option list"
  rw_wroteHeader :: bool

definition writeRawResponseStart :: "uint32 \<Rightarrow> header list \<Rightarrow> 'r rawResponseStreamState \<Rightarrow> 'r rawResponseStreamState" where
  "writeRawResponseStart status headers s =
     s\<lparr>rw_out := rw_out s @ [ClientHead status (filter (\<lambda>(name, _). rawResponseHeaderAllowed name (responseConnectionHeaders headers)) headers)]\<rparr>"

definition writeRawTrailers :: "header list \<Rightarrow> 'r rawResponseStreamState \<Rightarrow> 'r rawResponseStreamState" where
  "writeRawTrailers trailers s =
     s\<lparr>rw_out := rw_out s @ [ClientTrailers (filter (\<lambda>(name, _). rawResponseHeaderAllowed name []) trailers)]\<rparr>"

text \<open>Bytes written and whether the write failed.\<close>

definition client_fault :: "nat option list \<Rightarrow> bytes \<Rightarrow> bytes \<times> bool \<times> nat option list" where
  "client_fault faults d = (case faults of
     [] \<Rightarrow> (d, False, [])
   | None # fs \<Rightarrow> (d, False, fs)
   | Some n # fs \<Rightarrow> (take n d, True, fs))"

definition raw_writeData :: "bytes \<Rightarrow> 'r rawResponseStreamState \<Rightarrow> 'r rawResponseStreamState \<times> PipelineError option" where
  "raw_writeData d s =
     (if \<not> rw_wroteHeader s then (routeFailure s, Some (pipeline_error ProtocolError))
      else (case client_fault (rw_faults s) d of
        (written, failed, faults) \<Rightarrow>
          (let s = s\<lparr>rw_out := rw_out s @ [ClientData written], rw_faults := faults\<rparr> in
           if failed then (sendCancel ''client_disconnect'' s, Some (pipeline_error Cancelled))
           else (return_credit (of_nat (length written)) s, None))))"

definition raw_accept :: "instant \<Rightarrow> 'r payload \<Rightarrow> 'r rawResponseStreamState \<Rightarrow> 'r rawResponseStreamState \<times> bool \<times> PipelineError option" where
  "raw_accept now p s = (case p of
     Credit up _ \<Rightarrow> (grant_upload up s, False, None)
   | OutboundStart f \<Rightarrow> (case acceptOutboundStart now f s of (s, e) \<Rightarrow> (s, e \<noteq> None, e))
   | ResponseStart status headers \<Rightarrow>
       (let s = s\<lparr>ss_result := (ss_result s)\<lparr>res_status := status, res_headers := headers\<rparr>\<rparr> in
        ((writeRawResponseStart status headers s)\<lparr>rw_wroteHeader := True\<rparr>, False, None))
   | Data _ d \<Rightarrow> (case raw_writeData d s of (s, e) \<Rightarrow> (s, False, e))
   | Trailers ts \<Rightarrow> ((if rw_wroteHeader s then writeRawTrailers ts s else s), False, None)
   | ErrorP f \<Rightarrow> (case executorError f s of (s, e) \<Rightarrow> (s, True, e))
   | CancelledP \<Rightarrow> (s, True, Some (pipeline_error Cancelled))
   | EndFrame _ \<Rightarrow> (s\<lparr>ss_result := (ss_result s)\<lparr>res_egressMs := egressMillis (ss_egressStart s) now\<rparr>\<rparr>, True, None)
   | _ \<Rightarrow> (routeFailure s, True, Some (pipeline_error ProtocolError)))"

definition raw_acceptValidated ::
    "RouteOutcome \<Rightarrow> instant \<Rightarrow> 'r StreamFrame option \<Rightarrow> 'r rawResponseStreamState \<Rightarrow> 'r rawResponseStreamState \<times> bool \<times> PipelineError option" where
  "raw_acceptValidated route now mf s =
     (let (v, out) = Accept now (ss_validator s) mf;
          s = s\<lparr>ss_validator := v\<rparr>;
          (ok, done, perr) = acceptedResponseFrame out in
      if \<not> ok \<or> done then (s, done, perr)
      else let p = frame_payload (the mf) in
        (case validateRouteResponseFrame route p s of
           (s, Some e) \<Rightarrow> (s, True, Some e)
         | (s, None) \<Rightarrow> raw_accept now p s))"

definition raw_next ::
    "DispatcherOptions \<Rightarrow> RouteOutcome \<Rightarrow> int \<Rightarrow> instant \<Rightarrow> 'r stream_input \<Rightarrow> 'r rawResponseStreamState
      \<Rightarrow> 'r rawResponseStreamState \<times> bool \<times> PipelineError option" where
  "raw_next opts route bodySize now ev s = (case ev of
     ClientGone \<Rightarrow> (sendCancel ''client_cancelled'' s, True, Some (pipeline_error Cancelled))
   | UploadTurn rd ctxDone \<Rightarrow> (upload_step opts bodySize rd ctxDone s, False, None)
   | UploadReported \<Rightarrow> upload_event sendCancel s
   | DeadlinePassed \<Rightarrow> (sendCancel ''deadline_exceeded'' s, True, Some (timeout_error ''total_deadline_timeout''))
   | Tick connected \<Rightarrow> (case responseStreamTick now connected s of (s, e) \<Rightarrow> (s, False, e))
   | FramesClosed \<Rightarrow> (case streamLost WorkerDisconnected s of (s, e) \<Rightarrow> (s, True, e))
   | FrameArrived mf \<Rightarrow> raw_acceptValidated route now mf s)"

definition new_raw_state :: "DispatcherOptions \<Rightarrow> string option \<Rightarrow> uint64 \<Rightarrow> upload_state option \<Rightarrow> nat option list \<Rightarrow> instant \<Rightarrow> 'r rawResponseStreamState" where
  "new_raw_state opts fingerprint seq upload faults now =
     stream_state.extend (new_stream_state opts now (case upload of Some u \<Rightarrow> c2e_seq (u_c2e u) | None \<Rightarrow> seq) upload (started_result fingerprint))
       \<lparr>rw_out = [], rw_faults = faults, rw_wroteHeader = False\<rparr>"

definition streamRawResponse ::
    "DispatcherOptions \<Rightarrow> RouteOutcome \<Rightarrow> string option \<Rightarrow> int \<Rightarrow> uint64 \<Rightarrow> upload_state option \<Rightarrow> nat option list \<Rightarrow> instant
      \<Rightarrow> (instant \<times> 'r stream_input) list \<Rightarrow> 'r rawResponseStreamState \<times> PipelineError option option" where
  "streamRawResponse opts route fingerprint bodySize seq upload faults now evs =
     (case stream_loop (raw_next opts route bodySize) evs (new_raw_state opts fingerprint seq upload faults now) of
        (s, None) \<Rightarrow> (s, None) | (s, Some e) \<Rightarrow> (close_gate s, Some e))"

section \<open>Tunnels\<close>

record 'r tunnelStreamState = "'r stream_state" +
  tn_out :: bytes
  tn_faults :: "nat option list"
  tn_established :: bool

definition connection_established :: bytes where
  "connection_established = ''HTTP/1.1 200 Connection Established'' @ [CHR 0x0D, CHR 0x0A, CHR 0x0D, CHR 0x0A]"

definition tunnel_cancel :: "string \<Rightarrow> 'r tunnelStreamState \<Rightarrow> 'r tunnelStreamState" where
  "tunnel_cancel reason s = (case ss_upload s of
     Some u \<Rightarrow> (case c2e_cancel (u_c2e u) reason of
        (f, c) \<Rightarrow> s\<lparr>ss_sent := ss_sent s @ [f], ss_upload := Some (u\<lparr>u_c2e := c\<rparr>)\<rparr>)
   | None \<Rightarrow> sendCancel reason s)"

definition tunnel_write :: "bytes \<Rightarrow> 'r tunnelStreamState \<Rightarrow> 'r tunnelStreamState \<times> bool" where
  "tunnel_write d s = (case client_fault (tn_faults s) d of
     (written, failed, faults) \<Rightarrow> (s\<lparr>tn_out := tn_out s @ written, tn_faults := faults\<rparr>, failed))"

definition tunnel_acceptResponseStart :: "uint32 \<Rightarrow> 'r tunnelStreamState \<Rightarrow> 'r tunnelStreamState \<times> PipelineError option" where
  "tunnel_acceptResponseStart status s =
     (if tn_established s \<or> status \<noteq> 200 then (s, Some (pipeline_error ProtocolError))
      else (case tunnel_write connection_established s of
        (s, True) \<Rightarrow> (s, Some (pipeline_error Cancelled))
      | (s, False) \<Rightarrow> (s\<lparr>tn_established := True, ss_result := (ss_result s)\<lparr>res_status := 200\<rparr>\<rparr>, None)))"

definition tunnel_acceptData :: "bytes \<Rightarrow> 'r tunnelStreamState \<Rightarrow> 'r tunnelStreamState \<times> PipelineError option" where
  "tunnel_acceptData d s =
     (if \<not> tn_established s then (s, Some (pipeline_error ProtocolError))
      else (case tunnel_write d s of
        (s, True) \<Rightarrow> (tunnel_cancel ''client_disconnect'' s, Some (pipeline_error Cancelled))
      | (s, False) \<Rightarrow>
         (let n = of_nat (length d);
              s = s\<lparr>ss_result := (ss_result s)\<lparr>res_size := res_size (ss_result s) + n\<rparr>\<rparr>;
              s = (case ss_upload s of Some u \<Rightarrow> upload_credit n u s | None \<Rightarrow> sendDownloadCredit n s) in
          (s\<lparr>ss_validator := GrantCredit n (ss_validator s)\<rparr>, None))))"

definition tunnel_acceptEnd :: "instant \<Rightarrow> 'r tunnelStreamState \<Rightarrow> 'r tunnelStreamState \<times> bool \<times> PipelineError option" where
  "tunnel_acceptEnd now s =
     (if \<not> tn_established s then (s, True, Some (pipeline_error ProtocolError))
      else (s\<lparr>ss_result := (ss_result s)\<lparr>res_egressMs := egressMillis (ss_egressStart s) now\<rparr>\<rparr>, True, None))"

definition tunnel_acceptPayload :: "instant \<Rightarrow> 'r payload \<Rightarrow> 'r tunnelStreamState \<Rightarrow> 'r tunnelStreamState \<times> bool \<times> PipelineError option" where
  "tunnel_acceptPayload now p s = (case p of
     OutboundStart _ \<Rightarrow> (s\<lparr>ss_egressStart := Some now\<rparr>, False, None)
   | ResponseStart status _ \<Rightarrow> (case tunnel_acceptResponseStart status s of (s, e) \<Rightarrow> (s, False, e))
   | Data _ d \<Rightarrow> (case tunnel_acceptData d s of (s, e) \<Rightarrow> (s, False, e))
   | ErrorP f \<Rightarrow> (case executorError f s of (s, e) \<Rightarrow> (s, True, e))
   | CancelledP \<Rightarrow> (s, True, Some (pipeline_error Cancelled))
   | EndFrame _ \<Rightarrow> tunnel_acceptEnd now s
   | _ \<Rightarrow> (routeFailure s, True, Some (pipeline_error ProtocolError)))"

definition tunnel_accept ::
    "RouteOutcome \<Rightarrow> instant \<Rightarrow> 'r StreamFrame option \<Rightarrow> 'r tunnelStreamState \<Rightarrow> 'r tunnelStreamState \<times> bool \<times> PipelineError option" where
  "tunnel_accept route now mf s =
     (let (v, out) = Accept now (ss_validator s) mf;
          s = s\<lparr>ss_validator := v\<rparr>;
          (ok, done, perr) = acceptedResponseFrame out in
      if \<not> ok \<or> done then (s, done, perr)
      else let p = frame_payload (the mf) in
        (case validateRouteResponseFrame route p s of
           (s, Some e) \<Rightarrow> (s, True, Some e)
         | (s, None) \<Rightarrow> (case p of Credit up _ \<Rightarrow> (grant_upload up s, False, None) | _ \<Rightarrow> tunnel_acceptPayload now p s)))"

definition tunnel_tick :: "instant \<Rightarrow> bool \<Rightarrow> 'r tunnelStreamState \<Rightarrow> 'r tunnelStreamState \<times> PipelineError option" where
  "tunnel_tick now connected s =
     (if \<not> connected then streamLost TransportUnavailable s
      else if IdleExpired now (ss_validator s) then (tunnel_cancel ''idle_timeout'' s, Some (timeout_error ''idle_timeout''))
      else (s, None))"

definition tunnel_next ::
    "DispatcherOptions \<Rightarrow> RouteOutcome \<Rightarrow> int \<Rightarrow> instant \<Rightarrow> 'r stream_input \<Rightarrow> 'r tunnelStreamState
      \<Rightarrow> 'r tunnelStreamState \<times> bool \<times> PipelineError option" where
  "tunnel_next opts route bodySize now ev s = (case ev of
     ClientGone \<Rightarrow> (tunnel_cancel ''client_cancelled'' s, True, Some (pipeline_error Cancelled))
   | UploadTurn rd ctxDone \<Rightarrow> (upload_step opts bodySize rd ctxDone s, False, None)
   | UploadReported \<Rightarrow> upload_event tunnel_cancel s
   | DeadlinePassed \<Rightarrow> (tunnel_cancel ''deadline_exceeded'' s, True, Some (timeout_error ''total_deadline_timeout''))
   | Tick connected \<Rightarrow> (case tunnel_tick now connected s of (s, e) \<Rightarrow> (s, False, e))
   | FramesClosed \<Rightarrow> (case streamLost WorkerDisconnected s of (s, e) \<Rightarrow> (s, True, e))
   | FrameArrived mf \<Rightarrow> tunnel_accept route now mf s)"

definition new_tunnel_state :: "DispatcherOptions \<Rightarrow> uint64 \<Rightarrow> upload_state option \<Rightarrow> nat option list \<Rightarrow> instant \<Rightarrow> 'r tunnelStreamState" where
  "new_tunnel_state opts seq upload faults now =
     stream_state.extend (new_stream_state opts now (case upload of Some u \<Rightarrow> c2e_seq (u_c2e u) | None \<Rightarrow> seq) upload empty_result)
       \<lparr>tn_out = [], tn_faults = faults, tn_established = False\<rparr>"

definition streamTunnel ::
    "DispatcherOptions \<Rightarrow> RouteOutcome \<Rightarrow> int \<Rightarrow> uint64 \<Rightarrow> upload_state option \<Rightarrow> nat option list \<Rightarrow> instant
      \<Rightarrow> (instant \<times> 'r stream_input) list \<Rightarrow> 'r tunnelStreamState \<times> PipelineError option option" where
  "streamTunnel opts route bodySize seq upload faults now evs =
     (case stream_loop (tunnel_next opts route bodySize) evs (new_tunnel_state opts seq upload faults now) of
        (s, None) \<Rightarrow> (s, None) | (s, Some e) \<Rightarrow> (close_gate s, Some e))"

section \<open>No response error allows a second attempt\<close>

text \<open>The contract of a turn: whatever error it reports is not one that \<open>executeAttemptOrFallback\<close> retries.\<close>

locale stream_turns =
  fixes turn :: "instant \<Rightarrow> 'e \<Rightarrow> 's \<Rightarrow> 's \<times> bool \<times> PipelineError option"
  assumes turn_codes: "turn now ev s = (s', done, Some e) \<Longrightarrow> \<not> canFallbackBeforeRequestStart (pe_Code e)"
begin

lemma loop_codes: "stream_loop turn evs s = (s', Some (Some e)) \<Longrightarrow> \<not> canFallbackBeforeRequestStart (pe_Code e)"
proof (induction evs arbitrary: s)
  case (Cons x evs)
  obtain now ev where x: "x = (now, ev)" by fastforce
  obtain s1 d1 e1 where t: "turn now ev s = (s1, d1, e1)" by (metis prod_cases3)
  show ?case using Cons t turn_codes [of now ev s] by (auto simp: x split: if_splits)
qed simp

end

lemma emittable_not_fallback: "\<not> canFallbackBeforeRequestStart (fst (ValidateExecutorError c))"
  by (auto simp: ValidateExecutorError_def executorEmittableCodes_def canFallbackBeforeRequestStart_def)

lemmas fallback_codes = canFallbackBeforeRequestStart_def pipeline_error_def timeout_error_def

lemma executorError_codes: "executorError f s = (s', Some e) \<Longrightarrow> \<not> canFallbackBeforeRequestStart (pe_Code e)"
  using emittable_not_fallback [of "ef_Code f"] by (auto simp: executorError_def errorFramePipelineError_def split: prod.splits)

lemma shared_codes:
  "validateRouteResponseFrame route p s = (s', Some e) \<Longrightarrow> pe_Code e = ProtocolError"
  "acceptedResponseFrame out = (ok, done, Some e) \<Longrightarrow> pe_Code e = ProtocolError"
  "responseStreamTick now c s = (s', Some e) \<Longrightarrow> pe_Code e \<in> {TransportUnavailable, TimeoutExceeded}"
  "upload_event cancel s = (s', done, Some e) \<Longrightarrow> pe_Code e \<in> {BodyTooLarge, TransportUnavailable}"
  "acceptOutboundStart now f s = (s', Some e) \<Longrightarrow> pe_Code e = ProtocolError"
  by (auto simp: validateRouteResponseFrame_def validateOutboundStartFrame_def validateResponseStartFrame_def validateResponseDataFrame_def
      validateResponseEndFrame_def routeProtocolFailure_def acceptedResponseFrame_def responseStreamTick_def streamLost_def upload_event_def
      requestStreamPipelineError_def acceptOutboundStart_def pipeline_error_def timeout_error_def Let_def
      split: payload.splits if_splits option.splits upload_err.splits)

lemma acceptResponseFrame_codes:
  "acceptResponseFrame opts en route now mf s = (s', done, Some e) \<Longrightarrow> \<not> canFallbackBeforeRequestStart (pe_Code e)"
  by (auto simp: acceptResponseFrame_def acceptResponseProgress_def acceptResponseTerminal_def acceptResponseData_def Let_def fallback_codes
      split: prod.splits option.splits payload.splits if_splits bool.splits
      dest!: shared_codes executorError_codes)

lemma raw_acceptValidated_codes:
  "raw_acceptValidated route now mf s = (s', done, Some e) \<Longrightarrow> \<not> canFallbackBeforeRequestStart (pe_Code e)"
  by (auto simp: raw_acceptValidated_def raw_accept_def raw_writeData_def Let_def fallback_codes
      split: prod.splits option.splits payload.splits if_splits
      dest!: shared_codes executorError_codes)

lemma tunnel_accept_codes:
  "tunnel_accept route now mf s = (s', done, Some e) \<Longrightarrow> \<not> canFallbackBeforeRequestStart (pe_Code e)"
  by (auto simp: tunnel_accept_def tunnel_acceptPayload_def tunnel_acceptResponseStart_def tunnel_acceptData_def tunnel_acceptEnd_def
      Let_def fallback_codes
      split: prod.splits option.splits payload.splits if_splits bool.splits
      dest!: shared_codes executorError_codes)

interpretation decoded_turns: stream_turns "decoded_next opts en route n" for opts en route n
proof
  fix now ev s s' "done" e
  assume "decoded_next opts en route n now ev s = (s', done, Some e)"
  then show "\<not> canFallbackBeforeRequestStart (pe_Code e)"
    by (cases ev) (auto simp: decoded_next_def streamLost_def fallback_codes split: prod.splits dest: acceptResponseFrame_codes dest!: shared_codes)
qed

interpretation raw_turns: stream_turns "raw_next opts route n" for opts route n
proof
  fix now ev s s' "done" e
  assume "raw_next opts route n now ev s = (s', done, Some e)"
  then show "\<not> canFallbackBeforeRequestStart (pe_Code e)"
    by (cases ev) (auto simp: raw_next_def streamLost_def fallback_codes split: prod.splits dest: raw_acceptValidated_codes dest!: shared_codes)
qed

lemma tunnel_tick_codes: "tunnel_tick now c s = (s', Some e) \<Longrightarrow> pe_Code e \<in> {TransportUnavailable, TimeoutExceeded}"
  by (auto simp: tunnel_tick_def streamLost_def pipeline_error_def timeout_error_def split: if_splits)

interpretation tunnel_turns: stream_turns "tunnel_next opts route n" for opts route n
proof
  fix now ev s s' "done" e
  assume "tunnel_next opts route n now ev s = (s', done, Some e)"
  then show "\<not> canFallbackBeforeRequestStart (pe_Code e)"
    by (cases ev) (auto simp: tunnel_next_def streamLost_def fallback_codes split: prod.splits dest: tunnel_accept_codes dest!: shared_codes tunnel_tick_codes)
qed

lemma readResponse_codes:
  "readResponse opts en enabled route d fp rc n seq up now evs ct sv = (s, Some (Some e)) \<Longrightarrow> \<not> canFallbackBeforeRequestStart (pe_Code e)"
  by (auto simp: readResponse_def commitResponseReceipt_def Let_def fallback_codes
      split: option.splits sum.splits prod.splits if_splits dest!: decoded_turns.loop_codes)

end
