(* ===== verification/Response_Runs.thy ===== *)
theory Response_Runs
  imports Response_Stream Receipt_Runs
begin

text \<open>
  What the response loops of Control achieve together with the executor: the reply of the destination is what
  \<open>readResponse\<close> returns, and a response streamed raw is the one that would have been collected.
\<close>

section \<open>Responses from end to end\<close>

text \<open>
  How the frames of a worker reach a loop: in order, each possibly again after its first delivery, between ticks of a
  connected client that come before the idle timeout of the last new frame.
\<close>

inductive arrivals :: "int \<Rightarrow> instant \<Rightarrow> 'r StreamFrame list \<Rightarrow> 'r StreamFrame list \<Rightarrow> (instant \<times> 'r stream_input) list \<Rightarrow> bool" where
  arrived: "arrivals idle since ds [] []"
| arrives: "arrivals idle t (ds @ [f]) fs evs \<Longrightarrow> arrivals idle since ds (f # fs) ((t, FrameArrived (Some f)) # evs)"
| again: "f \<in> set ds \<Longrightarrow> arrivals idle since ds fs evs \<Longrightarrow> arrivals idle since ds fs ((t, FrameArrived (Some f)) # evs)"
| ticked: "idle \<le> 0 \<or> t - since < idle \<Longrightarrow> arrivals idle since ds fs evs \<Longrightarrow> arrivals idle since ds fs ((t, Tick True) # evs)"

text \<open>What a payload contributes to the result, and how a terminal payload ends the loop.\<close>

fun absorb :: "dispatchResult \<Rightarrow> 'r payload \<Rightarrow> dispatchResult" where
  "absorb r (OutboundStart f) = r\<lparr>res_executedFingerprintProfile := os_ExecutedFingerprintProfile f\<rparr>"
| "absorb r (ResponseStart status headers) = r\<lparr>res_status := status, res_headers := headers\<rparr>"
| "absorb r (Data _ d) = r\<lparr>res_body := res_body r @ d, res_size := res_size r + of_nat (length d)\<rparr>"
| "absorb r _ = r"

fun terminal_outcome :: "'r payload \<Rightarrow> PipelineError option option" where
  "terminal_outcome (EndFrame _) = Some None"
| "terminal_outcome (ErrorP f) = Some (Some (errorFramePipelineError (fst (ValidateExecutorError (ef_Code f))) f))"
| "terminal_outcome _ = None"

text \<open>The order in which Egress sends, for a route and the profile asked for.\<close>

fun phased :: "RouteOutcome \<Rightarrow> string \<Rightarrow> bool \<Rightarrow> bool \<Rightarrow> 'r payload list \<Rightarrow> bool" where
  "phased route profile ob rs [] = True"
| "phased route profile ob rs (OutboundStart f # ps) = (\<not> ob \<and> os_UpstreamProxyId f = o_UpstreamProxyID route
     \<and> validateExecutedFingerprint profile (os_ExecutedFingerprintProfile f) \<and> phased route profile True rs ps)"
| "phased route profile ob rs (ResponseStart _ _ # ps) = (ob \<and> \<not> rs \<and> phased route profile ob True ps)"
| "phased route profile ob rs (Data _ _ # ps) = (rs \<and> phased route profile ob rs ps)"
| "phased route profile ob rs (Trailers _ # ps) = (rs \<and> phased route profile ob rs ps)"
| "phased route profile ob rs (EndFrame _ # ps) = (ob \<and> rs \<and> ps = [])"
| "phased route profile ob rs (ErrorP _ # ps) = (ps = [])"
| "phased route profile ob rs (_ # ps) = False"

definition awaiting :: "DispatcherOptions \<Rightarrow> ('r, 's) decoded \<Rightarrow> nat \<Rightarrow> nat \<Rightarrow> instant \<Rightarrow> bool" where
  "awaiting opts s k off since \<longleftrightarrow>
     ss_validator s = \<lparr>v_attempt = 1, v_expectedSeq = of_nat (Suc k), v_offset = of_nat off, v_credit = initialDownloadCredit opts,
       v_terminal = False, v_idleTimeout = do_FrameIdleTimeout opts, v_lastActivity = since, v_allowBodyRef = False\<rparr>
   \<and> ds_responseUpload s = None \<and> ss_upload s = None"

lemma word_small:
  "Suc n < 2 ^ 64 \<Longrightarrow> (of_nat (Suc n) :: uint64) \<noteq> 0"
  "m < n \<Longrightarrow> n < 2 ^ 64 \<Longrightarrow> (of_nat m :: uint64) < of_nat n"
  "n \<le> unat c \<Longrightarrow> \<not> c < (of_nat n :: uint64)"
  using unat_of_nat_64 [of "Suc n"] unat_of_nat_64 [of m] unat_of_nat_64 [of n] unat_lt_64 [of c]
  by (auto simp: word_less_nat_alt simp del: of_nat_Suc)

lemma Accept_expected:
  assumes "Suc k < 2 ^ 64" "\<forall>r. p \<noteq> BodyRef r" "\<forall>o' d. p = Data o' d \<longrightarrow> o' = v_offset v \<and> length d \<le> unat (v_credit v)"
    and "\<not> v_terminal v" "v_attempt v = 1" "v_expectedSeq v = of_nat (Suc k)"
  shows "Accept t v (Some (mk_frame (of_nat (Suc k)) 1 p)) =
    (v\<lparr>v_expectedSeq := of_nat (Suc (Suc k)), v_lastActivity := t, v_terminal := isTerminalFrame p,
       v_credit := v_credit v - of_nat (length (payload_bytes p)), v_offset := v_offset v + of_nat (length (payload_bytes p))\<rparr>, FrameAccepted)"
proof -
  note nz = word_small(1) [OF assms(1)]
  have P: "f_Payload (mk_frame (of_nat (Suc k)) 1 p) = Some p" by (simp add: mk_frame_def)
  have D: "\<not> v_credit v < of_nat (length d)" if "p = Data o' d" for o' d
    using assms(3) that word_small(3) by blast
  show ?thesis unfolding Accept_eq [OF P] using assms(2-6) nz D
    by (cases p) (auto simp: mk_frame_def validatePayload_def acceptData_def isTerminalFrame_def Let_def)
qed

lemma Accept_earlier:
  assumes "f_Payload f \<noteq> None" "f_Attempt f = 1" "f_StreamSeq f = of_nat (Suc i)" "i < k" "Suc k < 2 ^ 64"
    and "\<not> v_terminal v" "v_attempt v = 1" "v_expectedSeq v = of_nat (Suc k)"
  shows "Accept t v (Some f) = (v, FrameDuplicate)"
proof -
  obtain p where P: "f_Payload f = Some p" using assms(1) by blast
  have nz: "(of_nat (Suc i) :: uint64) \<noteq> 0" using assms(4,5) by (intro word_small(1)) simp
  have "(of_nat (Suc i) :: uint64) < of_nat (Suc k)" using assms(4,5) by (intro word_small(2)) simp_all
  then show ?thesis using assms nz by (simp add: Accept_eq [OF P] del: of_nat_Suc)
qed


lemma decoded_expected:
  assumes A: "awaiting opts s k off since" and k: "Suc k < 2 ^ 64" and ph: "phased route (res_selectedFingerprintProfile (ss_result s)) (ss_outboundStarted s) (ss_responseStarted s) (p # ps)"
    and d: "offsets_from off (p # ps)" "length (payload_bytes p) \<le> unat (initialDownloadCredit opts)"
    and m: "length (res_body (ss_result s)) + length (payload_bytes p) \<le> unat (do_MaxInlineResponseBodyBytes opts)"
  obtains (progress) s' where "decoded_next opts en route n t (FrameArrived (Some (mk_frame (of_nat (Suc k)) 1 p))) s = (s', False, None)"
      "awaiting opts s' (Suc k) (off + length (payload_bytes p)) t" "ss_result s' = absorb (ss_result s) p"
      "phased route (res_selectedFingerprintProfile (ss_result s)) (ss_outboundStarted s') (ss_responseStarted s') ps" "terminal_outcome p = None"
  | (ended) s' e where "decoded_next opts en route n t (FrameArrived (Some (mk_frame (of_nat (Suc k)) 1 p))) s = (s', True, e)" "terminal_outcome p = Some e" "ps = []"
      "(ss_result s')\<lparr>res_egressMs := 0\<rparr> = (ss_result s)\<lparr>res_egressMs := 0\<rparr>" "ds_responseUpload s' = None" "ss_upload s' = None"
proof -
  let ?v = "ss_validator s"
  let ?f = "mk_frame (of_nat (Suc k)) 1 p"
  have dd: "\<forall>o' b. p = Data o' b \<longrightarrow> o' = v_offset ?v \<and> length b \<le> unat (v_credit ?v)" using d A by (auto simp: awaiting_def)
  have "\<forall>r. p \<noteq> BodyRef r" using ph by auto
  then have acc: "Accept t ?v (Some ?f) = (?v\<lparr>v_expectedSeq := of_nat (Suc (Suc k)), v_lastActivity := t, v_terminal := isTerminalFrame p,
       v_credit := v_credit ?v - of_nat (length (payload_bytes p)), v_offset := v_offset ?v + of_nat (length (payload_bytes p))\<rparr>, FrameAccepted)"
    using A by (intro Accept_expected [OF k _ dd]) (simp_all add: awaiting_def)
  define v1 where "v1 = ?v\<lparr>v_expectedSeq := of_nat (Suc (Suc k)), v_lastActivity := t, v_terminal := isTerminalFrame p,
       v_credit := v_credit ?v - of_nat (length (payload_bytes p)), v_offset := v_offset ?v + of_nat (length (payload_bytes p))\<rparr>"
  have v1: "v1 = \<lparr>v_attempt = 1, v_expectedSeq = of_nat (Suc (Suc k)), v_offset = of_nat (off + length (payload_bytes p)),
      v_credit = initialDownloadCredit opts - of_nat (length (payload_bytes p)), v_terminal = isTerminalFrame p,
      v_idleTimeout = do_FrameIdleTimeout opts, v_lastActivity = t, v_allowBodyRef = False\<rparr>"
    using A by (simp add: v1_def awaiting_def)
  have A': "ds_responseUpload s = None" "ss_upload s = None" using A by (simp_all add: awaiting_def)
  obtain s' a e where N: "decoded_next opts en route n t (FrameArrived (Some ?f)) s = (s', a, e)" by (metis prod_cases3)
  have "frame_payload ?f = p" by (simp add: frame_payload_def mk_frame_def)
  then have N1: "(case validateRouteResponseFrame route p (s\<lparr>ss_validator := v1\<rparr>) of (s, Some e) \<Rightarrow> (s, True, Some e)
      | (s, None) \<Rightarrow> (case acceptResponseProgress opts en t p s of (True, s, e) \<Rightarrow> (s, False, e)
         | (False, s, _) \<Rightarrow> acceptResponseTerminal t p s)) = (s', a, e)"
    using N by (simp add: decoded_next_def acceptResponseFrame_def acc v1_def acceptedResponseFrame_def Let_def del: of_nat_Suc)
  note defs = validateRouteResponseFrame_def acceptResponseProgress_def awaiting_def v1 A' isTerminalFrame_def Let_def
  show ?thesis
  proof (cases p)
    case (OutboundStart f)
    show ?thesis by (rule progress [of s']) (use N N1 ph OutboundStart in \<open>auto simp: defs validateOutboundStartFrame_def acceptOutboundStart_def\<close>)
  next
    case (ResponseStart st hs)
    show ?thesis by (rule progress [of s']) (use N N1 ph ResponseStart in \<open>auto simp: defs validateResponseStartFrame_def\<close>)
  next
    case (Data o' b)
    have "int (length (res_body (ss_result s)) + length b) \<le> int (unat (do_MaxInlineResponseBodyBytes opts))" using m unfolding Data of_nat_le_iff by simp
    then have "\<not> uint (do_MaxInlineResponseBodyBytes opts) < int (length (res_body (ss_result s)) + length b)" by simp
    then show ?thesis using N N1 ph Data
      by (intro progress [of s']) (auto simp: defs validateResponseDataFrame_def acceptResponseData_def return_credit_def sendDownloadCredit_def GrantCredit_def)
  next
    case (Trailers ts)
    show ?thesis by (rule progress [of s']) (use N N1 ph Trailers in \<open>auto simp: defs acceptResponseTerminal_def\<close>)
  next
    case (EndFrame b)
    show ?thesis by (rule ended [of s' e]) (use N N1 ph EndFrame in \<open>auto simp: defs validateResponseEndFrame_def acceptResponseTerminal_def\<close>)
  next
    case (ErrorP f)
    show ?thesis by (rule ended [of s' e]) (use N N1 ph ErrorP in \<open>auto simp: defs acceptResponseTerminal_def executorError_def routeFailure_def split: prod.splits\<close>)
  qed (use ph in simp_all)
qed

lemma decoded_again:
  assumes "awaiting opts s k off since" "Suc k < 2 ^ 64" "f_Payload f \<noteq> None" "f_Attempt f = 1" "f_StreamSeq f = of_nat (Suc i)" "i < k"
  shows "decoded_next opts en route n t (FrameArrived (Some f)) s = (s, False, None)"
proof -
  have "Accept t (ss_validator s) (Some f) = (ss_validator s, FrameDuplicate)"
    using assms by (intro Accept_earlier [of f i k]) (simp_all add: awaiting_def)
  then show ?thesis by (simp add: decoded_next_def acceptResponseFrame_def acceptedResponseFrame_def)
qed

lemma decoded_waits:
  "awaiting opts s k off since \<Longrightarrow> do_FrameIdleTimeout opts \<le> 0 \<or> t - since < do_FrameIdleTimeout opts \<Longrightarrow>
   decoded_next opts en route n t (Tick True) s = (s, False, None)"
  by (auto simp: decoded_next_def responseStreamTick_def IdleExpired_def awaiting_def)

definition delivered_before :: "nat \<Rightarrow> 'r StreamFrame list \<Rightarrow> bool" where
  "delivered_before k ds \<longleftrightarrow> (\<forall>f \<in> set ds. f_Payload f \<noteq> None \<and> f_Attempt f = 1 \<and> (\<exists>i < k. f_StreamSeq f = of_nat (Suc i)))"

lemma loop_collects:
  assumes "arrivals (do_FrameIdleTimeout opts) since ds fs evs" "fs = number_frames 1 (of_nat (Suc k)) qs" "delivered_before k ds"
    and "awaiting opts s k off since" "phased route (res_selectedFingerprintProfile (ss_result s)) (ss_outboundStarted s) (ss_responseStarted s) qs"
    and "offsets_from off qs" "\<forall>p \<in> set qs. length (payload_bytes p) \<le> unat (initialDownloadCredit opts)"
    and "length (res_body (ss_result s)) + length (concat (map payload_bytes qs)) \<le> unat (do_MaxInlineResponseBodyBytes opts)"
    and "Suc (k + length qs) < 2 ^ 64"
  shows "\<exists>s'. stream_loop (decoded_next opts en route n) evs s = (s', if qs = [] then None else terminal_outcome (last qs))
    \<and> (ss_result s')\<lparr>res_egressMs := 0\<rparr> = (foldl absorb (ss_result s) qs)\<lparr>res_egressMs := 0\<rparr> \<and> ds_responseUpload s' = None \<and> ss_upload s' = None"
  using assms
proof (induction "do_FrameIdleTimeout opts" since ds fs evs arbitrary: k qs s off rule: arrivals.induct)
  case (arrived since ds)
  then have "qs = []" by (cases qs) auto
  then show ?case using arrived by (auto simp: awaiting_def)
next
  case (arrives t ds f fs evs since)
  obtain p ps where qs: "qs = p # ps" and f: "f = mk_frame (of_nat (Suc k)) 1 p" and fs: "fs = number_frames 1 (of_nat (Suc (Suc k))) ps"
    using arrives.prems(1) by (cases qs) (auto simp: add.commute)
  have before: "delivered_before (Suc k) (ds @ [f])"
    using arrives.prems(2) by (auto simp: delivered_before_def f mk_frame_def less_Suc_eq simp del: of_nat_Suc)
  have off: "offsets_from (off + length (payload_bytes p)) ps" using arrives.prems(5) by (cases p) (simp_all add: qs)
  have len: "Suc k < 2 ^ 64" "length (payload_bytes p) \<le> unat (initialDownloadCredit opts)"
    "length (res_body (ss_result s)) + length (payload_bytes p) \<le> unat (do_MaxInlineResponseBodyBytes opts)" using arrives.prems by (simp_all add: qs)
  from arrives.prems(3) len(1) arrives.prems(4,5) [unfolded qs] len(2,3) show ?case
  proof (cases rule: decoded_expected [where en = en and n = n and t = t])
    case (progress s')
    have body: "length (res_body (ss_result s')) = length (res_body (ss_result s)) + length (payload_bytes p)"
      "res_selectedFingerprintProfile (ss_result s') = res_selectedFingerprintProfile (ss_result s)" by (cases p; simp add: progress(3))+
    have "\<exists>s''. stream_loop (decoded_next opts en route n) evs s' = (s'', if ps = [] then None else terminal_outcome (last ps))
      \<and> (ss_result s'')\<lparr>res_egressMs := 0\<rparr> = (foldl absorb (ss_result s') ps)\<lparr>res_egressMs := 0\<rparr> \<and> ds_responseUpload s'' = None \<and> ss_upload s'' = None"
      using arrives.prems progress fs before off body by (intro arrives.hyps(2)) (auto simp: qs)
    then show ?thesis using progress by (auto simp: qs f)
  next
    case (ended s' e)
    moreover have "absorb (ss_result s) p = ss_result s" using ended(2) by (cases p) auto
    ultimately show ?thesis by (auto simp: qs f)
  qed
next
  case (again f ds since fs evs t)
  then obtain i where "f_Payload f \<noteq> None" "f_Attempt f = 1" "f_StreamSeq f = of_nat (Suc i)" "i < k" by (auto simp: delivered_before_def)
  then show ?case using again decoded_again [of opts s k off since f i] by simp
next
  case (ticked t since ds fs evs)
  then show ?case using decoded_waits [of opts s k off since t] by simp
qed


fun body_end :: "(bytes \<times> read_end) list \<Rightarrow> body_status" where
  "body_end [] = BodyOpen"
| "body_end ((_, NoErr) # rest) = body_end rest"
| "body_end ((_, EOF) # rest) = BodyDone"
| "body_end ((_, ReadErr e) # rest) = BodyFailed e"

text \<open>What the client of Control is owed for a reply of the destination: head, reads, and how the exchange ends.\<close>

definition reply_response :: "executionError + http_response \<Rightarrow> executionError + uint32 \<times> http_response" where
  "reply_response reply = (case reply of Inl f \<Rightarrow> Inl f | Inr resp \<Rightarrow> (case responseStatus (hr_status resp) of Inl f \<Rightarrow> Inl f | Inr st \<Rightarrow> Inr (st, resp)))"

definition reply_head :: "executionError + http_response \<Rightarrow> uint32 \<times> header list" where
  "reply_head reply = (case reply_response reply of Inl _ \<Rightarrow> (200, []) | Inr (st, resp) \<Rightarrow> (st, hr_header resp))"

definition reply_reads :: "executionError + http_response \<Rightarrow> (bytes \<times> read_end) list" where
  "reply_reads reply = (case reply_response reply of Inl _ \<Rightarrow> [] | Inr (_, resp) \<Rightarrow> hr_body resp)"

definition reported_failure :: "executionError \<Rightarrow> PipelineError" where
  "reported_failure f = errorFramePipelineError (fst (ValidateExecutorError (xe_code f)))
     \<lparr>ef_Code = xe_code f, ef_Message = [], ef_Details = [(''fact'', xe_fact f)], ef_TimeoutType = xe_timeoutType f,
      ef_UpstreamStatus = xe_upstreamStatus f, ef_RetryAfterMs = 0\<rparr>"

definition reply_outcome :: "executionError + http_response \<Rightarrow> PipelineError option option" where
  "reply_outcome reply = (case reply_response reply of
     Inl f \<Rightarrow> Some (Some (reported_failure f))
   | Inr (_, resp) \<Rightarrow> (case body_end (hr_body resp) of BodyOpen \<Rightarrow> None | BodyDone \<Rightarrow> Some None | BodyFailed f \<Rightarrow> Some (Some (reported_failure f))))"

lemma terminal_outcome_error: "terminal_outcome (error_payload f) = Some (Some (reported_failure f))"
  by (simp add: error_payload_def reported_failure_def)

lemma body_payloads_absorbed:
  assumes "body_payloads script tr off = (ps :: 'r payload list, st)"
  shows "st = body_end script" "phased route sel ob True (ps @ qs) = phased route sel ob True qs"
    "foldl absorb r ps = r\<lparr>res_body := res_body r @ body_bytes script, res_size := res_size r + of_nat (length (body_bytes script))\<rparr>"
    "length ps \<le> Suc (length script)" "(\<forall>x \<in> set script. length (fst x) \<le> c) \<Longrightarrow> (\<forall>p \<in> set ps. length (payload_bytes p) \<le> c)"
    "ps \<noteq> [] \<Longrightarrow> terminal_outcome (last ps) = None"
proof -
  have "st = body_end script \<and> phased route sel ob True (ps @ qs) = phased route sel ob True qs
    \<and> foldl absorb r ps = r\<lparr>res_body := res_body r @ body_bytes script, res_size := res_size r + of_nat (length (body_bytes script))\<rparr>
    \<and> length ps \<le> Suc (length script) \<and> ((\<forall>x \<in> set script. length (fst x) \<le> c) \<longrightarrow> (\<forall>p \<in> set ps. length (payload_bytes p) \<le> c))
    \<and> (ps \<noteq> [] \<longrightarrow> terminal_outcome (last ps) = None)"
    using assms
  proof (induction script arbitrary: off ps st r)
    case (Cons x rest)
    obtain chunk err where x: "x = (chunk, err)" by (cases x)
    obtain ps' st' where rec: "body_payloads rest tr (off + of_nat (length chunk)) = (ps' :: 'r payload list, st')" by fastforce
    show ?case
    proof (cases err)
      case NoErr
      then have "ps = (if chunk \<noteq> [] then [Data off chunk] else []) @ ps'" "st = st'" using Cons.prems x rec by (auto split: if_splits)
      then show ?thesis using Cons.IH [OF rec] x NoErr by (auto simp: le_SucI)
    qed (use Cons.prems x in \<open>auto split: if_splits\<close>)
  qed simp
  then show "st = body_end script" "phased route sel ob True (ps @ qs) = phased route sel ob True qs"
    "foldl absorb r ps = r\<lparr>res_body := res_body r @ body_bytes script, res_size := res_size r + of_nat (length (body_bytes script))\<rparr>"
    "length ps \<le> Suc (length script)" "(\<forall>x \<in> set script. length (fst x) \<le> c) \<Longrightarrow> (\<forall>p \<in> set ps. length (payload_bytes p) \<le> c)"
    "ps \<noteq> [] \<Longrightarrow> terminal_outcome (last ps) = None" by blast+
qed

lemma response_payloads_absorbed:
  fixes ps :: "'r payload list"
  assumes ps: "ps = response_payloads b host port prof (o_UpstreamProxyID route) t reply" and v: "validateExecutedFingerprint sel prof"
  shows "phased route sel False False ps \<and> terminal_outcome (last ps) = reply_outcome reply \<and> ps \<noteq> []
    \<and> foldl absorb (empty_result\<lparr>res_status := 200, res_selectedFingerprintProfile := sel\<rparr>) ps =
        empty_result\<lparr>res_status := fst (reply_head reply), res_headers := snd (reply_head reply), res_body := reply_bytes reply,
          res_size := of_nat (length (reply_bytes reply)), res_selectedFingerprintProfile := sel, res_executedFingerprintProfile := prof\<rparr>
    \<and> length ps \<le> length (reply_reads reply) + 4
    \<and> ((\<forall>x \<in> set (reply_reads reply). length (fst x) \<le> c) \<longrightarrow> (\<forall>p \<in> set ps. length (payload_bytes p) \<le> c))"
proof (cases "reply_response reply")
  case (Inl f)
  then have "ps = [outboundStart_payload b host port prof (o_UpstreamProxyID route) t, error_payload f]" "reply_bytes reply = []"
    by (auto simp: ps response_payloads_def reply_response_def reply_bytes_def split: sum.splits)
  then show ?thesis using v Inl
    by (simp add: reply_outcome_def reply_head_def reply_reads_def outboundStart_payload_def error_payload_def reported_failure_def empty_result_def)
next
  case (Inr y)
  obtain st resp where y: "y = (st, resp)" by fastforce
  obtain qs e where qs: "body_payloads (hr_body resp) (hr_trailer resp) 0 = (qs :: 'r payload list, e)" by fastforce
  let ?tl = "(case e of BodyOpen \<Rightarrow> [] | BodyDone \<Rightarrow> [EndFrame True] | BodyFailed failure \<Rightarrow> [error_payload failure]) :: 'r payload list"
  have eq: "ps = outboundStart_payload b host port prof (o_UpstreamProxyID route) t # ResponseStart st (hr_header resp) # qs @ ?tl"
    "reply_bytes reply = body_bytes (hr_body resp)"
    using Inr qs by (auto simp: y ps response_payloads_def reply_response_def reply_bytes_def split: sum.splits)
  note B = body_payloads_absorbed [OF qs]
  have "terminal_outcome (last ps) = reply_outcome reply"
    using B(6) Inr y by (cases e) (auto simp: eq reply_outcome_def terminal_outcome_error B(1) [symmetric])
  moreover have "phased route sel False False ps"
    using v B(2) B(2) [where qs = "[]"] by (cases e) (simp_all add: eq outboundStart_payload_def error_payload_def)
  moreover have "foldl absorb r ?tl = r" "length ?tl \<le> 1" "\<forall>p \<in> set ?tl. payload_bytes p = []" for r
    by (cases e; simp add: error_payload_def)+
  ultimately show ?thesis using B(3-5) Inr y
    by (auto simp: eq reply_head_def reply_reads_def outboundStart_payload_def empty_result_def)
qed


section \<open>Raw and decoded responses agree\<close>

text \<open>Two loops whose turns correspond, except where the first ends in an excepted state, end alike.\<close>

locale turn_simulation =
  fixes turnA :: "instant \<Rightarrow> 'e \<Rightarrow> 'a \<Rightarrow> 'a \<times> bool \<times> PipelineError option"
    and turnB :: "instant \<Rightarrow> 'e \<Rightarrow> 'b \<Rightarrow> 'b \<times> bool \<times> PipelineError option"
    and related :: "'a \<Rightarrow> 'b \<Rightarrow> bool"
    and excepted :: "'a \<Rightarrow> bool"
  assumes corresponds: "related a b \<Longrightarrow> turnA now ev a = (a', done, perr) \<Longrightarrow> turnB now ev b = (b', done', perr') \<Longrightarrow>
    (perr \<noteq> None \<and> excepted a') \<or> related a' b' \<and> perr' = perr \<and> ((done' \<or> perr' \<noteq> None) = (done \<or> perr \<noteq> None))"
begin

lemma loops_agree:
  "related a b \<Longrightarrow> stream_loop turnA evs a = (a', r) \<Longrightarrow> stream_loop turnB evs b = (b', r') \<Longrightarrow>
   excepted a' \<or> related a' b' \<and> r' = r"
proof (induction evs arbitrary: a b)
  case (Cons x evs)
  obtain now ev where x: "x = (now, ev)" by fastforce
  obtain a1 d1 e1 where A: "turnA now ev a = (a1, d1, e1)" by (metis prod_cases3)
  obtain b1 d2 e2 where B: "turnB now ev b = (b1, d2, e2)" by (metis prod_cases3)
  show ?case using corresponds [OF Cons.prems(1) A B] Cons.prems(2,3) Cons.IH [of a1 b1] by (auto simp: x A B split: if_splits)
qed simp

end

fun client_bytes :: "client_write list \<Rightarrow> bytes" where
  "client_bytes [] = []"
| "client_bytes (ClientData d # ws) = d @ client_bytes ws"
| "client_bytes (_ # ws) = client_bytes ws"

lemma client_bytes_append [simp]: "client_bytes (xs @ ys) = client_bytes xs @ client_bytes ys"
  by (induction xs rule: client_bytes.induct) simp_all

fun client_heads :: "client_write list \<Rightarrow> (uint32 \<times> header list) list" where
  "client_heads [] = []"
| "client_heads (ClientHead status headers # ws) = (status, headers) # client_heads ws"
| "client_heads (_ # ws) = client_heads ws"

lemma client_heads_append [simp]: "client_heads (xs @ ys) = client_heads xs @ client_heads ys"
  by (induction xs rule: client_heads.induct) simp_all

definition visible_headers :: "header list \<Rightarrow> header list" where
  "visible_headers headers = filter (\<lambda>(name, _). rawResponseHeaderAllowed name (responseConnectionHeaders headers)) headers"

text \<open>The two states differ in where the body goes.\<close>

definition same_stream :: "('r, 's) decoded \<Rightarrow> 'r rawResponseStreamState \<Rightarrow> bool" where
  "same_stream d r \<longleftrightarrow> ds_responseUpload d = None \<and> list_all (\<lambda>f. f = None) (rw_faults r)
     \<and> rw_wroteHeader r = ss_responseStarted r \<and> res_body (ss_result d) = client_bytes (rw_out r)
     \<and> ss_result r = (ss_result d)\<lparr>res_body := []\<rparr>
     \<and> client_heads (rw_out r) = (if ss_responseStarted r then [(res_status (ss_result d), visible_headers (res_headers (ss_result d)))] else [])
     \<and> ss_validator d = ss_validator r \<and> ss_c2eSeq d = ss_c2eSeq r \<and> ss_upload d = ss_upload r \<and> ss_uploading d = ss_uploading r
     \<and> ss_uploadErr d = ss_uploadErr r \<and> ss_sent d = ss_sent r \<and> ss_failures d = ss_failures r \<and> ss_egressStart d = ss_egressStart r
     \<and> ss_outboundStarted d = ss_outboundStarted r \<and> ss_responseStarted d = ss_responseStarted r"

lemma same_upload_step: "same_stream d r \<Longrightarrow> same_stream (upload_step opts n rd c d) (upload_step opts n rd c r)"
  by (auto simp: same_stream_def upload_step_def split: option.splits prod.splits upload_turn.splits)

lemma same_shared:
  "same_stream d r \<Longrightarrow> same_stream (sendCancel m d) (sendCancel m r)"
  "same_stream d r \<Longrightarrow> same_stream (routeFailure d) (routeFailure r)"
  "same_stream d r \<Longrightarrow> same_stream (grant_upload n d) (grant_upload n r)"
  "same_stream d r \<Longrightarrow> same_stream (return_credit n d) (return_credit n r)"
  "same_stream d r \<Longrightarrow> same_stream (d\<lparr>ss_validator := v\<rparr>) (r\<lparr>ss_validator := v\<rparr>)"
  by (auto simp: same_stream_def sendCancel_def routeFailure_def grant_upload_def return_credit_def upload_credit_def sendDownloadCredit_def Let_def
      split: option.splits prod.splits)

lemma same_fields:
  assumes "same_stream d r"
  shows "ss_uploadErr d = ss_uploadErr r" "ss_validator d = ss_validator r" "ss_outboundStarted d = ss_outboundStarted r"
    "ss_responseStarted d = ss_responseStarted r" "ss_egressStart d = ss_egressStart r" "ds_responseUpload d = None"
    "list_all (\<lambda>f. f = None) (rw_faults r)" "rw_wroteHeader r = ss_responseStarted r" "res_body (ss_result d) = client_bytes (rw_out r)"
    "ss_result r = (ss_result d)\<lparr>res_body := []\<rparr>"
  using assms unfolding same_stream_def by blast+

lemma same_updates:
  assumes "same_stream d r"
  shows "same_stream (d\<lparr>ss_uploadErr := x\<rparr>) (r\<lparr>ss_uploadErr := x\<rparr>)" "same_stream (d\<lparr>ss_outboundStarted := b\<rparr>) (r\<lparr>ss_outboundStarted := b\<rparr>)"
    "same_stream (d\<lparr>ss_egressStart := t, ss_result := (ss_result d)\<lparr>res_executedFingerprintProfile := fp\<rparr>\<rparr>)
       (r\<lparr>ss_egressStart := t, ss_result := (ss_result r)\<lparr>res_executedFingerprintProfile := fp\<rparr>\<rparr>)"
    "same_stream (d\<lparr>ss_result := (ss_result d)\<lparr>res_egressMs := ms\<rparr>\<rparr>) (r\<lparr>ss_result := (ss_result r)\<lparr>res_egressMs := ms\<rparr>\<rparr>)"
  using assms by (simp_all add: same_stream_def)

lemma same_upload_event:
  assumes "same_stream d r"
  shows "same_stream (fst (upload_event sendCancel d)) (fst (upload_event sendCancel r)) \<and> snd (upload_event sendCancel r) = snd (upload_event sendCancel d)"
  using same_updates(1) [OF assms, of None] assms same_shared(1)
  by (cases "ss_uploadErr r"; cases "the (ss_uploadErr r)") (simp_all add: upload_event_def same_fields(1) [OF assms])

lemma same_tick:
  assumes "same_stream d r"
  shows "same_stream (fst (responseStreamTick now c d)) (fst (responseStreamTick now c r)) \<and> snd (responseStreamTick now c r) = snd (responseStreamTick now c d)"
  using assms same_shared(1) [OF assms, of "''idle_timeout''"] same_shared(2) [OF assms]
  by (auto simp: responseStreamTick_def streamLost_def same_fields(2) [OF assms])

lemma same_executorError:
  assumes "same_stream d r"
  shows "same_stream (fst (executorError f d)) (fst (executorError f r)) \<and> snd (executorError f r) = snd (executorError f d)"
  using assms same_shared(2) [OF assms] by (auto simp: executorError_def split: prod.splits)

lemma same_outbound:
  assumes "same_stream d r"
  shows "same_stream (fst (acceptOutboundStart now f d)) (fst (acceptOutboundStart now f r))
    \<and> snd (acceptOutboundStart now f r) = snd (acceptOutboundStart now f d)"
  using same_updates(3) [OF assms] same_fields(10) [OF assms] by (simp add: acceptOutboundStart_def Let_def)

lemma same_route_frame:
  assumes "same_stream d r" "\<forall>st h. p \<noteq> ResponseStart st h"
  shows "same_stream (fst (validateRouteResponseFrame route p d)) (fst (validateRouteResponseFrame route p r))
    \<and> snd (validateRouteResponseFrame route p r) = snd (validateRouteResponseFrame route p d)"
  using assms same_shared(2) [OF assms(1)] same_updates(2) [OF assms(1)]
  by (cases p) (simp_all add: validateRouteResponseFrame_def validateOutboundStartFrame_def validateResponseDataFrame_def
      validateResponseEndFrame_def routeProtocolFailure_def same_fields(3,4) [OF assms(1)])

lemma same_response_start:
  assumes "same_stream d r"
  shows "snd (validateResponseStartFrame route r) = snd (validateResponseStartFrame route d)"
    "snd (validateResponseStartFrame route d) \<noteq> None \<Longrightarrow> same_stream (fst (validateResponseStartFrame route d)) (fst (validateResponseStartFrame route r))"
  using assms same_shared(2) [OF assms]
  by (auto simp: validateResponseStartFrame_def routeProtocolFailure_def same_fields(3,4) [OF assms])

lemma same_head:
  assumes "same_stream d r" "\<not> ss_responseStarted r"
  shows "same_stream (d\<lparr>ss_responseStarted := True, ss_result := (ss_result d)\<lparr>res_status := st, res_headers := hs\<rparr>\<rparr>)
    ((writeRawResponseStart st hs (r\<lparr>ss_responseStarted := True, ss_result := (ss_result r)\<lparr>res_status := st, res_headers := hs\<rparr>\<rparr>))\<lparr>rw_wroteHeader := True\<rparr>)"
  using assms by (simp add: same_stream_def writeRawResponseStart_def visible_headers_def)

lemma same_trailers: "same_stream d r \<Longrightarrow> same_stream d (writeRawTrailers ts r)"
  by (simp add: same_stream_def writeRawTrailers_def)

lemma same_end:
  assumes "same_stream d r"
  shows "same_stream (d\<lparr>ss_result := (ss_result d)\<lparr>res_egressMs := egressMillis (ss_egressStart d) now\<rparr>\<rparr>)
    (r\<lparr>ss_result := (ss_result r)\<lparr>res_egressMs := egressMillis (ss_egressStart r) now\<rparr>\<rparr>)"
  using same_updates(4) [OF assms] same_fields(5) [OF assms] by simp

definition inline_exceeded :: "DispatcherOptions \<Rightarrow> ('r, 's) decoded \<Rightarrow> bool" where
  "inline_exceeded opts d \<longleftrightarrow> uint (do_MaxInlineResponseBodyBytes opts) < int (length (res_body (ss_result d)))"

lemma same_data:
  assumes "same_stream d r" "ss_responseStarted r"
  shows "snd (acceptResponseData opts en b d) \<noteq> None \<and> inline_exceeded opts (fst (acceptResponseData opts en b d))
    \<or> same_stream (fst (acceptResponseData opts en b d)) (fst (raw_writeData b r)) \<and> snd (raw_writeData b r) = snd (acceptResponseData opts en b d)"
proof -
  have f: "client_fault (rw_faults r) b = (b, False, tl (rw_faults r))"
    using same_fields(7) [OF assms(1)] by (cases "rw_faults r") (auto simp: client_fault_def)
  have "same_stream (d\<lparr>ss_result := (ss_result d)\<lparr>res_body := res_body (ss_result d) @ b\<rparr>\<rparr>) (r\<lparr>rw_out := rw_out r @ [ClientData b], rw_faults := tl (rw_faults r)\<rparr>)"
    using assms(1) same_fields(7) [OF assms(1)] by (cases "rw_faults r") (auto simp: same_stream_def)
  from same_shared(4) [OF this] show ?thesis
    using assms(2) by (simp add: acceptResponseData_def same_fields(6,8) [OF assms(1)] raw_writeData_def f Let_def inline_exceeded_def)
qed

lemma same_payload:
  assumes S: "same_stream d r" and m: "o_ProtocolMinor route \<ge> upstreamProxyProtocolMinor"
    and D: "(case validateRouteResponseFrame route p d of (s, Some e) \<Rightarrow> (s, True, Some e)
         | (s, None) \<Rightarrow> (case acceptResponseProgress opts en now p s of (True, s, e) \<Rightarrow> (s, False, e) | (False, s, _) \<Rightarrow> acceptResponseTerminal now p s)) = (d', a, e)"
    and R: "(case validateRouteResponseFrame route p r of (s, Some e) \<Rightarrow> (s, True, Some e) | (s, None) \<Rightarrow> raw_accept now p s) = (r', a', e')"
  shows "(e \<noteq> None \<and> inline_exceeded opts d') \<or> same_stream d' r' \<and> e' = e \<and> ((a' \<or> e' \<noteq> None) = (a \<or> e \<noteq> None))"
proof -
  have prem: "\<forall>st h. p \<noteq> ResponseStart st h \<Longrightarrow>
      same_stream (fst (validateRouteResponseFrame route p d)) (fst (validateRouteResponseFrame route p r))
      \<and> snd (validateRouteResponseFrame route p r) = snd (validateRouteResponseFrame route p d)"
    using same_route_frame [OF S] by blast
  show ?thesis
  proof (cases p)
    case (OutboundStart f)
    obtain d1 e1 where d1: "validateRouteResponseFrame route p d = (d1, e1)" by fastforce
    obtain r1 where r1: "validateRouteResponseFrame route p r = (r1, e1)" and S1: "same_stream d1 r1"
      using prem OutboundStart d1 by (cases "validateRouteResponseFrame route p r") auto
    show ?thesis using D R d1 r1 S1 same_outbound [OF S1, of now f] OutboundStart
      by (cases e1) (auto simp: acceptResponseProgress_def raw_accept_def split: prod.splits)
  next
    case (ResponseStart st hs)
    show ?thesis using D R m same_response_start [OF S, of route] same_head [OF S, where st = st and hs = hs] ResponseStart
      by (auto simp: acceptResponseProgress_def raw_accept_def validateRouteResponseFrame_def validateResponseStartFrame_def
          routeProtocolFailure_def same_fields(3,4) [OF S] Let_def split: if_splits)
  next
    case (Data o' b)
    show ?thesis
    proof (cases "ss_responseStarted r")
      case True
      have V: "validateRouteResponseFrame route p d = (d, None)" "validateRouteResponseFrame route p r = (r, None)"
        using True Data by (auto simp: validateRouteResponseFrame_def validateResponseDataFrame_def same_fields(4) [OF S])
      show ?thesis using D R V same_data [OF S True, of opts en b] Data
        by (auto simp: acceptResponseProgress_def raw_accept_def split: prod.splits)
    next
      case False
      show ?thesis using D R m Data False same_shared(2) [OF S]
        by (auto simp: validateRouteResponseFrame_def validateResponseDataFrame_def routeProtocolFailure_def same_fields(4) [OF S])
    qed
  next
    case (EndFrame ok)
    obtain d1 e1 where d1: "validateRouteResponseFrame route p d = (d1, e1)" by fastforce
    obtain r1 where r1: "validateRouteResponseFrame route p r = (r1, e1)" and S1: "same_stream d1 r1"
      using prem EndFrame d1 by (cases "validateRouteResponseFrame route p r") auto
    show ?thesis using D R d1 r1 S1 same_end [OF S1, of now] EndFrame
      by (cases e1) (auto simp: acceptResponseProgress_def acceptResponseTerminal_def raw_accept_def)
  next
    case (ErrorP f)
    show ?thesis using D R S same_executorError [OF S, of f] ErrorP
      by (auto simp: validateRouteResponseFrame_def acceptResponseProgress_def acceptResponseTerminal_def raw_accept_def split: prod.splits)
  qed (use D R S same_shared [OF S] same_trailers [OF S] in
      \<open>auto simp: validateRouteResponseFrame_def acceptResponseProgress_def acceptResponseTerminal_def raw_accept_def split: if_splits\<close>)
qed

lemma same_accept:
  assumes "same_stream d r" "o_ProtocolMinor route \<ge> upstreamProxyProtocolMinor"
    and "acceptResponseFrame opts en route now mf d = (d', a, e)" "raw_acceptValidated route now mf r = (r', a', e')"
  shows "(e \<noteq> None \<and> inline_exceeded opts d') \<or> same_stream d' r' \<and> e' = e \<and> ((a' \<or> e' \<noteq> None) = (a \<or> e \<noteq> None))"
proof -
  obtain v out where A: "Accept now (ss_validator r) mf = (v, out)" by fastforce
  let ?d = "d\<lparr>ss_validator := v\<rparr>" and ?r = "r\<lparr>ss_validator := v\<rparr>"
  have S: "same_stream ?d ?r" using same_shared(5) [OF assms(1)] .
  have A': "Accept now (ss_validator d) mf = (v, out)" using A same_fields(2) [OF assms(1)] by simp
  show ?thesis
  proof (cases "out = FrameAccepted")
    case False
    then show ?thesis using assms(3,4) S by (auto simp: acceptResponseFrame_def raw_acceptValidated_def A A' acceptedResponseFrame_def split: if_splits)
  next
    case True
    then show ?thesis using assms(3,4) same_payload [OF S assms(2)]
      by (simp add: acceptResponseFrame_def raw_acceptValidated_def A A' acceptedResponseFrame_def Let_def)
  qed
qed


interpretation decoded_raw: turn_simulation "decoded_next opts en route n" "raw_next opts route n"
    "\<lambda>d r. same_stream d r \<and> o_ProtocolMinor route \<ge> upstreamProxyProtocolMinor" "inline_exceeded opts" for opts en route n
proof
  fix d r now ev d' a e r' a' e'
  assume S: "same_stream d r \<and> o_ProtocolMinor route \<ge> upstreamProxyProtocolMinor"
    and D: "decoded_next opts en route n now ev d = (d', a, e)" and R: "raw_next opts route n now ev r = (r', a', e')"
  have S': "same_stream d r" using S by blast
  show "e \<noteq> None \<and> inline_exceeded opts d' \<or> (same_stream d' r' \<and> o_ProtocolMinor route \<ge> upstreamProxyProtocolMinor) \<and> e' = e
      \<and> ((a' \<or> e' \<noteq> None) = (a \<or> e \<noteq> None))"
  proof (cases ev)
    case (FrameArrived mf)
    show ?thesis using same_accept [OF S' _, of route opts en now mf d' a e r' a' e'] S D R by (simp add: FrameArrived decoded_next_def raw_next_def)
  next
    case UploadReported
    show ?thesis using same_upload_event [OF S'] S D R by (auto simp: UploadReported decoded_next_def raw_next_def)
  next
    case (Tick c)
    show ?thesis using same_tick [OF S', of now c] S D R by (auto simp: Tick decoded_next_def raw_next_def split: prod.splits)
  qed (use S same_shared(1,2) [OF S'] same_upload_step [OF S'] D R in \<open>auto simp: decoded_next_def raw_next_def streamLost_def\<close>)
qed

lemma same_close: "same_stream d r \<Longrightarrow> same_stream (close_gate d) (close_gate r)"
  by (simp add: same_stream_def close_gate_def)

lemma same_initial:
  "list_all (\<lambda>f. f = None) faults \<Longrightarrow>
   same_stream ((stream_state.extend (new_stream_state opts now seq (start_upload opts streamed seq) empty_result) \<lparr>ds_responseUpload = None, ds_service = sv\<rparr>)
       \<lparr>ss_result := started_result fp, ds_responseUpload := None\<rparr>) (new_raw_state opts fp seq (start_upload opts streamed seq) faults now)"
  by (simp add: same_stream_def new_raw_state_def new_stream_state_def start_upload_def stream_state.defs started_result_def empty_result_def)

lemma closing_keeps_body:
  "res_body (ss_result (abort_response en s)) = res_body (ss_result s)"
  "res_body (ss_result (fst (commitResponseReceipt en t s))) = res_body (ss_result s)"
  "ss_result (close_gate s) = ss_result s"
  by (auto simp: abort_response_def commitResponseReceipt_def close_gate_def split: option.splits prod.splits sum.splits)

lemma closing_without_receipt:
  "ds_responseUpload s = None \<Longrightarrow> abort_response en s = s \<and> commitResponseReceipt en t s = (s, None)"
  by (simp add: abort_response_def commitResponseReceipt_def)

lemma closing_agrees:
  assumes L: "inline_exceeded opts d1 \<or> same_stream d1 r1 \<and> y1 = x1"
    and d: "(case x1 of None \<Rightarrow> (d1, None) | Some (Some e) \<Rightarrow> (close_gate (abort_response en d1), Some (Some e))
      | Some None \<Rightarrow> (case commitResponseReceipt en ct d1 of (s, e) \<Rightarrow> (close_gate s, Some e))) = (d, x)"
    and r: "(case y1 of None \<Rightarrow> (r1, None) | Some e \<Rightarrow> (close_gate r1, Some e)) = (r, y)"
  shows "inline_exceeded opts d \<or> same_stream d r \<and> y = x"
proof (cases "inline_exceeded opts d1")
  case True
  moreover have "res_body (ss_result d) = res_body (ss_result d1)"
    using d closing_keeps_body(2) [of en ct d1] by (auto simp: closing_keeps_body(1,3) split: option.splits prod.splits)
  ultimately show ?thesis by (simp add: inline_exceeded_def)
next
  case False
  then have S: "same_stream d1 r1" "y1 = x1" using L by blast+
  then show ?thesis using d r closing_without_receipt [OF same_fields(6) [OF S(1)], of en ct] same_close [OF S(1)]
    by (auto split: option.splits)
qed

section \<open>A sample response\<close>

definition demo_opts :: DispatcherOptions where
  "demo_opts = NewDefaultRequestDispatcher \<lparr>do_MaxInlineResponseBodyBytes = 100, do_MaxFrameDataBytes = 0, do_MaxTimeoutMs = 1000,
     do_AssignmentAckTimeout = 0, do_InitialUploadCreditBytes = 0, do_InitialDownloadCreditBytes = 0, do_MaxInflightUploadBytes = 0,
     do_MaxInflightDownloadBytes = 0, do_FrameIdleTimeout = 0\<rparr>"

definition demo_route :: RouteOutcome where
  "demo_route = (route_failed [])\<lparr>o_OK := True, o_ProtocolMinor := 2\<rparr>"

definition demo_frames :: "string StreamFrame list" where
  "demo_frames = execute_response (newFrameBuilder 1) ''h'' 443 ''baseline'' [] 0 (Inr ex_response)"

definition demo_arrivals :: "'r StreamFrame list \<Rightarrow> (instant \<times> 'r stream_input) list" where
  "demo_arrivals fs = (case fs of [] \<Rightarrow> []
     | f # rest \<Rightarrow> (5, Tick True) # (6, FrameArrived (Some f)) # (7, FrameArrived (Some f)) # map (\<lambda>f. (8, FrameArrived (Some f))) rest)"

lemma arrivals_in_order: "arrivals idle since ds fs (map (\<lambda>f. (t, FrameArrived (Some f))) fs)"
  by (induction fs arbitrary: since ds) (auto intro: arrivals.intros)

lemma demo_arrivals: "idle \<le> 0 \<or> 5 < idle \<Longrightarrow> arrivals idle 0 [] fs (demo_arrivals fs)"
  by (cases fs) (auto simp: demo_arrivals_def intro!: arrivals.intros arrivals_in_order)

lemma demo_collected:
  "(case readResponse demo_opts en True demo_route ''d'' None None 0 1 None 0 (demo_arrivals demo_frames) 9 sv of
    (d, x) \<Rightarrow> x = Some None \<and> res_body (ss_result d) = ''abc'' \<and> res_status (ss_result d) = 200 \<and> res_headers (ss_result d) = [] \<and> ss_responseStarted d)"
  by code_simp

section \<open>Properties\<close>





end
