(* ===== verification/Spec2Isabelle.thy ===== *)
theory Spec2Isabelle
  imports Egress_Policy Lifecycle Routing Receipt_Runs Config_Snapshot Response_Runs
begin

text \<open>
  Verification of Straw, an outbound request gateway.  Control accepts requests over REST or as an HTTP
  proxy, validates them against the runtime configuration, routes each to a worker and speaks a framed
  stream protocol with it over NATS.  Egress workers check the destination again, perform the request and
  stream the response back.  Large bodies travel as receipts through an object store.

  \<^bold>\<open>Conventions.\<close>  Go strings and byte slices are \<open>char list\<close>; unsigned integers that may wrap keep their width
  (\<open>32 word\<close>, \<open>64 word\<close>), fixed byte arrays are words of that many bits; counters that the code bounds before
  use are \<open>int\<close> or \<open>nat\<close>; instants are \<open>int\<close> milliseconds.  Structs are records whose fields carry a short
  prefix, a nil pointer is \<open>None\<close>, an error result is the left side of a sum or an \<open>option\<close>.  State is passed
  explicitly; an object guarded by a mutex is a sequence of operations on its record.  The clock, random
  identifiers, SHA-256, HMAC, the IDNA conversion, DNS answers, the network and the filesystem's failures
  are arguments.

  \<^bold>\<open>Theories and the code they model\<close> (paths under \<open>src/internal\<close>).
  \<^item> \<open>Straw_Prelude\<close>: byte strings, decimal and hexadecimal text, white space, stable sorting, word arithmetic.
  \<^item> \<open>Net_IP\<close>, \<open>Go_Encoding\<close>: what is used of \<open>net/netip\<close>, \<open>encoding/base64\<close> and \<open>unicode/utf8\<close>.
  \<^item> \<open>Straw_Errors\<close>: \<open>control/errors.go\<close>, \<open>control/protocol_error.go\<close>, responses of \<open>control/handler.go\<close>.
  \<^item> \<open>Stream_Frames\<close>: the frame validator of \<open>natsx/stream.go\<close>; a run of one direction accepts each frame once,
    in order, within its credit and nothing after the terminal frame.
  \<^item> \<open>Stream_Senders\<close>: \<open>egress/response_frames.go\<close>, body streaming of \<open>egress/executor.go\<close>, \<open>control/request_stream.go\<close>;
    what the senders emit is what the validator accepts and reassembles to the body.
  \<^item> \<open>Config_Types\<close>, \<open>Config_Snapshot\<close>: \<open>config/snapshot.go\<close>, \<open>config/snapshot_validate.go\<close>; accepted snapshots are
    well formed, preparing them again changes nothing, and their injection policies always resolve.
  \<^item> \<open>Dest_Policy\<close>, \<open>Egress_Policy\<close>: \<open>control/destination_policy.go\<close>, \<open>egress/execution_error.go\<close>, the dialling part of
    \<open>egress/executor.go\<close>, \<open>egress/resolver.go\<close>; Control and Egress decide alike on literal addresses, and only
    addresses that pass the policy are dialled.
  \<^item> \<open>Lifecycle\<close>: \<open>control/lifecycle.go\<close>; one terminal event per request and no fallback past the replay boundary.
  \<^item> \<open>Nats_Subjects\<close>, \<open>Fingerprint\<close>: \<open>natsx/natsx.go\<close>, \<open>fingerprint/catalog.go\<close>, \<open>proxytemplate/template.go\<close>.
  \<^item> \<open>Worker_Registry\<close>, \<open>Routing\<close>: \<open>control/worker_registry.go\<close>, \<open>control/routing.go\<close>; sessions fence heartbeats,
    candidates are live, a route is found exactly when an eligible worker exists and is sound when found.
  \<^item> \<open>Object_Store\<close>: \<open>objectstore/store.go\<close> as the locale \<open>object_store\<close> and \<open>objectstore/local.go\<close> as an
    interpretation of it in which every system call may fail.
  \<^item> \<open>Receipts\<close>, \<open>Receipt_Runs\<close>: the package \<open>receipt\<close>.  The locale \<open>receipt_service\<close> extends the store contract; in it
    every operation keeps the invariant of the stored objects and follows the abstract lifecycle
    \<open>receipt_edge\<close>.  The service over the local store interprets it.

  \<^item> \<open>Response_Stream\<close>, \<open>Response_Runs\<close>: \<open>control/response_stream.go\<close>, \<open>control/raw_response.go\<close> and the stream of
    \<open>control/tunnel.go\<close>, each loop a fold over the events it selects.  The locale \<open>stream_turns\<close> says that no error
    of a turn allows another attempt; all three loops interpret it.  The frames of Egress make \<open>readResponse\<close>
    return the reply of the destination, and the locale \<open>turn_simulation\<close> relates the raw loop to the decoded one.

  \<^bold>\<open>Termination and fuel.\<close>  Loops over data are structural or carry a measure.  \<open>trim_space\<close> runs with the length of
  its argument as fuel, and each round removes a character.  The copy loop of the receipt service is a
  \<open>partial_function\<close>, shown equal to the total \<open>read_objects\<close>.

  \<^bold>\<open>Not modelled.\<close>  The choice of attempts and fallbacks in \<open>control/assignment.go\<close>, the ingress handlers with
  their JSON decoding, the administration and shared runtime state of Control, HTTP execution in Egress, the
  S3 client, NATS, Redis, JetStream and HTTP plumbing (clients of services), the fingerprinted TLS transport and
  its tables of handshake parameters, metrics, logging, process start-up and the test support package.
\<close>

end
